(* ===== verification/Prelude.thy ===== *)
theory Prelude
  imports Main "HOL-Library.Product_Lexorder"
begin

text \<open>
  What every component shares: the sum type used for Rust's \<open>Result\<close>, the casts between
  integer widths, the helpers the source uses on optional strings, and the relational
  operations on tables (a table is the list of its rows in insertion order) with the lemmas
  that let the component proofs reason about one row at a time.
\<close>

named_theorems table_simps \<open>row lookup over inserted, updated and deleted tables\<close>
named_theorems cast_simps \<open>integer casts that do not truncate\<close>

subsection \<open>Results\<close>

text \<open>\<open>Result\<close> of Rust: \<open>Inl\<close> is \<open>Err\<close>, \<open>Inr\<close> is \<open>Ok\<close>; \<open>bind_res\<close> is the \<open>?\<close> operator.\<close>

definition bind_res :: "'e + 'a \<Rightarrow> ('a \<Rightarrow> 'e + 'b) \<Rightarrow> 'e + 'b" where
  "bind_res r k = (case r of Inl e \<Rightarrow> Inl e | Inr v \<Rightarrow> k v)"

definition map_ok :: "('a \<Rightarrow> 'b) \<Rightarrow> 'e + 'a \<Rightarrow> 'e + 'b" where
  "map_ok f r = (case r of Inl e \<Rightarrow> Inl e | Inr v \<Rightarrow> Inr (f v))"

lemma bind_res_simps [simp]:
  "bind_res (Inl e) k = Inl e"
  "bind_res (Inr v) k = k v"
  by (simp_all add: bind_res_def)

lemma map_ok_simps [simp]:
  "map_ok f (Inl e) = Inl e"
  "map_ok f (Inr v) = Inr (f v)"
  by (simp_all add: map_ok_def)

lemma map_ok_eq_Inr: "map_ok f r = Inr w \<longleftrightarrow> (\<exists>v. r = Inr v \<and> w = f v)"
  by (cases r) auto

subsection \<open>Integers\<close>

text \<open>
  Rust's \<open>as i64\<close> and \<open>as i32\<close> keep the low bits and read them as two's complement.
  Arithmetic on \<open>i64\<close> wraps in the release profile (the workspace does not turn
  \<open>overflow-checks\<close> on); \<open>add_i64\<close> and \<open>sub_i64\<close> write that out.
\<close>

definition as_i64 :: "int \<Rightarrow> int" where
  "as_i64 x = signed_take_bit 63 x"

definition as_i32 :: "int \<Rightarrow> int" where
  "as_i32 x = signed_take_bit 31 x"

definition add_i64 :: "int \<Rightarrow> int \<Rightarrow> int" where
  "add_i64 a b = as_i64 (a + b)"

definition sub_i64 :: "int \<Rightarrow> int \<Rightarrow> int" where
  "sub_i64 a b = as_i64 (a - b)"

definition in_i64 :: "int \<Rightarrow> bool" where
  "in_i64 x \<longleftrightarrow> - 9223372036854775808 \<le> x \<and> x < 9223372036854775808"

definition in_i32 :: "int \<Rightarrow> bool" where
  "in_i32 x \<longleftrightarrow> - 2147483648 \<le> x \<and> x < 2147483648"

lemma as_i64_id [cast_simps]: "in_i64 x \<Longrightarrow> as_i64 x = x"
  by (simp add: as_i64_def in_i64_def signed_take_bit_int_eq_self)

lemma as_i32_id [cast_simps]: "in_i32 x \<Longrightarrow> as_i32 x = x"
  by (simp add: as_i32_def in_i32_def signed_take_bit_int_eq_self)

lemma as_i64_range: "in_i64 (as_i64 x)"
  using signed_take_bit_int_greater_eq_minus_exp [of 63 x] signed_take_bit_int_less_exp [of 63 x]
  by (simp add: as_i64_def in_i64_def)

lemma as_i32_range: "in_i32 (as_i32 x)"
  using signed_take_bit_int_greater_eq_minus_exp [of 31 x] signed_take_bit_int_less_exp [of 31 x]
  by (simp add: as_i32_def in_i32_def)

lemma add_i64_exact [cast_simps]: "in_i64 (a + b) \<Longrightarrow> add_i64 a b = a + b"
  by (simp add: add_i64_def as_i64_id)

lemma sub_i64_exact [cast_simps]: "in_i64 (a - b) \<Longrightarrow> sub_i64 a b = a - b"
  by (simp add: sub_i64_def as_i64_id)

subsection \<open>Decimal text of integers\<close>

fun show_nat :: "nat \<Rightarrow> string" where
  "show_nat n =
     (if n < 10 then [char_of (48 + n)] else show_nat (n div 10) @ [char_of (48 + n mod 10)])"

declare show_nat.simps [simp del]

lemma digit_chars:
  "char_of (48 :: nat) = CHR ''0''" "char_of (49 :: nat) = CHR ''1''" "char_of (50 :: nat) = CHR ''2''"
  "char_of (51 :: nat) = CHR ''3''" "char_of (52 :: nat) = CHR ''4''" "char_of (53 :: nat) = CHR ''5''"
  "char_of (54 :: nat) = CHR ''6''" "char_of (55 :: nat) = CHR ''7''" "char_of (56 :: nat) = CHR ''8''"
  "char_of (57 :: nat) = CHR ''9''"
  by (simp_all add: char_of_eq_iff)

definition show_int :: "int \<Rightarrow> string" where
  "show_int i = (if i < 0 then ''-'' @ show_nat (nat (- i)) else show_nat (nat i))"

lemma show_nat_nonempty: "show_nat n \<noteq> []"
  by (subst show_nat.simps) simp

lemma show_int_nonempty: "show_int i \<noteq> []"
  by (simp add: show_int_def show_nat_nonempty)

text \<open>Reading the digits back, most significant first: the decimal text determines the number.\<close>

definition digits_val :: "string \<Rightarrow> nat" where
  "digits_val s = foldl (\<lambda>n c. 10 * n + (of_char c - 48)) 0 s"

lemma digits_val_show_nat: "digits_val (show_nat n) = n"
proof (induction n rule: show_nat.induct)
  case (1 n)
  have small: "of_char (char_of (48 + d) :: char) - 48 = d" if "d < 10" for d :: nat
    using that by simp
  show ?case
  proof (cases "n < 10")
    case True
    then show ?thesis using small [of n] by (subst show_nat.simps) (simp add: digits_val_def)
  next
    case False
    with 1 have "digits_val (show_nat (n div 10)) = n div 10" by simp
    with False show ?thesis
      using small [of "n mod 10"] by (subst show_nat.simps) (simp add: digits_val_def)
  qed
qed

lemma show_nat_inj: "show_nat m = show_nat n \<Longrightarrow> m = n"
  by (metis digits_val_show_nat)

lemma show_nat_digits: "c \<in> set (show_nat n) \<Longrightarrow> c \<noteq> CHR ''-''"
proof (induction n rule: show_nat.induct)
  case (1 n)
  have digit: "char_of (48 + d) \<noteq> CHR ''-''" if "d < 10" for d :: nat
  proof
    assume "char_of (48 + d) = CHR ''-''"
    then have "of_char (char_of (48 + d) :: char) = (of_char (CHR ''-'') :: nat)" by simp
    with that show False by simp
  qed
  show ?case
  proof (cases "n < 10")
    case True
    with 1(2) digit [of n] show ?thesis by (subst (asm) show_nat.simps) simp
  next
    case False
    with 1 digit [of "n mod 10"] show ?thesis by (subst (asm) (2) show_nat.simps) auto
  qed
qed

lemma show_int_inj: "show_int i = show_int j \<Longrightarrow> i = j"
proof -
  assume eq: "show_int i = show_int j"
  have neg: "show_nat n \<noteq> CHR ''-'' # s" for n s
    using show_nat_digits [of "CHR ''-''" n] by auto
  show "i = j"
    using eq neg neg [symmetric] show_nat_inj
    by (fastforce simp: show_int_def split: if_splits)
qed

subsection \<open>Optional strings\<close>

text \<open>
  The \<open>opt\<close> closure of \<open>insert_workflow_status\<close> stores an empty string as NULL, and
  \<open>unwrap_or_default\<close> reads NULL back as the empty string.
\<close>

definition opt_str :: "string \<Rightarrow> string option" where
  "opt_str v = (if v = [] then None else Some v)"

definition unwrap_or_default :: "string option \<Rightarrow> string" where
  "unwrap_or_default v = (case v of None \<Rightarrow> [] | Some s \<Rightarrow> s)"

definition non_empty_opt :: "string option \<Rightarrow> string option" where
  "non_empty_opt v = (case v of None \<Rightarrow> None | Some s \<Rightarrow> opt_str s)"

definition unwrap_or :: "'a option \<Rightarrow> 'a \<Rightarrow> 'a" where
  "unwrap_or v d = (case v of None \<Rightarrow> d | Some x \<Rightarrow> x)"

lemma unwrap_or_simps [simp]: "unwrap_or None d = d" "unwrap_or (Some x) d = x"
  by (simp_all add: unwrap_or_def)

lemma unwrap_or_default_simps [simp]:
  "unwrap_or_default None = []" "unwrap_or_default (Some s) = s"
  by (simp_all add: unwrap_or_default_def)

lemma unwrap_opt_str [simp]: "unwrap_or_default (opt_str s) = s"
  by (simp add: opt_str_def)

lemma opt_str_simps [simp]: "opt_str [] = None" "opt_str (c # cs) = Some (c # cs)"
  by (simp_all add: opt_str_def)

lemma opt_str_eq_Some: "opt_str s = Some t \<longleftrightarrow> s = t \<and> t \<noteq> []"
  by (auto simp: opt_str_def)

lemma non_empty_opt_simps [simp]:
  "non_empty_opt None = None" "non_empty_opt (Some s) = opt_str s"
  by (simp_all add: non_empty_opt_def)

subsection \<open>Tables\<close>

text \<open>
  \<open>UPDATE t SET f WHERE P\<close> and \<open>DELETE FROM t WHERE P\<close> on the list of rows; a row is looked
  up by its key with \<open>fetch\<close> (\<open>SELECT ... WHERE key = k\<close>, \<open>fetch_optional\<close>).
\<close>

definition update_where :: "('r \<Rightarrow> bool) \<Rightarrow> ('r \<Rightarrow> 'r) \<Rightarrow> 'r list \<Rightarrow> 'r list" where
  "update_where P f rows = map (\<lambda>r. if P r then f r else r) rows"

definition delete_where :: "('r \<Rightarrow> bool) \<Rightarrow> 'r list \<Rightarrow> 'r list" where
  "delete_where P rows = filter (\<lambda>r. \<not> P r) rows"

definition fetch :: "('r \<Rightarrow> 'k) \<Rightarrow> 'k \<Rightarrow> 'r list \<Rightarrow> 'r option" where
  "fetch key k rows = List.find (\<lambda>r. key r = k) rows"

definition count_where :: "('r \<Rightarrow> bool) \<Rightarrow> 'r list \<Rightarrow> int" where
  "count_where P rows = int (length (filter P rows))"

lemma fetch_Nil [simp]: "fetch key k [] = None"
  by (simp add: fetch_def)

lemma fetch_Cons [table_simps]:
  "fetch key k (r # rows) = (if key r = k then Some r else fetch key k rows)"
  by (simp add: fetch_def)

lemma fetch_append [table_simps]:
  "fetch key k (xs @ ys) = (case fetch key k xs of None \<Rightarrow> fetch key k ys | Some r \<Rightarrow> Some r)"
  by (induction xs) (auto simp: table_simps)

lemma fetch_Some_iff_distinct:
  "distinct (map key rows) \<Longrightarrow> fetch key k rows = Some r \<longleftrightarrow> r \<in> set rows \<and> key r = k"
  by (induction rows) (auto simp: table_simps)

lemma fetch_SomeD: "fetch key k rows = Some r \<Longrightarrow> r \<in> set rows \<and> key r = k"
  by (induction rows) (auto simp: table_simps split: if_splits)

lemma fetch_None_iff: "fetch key k rows = None \<longleftrightarrow> (\<forall>r\<in>set rows. key r \<noteq> k)"
  by (induction rows) (auto simp: table_simps)

lemma fetch_not_None_iff: "fetch key k rows \<noteq> None \<longleftrightarrow> k \<in> key ` set rows"
  by (auto simp: fetch_None_iff)

lemma fetch_update_where [table_simps]:
  assumes "\<And>r. key (f r) = key r"
  shows "fetch key k (update_where P f rows)
       = map_option (\<lambda>r. if P r then f r else r) (fetch key k rows)"
  using assms by (induction rows) (auto simp: update_where_def table_simps)

lemma fetch_delete_key [table_simps]:
  "fetch key k (delete_where (\<lambda>r. key r = k') rows) = (if k = k' then None else fetch key k rows)"
  by (induction rows) (auto simp: delete_where_def table_simps)

lemma fetch_delete_where:
  assumes "distinct (map key rows)"
  shows "fetch key k (delete_where P rows)
       = (case fetch key k rows of None \<Rightarrow> None | Some r \<Rightarrow> if P r then None else Some r)"
  using assms
proof (induction rows)
  case Nil
  show ?case by (simp add: delete_where_def)
next
  case (Cons a rows)
  then have "fetch key (key a) rows = None" by (auto simp: fetch_None_iff) (metis imageI)
  with Cons show ?case by (auto simp: delete_where_def fetch_Cons split: option.splits)
qed

lemma map_key_update_where [table_simps]:
  assumes "\<And>r. key (f r) = key r"
  shows "map key (update_where P f rows) = map key rows"
  using assms by (auto simp: update_where_def)

lemma key_set_update_where [table_simps]:
  assumes "\<And>r. key (f r) = key r"
  shows "key ` set (update_where P f rows) = key ` set rows"
  using map_key_update_where [where key = key and f = f and P = P and rows = rows] assms
  by (metis list.set_map)

lemma set_update_where: "set (update_where P f rows) = (\<lambda>r. if P r then f r else r) ` set rows"
  by (simp add: update_where_def)

lemma set_delete_where [simp]: "set (delete_where P rows) = {r \<in> set rows. \<not> P r}"
  by (auto simp: delete_where_def)

lemma length_update_where [simp]: "length (update_where P f rows) = length rows"
  by (simp add: update_where_def)

lemma update_where_none: "(\<And>r. r \<in> set rows \<Longrightarrow> \<not> P r) \<Longrightarrow> update_where P f rows = rows"
  by (simp add: update_where_def map_idI)

lemma update_where_again:
  assumes "\<And>r. P (f r) \<Longrightarrow> f (f r) = f r"
  shows "update_where P f (update_where P f rows) = update_where P f rows"
  using assms by (simp add: update_where_def)

lemma delete_where_none: "(\<And>r. r \<in> set rows \<Longrightarrow> \<not> P r) \<Longrightarrow> delete_where P rows = rows"
  by (simp add: delete_where_def)

lemma distinct_map_delete_where [intro]:
  "distinct (map key rows) \<Longrightarrow> distinct (map key (delete_where P rows))"
  by (simp add: delete_where_def distinct_map_filter)

lemma count_where_nonneg [simp]: "0 \<le> count_where P rows"
  by (simp add: count_where_def)

lemma count_where_append [simp]:
  "count_where P (xs @ ys) = count_where P xs + count_where P ys"
  by (simp add: count_where_def)

lemma count_where_Cons [simp]:
  "count_where P (x # xs) = (if P x then 1 else 0) + count_where P xs"
  by (simp add: count_where_def)

lemma count_where_Nil [simp]: "count_where P [] = 0"
  by (simp add: count_where_def)

text \<open>An UPDATE of one row changes a count by at most one.\<close>

lemma count_where_update_key:
  assumes "distinct (map key rows)" and "\<And>r. key (f r) = key r"
  shows "count_where P (update_where (\<lambda>r. key r = k \<and> Q r) f rows) \<le> count_where P rows + 1"
  using assms(1)
proof (induction rows)
  case Nil
  show ?case by (simp add: update_where_def)
next
  case (Cons a rows)
  show ?case
  proof (cases "key a = k")
    case True
    with Cons.prems have "\<And>r. r \<in> set rows \<Longrightarrow> \<not> (key r = k \<and> Q r)"
      by simp (metis imageI)
    then have "update_where (\<lambda>r. key r = k \<and> Q r) f rows = rows" by (rule update_where_none)
    then show ?thesis by (simp add: update_where_def)
  next
    case False
    with Cons show ?thesis by (simp add: update_where_def)
  qed
qed

end
