(* ===== verification/Errors.thy ===== *)
theory Errors
  imports Prelude
begin

text \<open>
  \<open>crates/dbos-core/src/error.rs\<close>: the error categories, the error value with its context
  fields and its chain of wrapped sources, the constructors, the text form, and the search of
  the chain by category (\<open>is_code\<close>).  The values of \<open>serde_json\<close> and the errors of \<open>sqlx\<close>
  that the source inspects are the datatypes it matches on.
\<close>

subsection \<open>JSON values and database errors\<close>

text \<open>\<open>serde_json::Value\<close>; a number that is not an integer keeps its text.\<close>

datatype json =
    JNull
  | JBool bool
  | JInt int
  | JFloat string
  | JString string
  | JArray "json list"
  | JObject "(string \<times> json) list"

definition is_null :: "json \<Rightarrow> bool" where
  "is_null v \<longleftrightarrow> v = JNull"

text \<open>
  \<open>sqlx::Error\<close>: a database error carries its SQLSTATE (or SQLite result code) and the kind
  of constraint it reports; the other variants are those \<open>is_transient\<close> names, \<open>OtherSqlx\<close>
  standing for the rest.  Every value has the text it displays as.
\<close>

datatype db_kind = UniqueViolation | ForeignKeyViolation | NotNullViolation | OtherKind

datatype sqlx_variant =
    Database "string option" db_kind
  | Configuration
  | Io
  | Tls
  | Protocol
  | RowNotFound
  | TypeNotFound
  | ColumnIndexOutOfBounds
  | ColumnNotFound
  | ColumnDecode
  | Decode
  | PoolTimedOut
  | WorkerCrashed
  | OtherSqlx

datatype sqlx_error = SqlxError (sqlx_variant: sqlx_variant) (sqlx_text: string)

definition is_unique_violation :: "sqlx_error \<Rightarrow> bool" where
  "is_unique_violation e =
     (case sqlx_variant e of Database _ k \<Rightarrow> k = UniqueViolation | _ \<Rightarrow> False)"

definition is_foreign_key_violation :: "sqlx_error \<Rightarrow> bool" where
  "is_foreign_key_violation e =
     (case sqlx_variant e of Database _ k \<Rightarrow> k = ForeignKeyViolation | _ \<Rightarrow> False)"

subsection \<open>Categories\<close>

datatype dbos_error_code =
    ConflictingId
  | Initialization
  | NonExistentWorkflow
  | ConflictingWorkflow
  | WorkflowCancelled
  | UnexpectedStep
  | AwaitedWorkflowCancelled
  | ConflictingRegistration
  | WorkflowUnexpectedType
  | WorkflowExecution
  | StepExecution
  | DeadLetterQueue
  | MaxStepRetriesExceeded
  | QueueDeduplicated
  | PatchingNotEnabled
  | Timeout
  | NoApplicationVersions

primrec code_discriminant :: "dbos_error_code \<Rightarrow> nat" where
  "code_discriminant ConflictingId = 1"
| "code_discriminant Initialization = 2"
| "code_discriminant NonExistentWorkflow = 3"
| "code_discriminant ConflictingWorkflow = 4"
| "code_discriminant WorkflowCancelled = 5"
| "code_discriminant UnexpectedStep = 6"
| "code_discriminant AwaitedWorkflowCancelled = 7"
| "code_discriminant ConflictingRegistration = 8"
| "code_discriminant WorkflowUnexpectedType = 9"
| "code_discriminant WorkflowExecution = 10"
| "code_discriminant StepExecution = 11"
| "code_discriminant DeadLetterQueue = 12"
| "code_discriminant MaxStepRetriesExceeded = 13"
| "code_discriminant QueueDeduplicated = 14"
| "code_discriminant PatchingNotEnabled = 15"
| "code_discriminant Timeout = 16"
| "code_discriminant NoApplicationVersions = 17"

definition code_display :: "dbos_error_code \<Rightarrow> string" where
  "code_display c = show_nat (code_discriminant c)"

lemma code_discriminant_inj: "code_discriminant c = code_discriminant d \<Longrightarrow> c = d"
  by (cases c; cases d; simp)

lemma code_display_inj: "code_display c = code_display d \<Longrightarrow> c = d"
  by (simp add: code_display_def code_discriminant_inj show_nat_inj)

subsection \<open>The error value\<close>

datatype portable_error =
  PortableWorkflowError
    (pe_name: string) (pe_message: string) (pe_code: "json option") (pe_data: "json option")

text \<open>
  \<open>DbosError\<close> and the errors it can wrap.  A source that is none of the crate's types
  (\<open>SrcOther\<close>) is known by its text and by the source it wraps in turn.
\<close>

datatype dbos_error =
  DbosError
    (err_message: string)
    (err_code: dbos_error_code)
    (err_workflow_id: "string option")
    (err_destination_id: "string option")
    (err_step_name: "string option")
    (err_queue_name: "string option")
    (err_deduplication_id: "string option")
    (err_step_id: "int option")
    (err_expected_name: "string option")
    (err_recorded_name: "string option")
    (err_max_retries: "int option")
    (err_source: "err_source option")
and err_source =
    SrcDbos dbos_error
  | SrcSqlx sqlx_error
  | SrcPortable portable_error
  | SrcOther string "err_source option"

type_synonym 'a res = "dbos_error + 'a"

definition error_new :: "dbos_error_code \<Rightarrow> string \<Rightarrow> dbos_error" where
  "error_new code message =
     DbosError message code None None None None None None None None None None"

primrec with_source :: "dbos_error \<Rightarrow> err_source \<Rightarrow> dbos_error" where
  "with_source (DbosError m c w d s q dd si en rn mr src) e =
     DbosError m c w d s q dd si en rn mr (Some e)"

primrec set_workflow_id :: "string \<Rightarrow> dbos_error \<Rightarrow> dbos_error" where
  "set_workflow_id i (DbosError m c w d s q dd si en rn mr src) =
     DbosError m c (Some i) d s q dd si en rn mr src"

primrec set_destination_id :: "string \<Rightarrow> dbos_error \<Rightarrow> dbos_error" where
  "set_destination_id i (DbosError m c w d s q dd si en rn mr src) =
     DbosError m c w (Some i) s q dd si en rn mr src"

primrec set_step_name :: "string \<Rightarrow> dbos_error \<Rightarrow> dbos_error" where
  "set_step_name n (DbosError m c w d s q dd si en rn mr src) =
     DbosError m c w d (Some n) q dd si en rn mr src"

primrec set_queue :: "string \<Rightarrow> string \<Rightarrow> dbos_error \<Rightarrow> dbos_error" where
  "set_queue qn di (DbosError m c w d s q dd si en rn mr src) =
     DbosError m c w d s (Some qn) (Some di) si en rn mr src"

primrec set_step_mismatch :: "int \<Rightarrow> string \<Rightarrow> string \<Rightarrow> dbos_error \<Rightarrow> dbos_error" where
  "set_step_mismatch i x r (DbosError m c w d s q dd si en rn mr src) =
     DbosError m c w d s q dd (Some i) (Some x) (Some r) mr src"

primrec set_max_retries :: "int \<Rightarrow> dbos_error \<Rightarrow> dbos_error" where
  "set_max_retries n (DbosError m c w d s q dd si en rn mr src) =
     DbosError m c w d s q dd si en rn (Some n) src"

lemma err_code_setters [simp]:
  "err_code (with_source e x) = err_code e"
  "err_code (set_workflow_id i e) = err_code e"
  "err_code (set_destination_id i e) = err_code e"
  "err_code (set_step_name n e) = err_code e"
  "err_code (set_queue q d e) = err_code e"
  "err_code (set_step_mismatch k a b e) = err_code e"
  "err_code (set_max_retries m e) = err_code e"
  "err_code (error_new c t) = c"
  by (cases e, simp)+ (simp add: error_new_def)

lemma err_source_setters [simp]:
  "err_source (with_source e x) = Some x"
  "err_source (set_workflow_id i e) = err_source e"
  "err_source (set_destination_id i e) = err_source e"
  "err_source (set_step_name n e) = err_source e"
  "err_source (set_queue q d e) = err_source e"
  "err_source (set_step_mismatch k a b e) = err_source e"
  "err_source (set_max_retries m e) = err_source e"
  "err_source (error_new c t) = None"
  by (cases e, simp)+ (simp add: error_new_def)

lemma err_message_setters [simp]:
  "err_message (with_source e x) = err_message e"
  "err_message (set_workflow_id i e) = err_message e"
  "err_message (set_destination_id i e) = err_message e"
  "err_message (set_step_name n e) = err_message e"
  "err_message (set_queue q d e) = err_message e"
  "err_message (set_step_mismatch k a b e) = err_message e"
  "err_message (set_max_retries m e) = err_message e"
  "err_message (error_new c t) = t"
  by (cases e, simp)+ (simp add: error_new_def)

subsection \<open>Text, category search\<close>

definition error_display :: "dbos_error \<Rightarrow> string" where
  "error_display e = ''DBOS Error '' @ code_display (err_code e) @ '': '' @ err_message e"

primrec source_display :: "err_source \<Rightarrow> string" where
  "source_display (SrcDbos e) = error_display e"
| "source_display (SrcSqlx e) = sqlx_text e"
| "source_display (SrcPortable e) = pe_message e"
| "source_display (SrcOther t _) = t"

text \<open>
  The chain of sources of an error, outermost first, as \<open>Error::source\<close> walks it.  The wrapped
  errors of \<open>sqlx\<close> and of a portable error are of none of the crate's types, so the walk can
  stop there.
\<close>

fun source_chain :: "dbos_error \<Rightarrow> err_source list"
and chain_from :: "err_source \<Rightarrow> err_source list" where
  "source_chain (DbosError m c w d s q dd si en rn mr src) =
     (case src of None \<Rightarrow> [] | Some x \<Rightarrow> chain_from x)"
| "chain_from (SrcDbos e) = SrcDbos e # source_chain e"
| "chain_from (SrcSqlx e) = [SrcSqlx e]"
| "chain_from (SrcPortable e) = [SrcPortable e]"
| "chain_from (SrcOther t nxt) =
     SrcOther t nxt # (case nxt of None \<Rightarrow> [] | Some x \<Rightarrow> chain_from x)"

lemma source_chain_unfold:
  "source_chain e = (case err_source e of None \<Rightarrow> [] | Some x \<Rightarrow> chain_from x)"
  by (cases e) simp

declare source_chain.simps [simp del]

definition is_code :: "dbos_error \<Rightarrow> dbos_error_code \<Rightarrow> bool" where
  "is_code e code \<longleftrightarrow>
     err_code e = code
     \<or> list_ex (\<lambda>s. case s of SrcDbos d \<Rightarrow> err_code d = code | _ \<Rightarrow> False) (source_chain e)"

definition error_eq :: "dbos_error \<Rightarrow> dbos_error \<Rightarrow> bool" where
  "error_eq a b \<longleftrightarrow> err_code a = err_code b"

lemma is_code_self: "is_code e (err_code e)"
  by (simp add: is_code_def)

lemma is_code_no_source: "err_source e = None \<Longrightarrow> is_code e c \<longleftrightarrow> err_code e = c"
  by (simp add: is_code_def source_chain_unfold)

lemma is_code_wrapped:
  "err_source e = Some (SrcDbos d) \<Longrightarrow> is_code e c \<longleftrightarrow> err_code e = c \<or> is_code d c"
  by (auto simp: is_code_def source_chain_unfold [of e])

subsection \<open>Constructors\<close>

definition initialization :: "string \<Rightarrow> dbos_error" where
  "initialization message =
     error_new Initialization (''Error initializing DBOS Transact: '' @ message)"

definition non_existent_workflow :: "string \<Rightarrow> dbos_error" where
  "non_existent_workflow i =
     set_destination_id i
       (error_new NonExistentWorkflow (''workflow '' @ i @ '' does not exist''))"

definition conflicting_workflow :: "string \<Rightarrow> string \<Rightarrow> dbos_error" where
  "conflicting_workflow i extra =
     set_workflow_id i
       (error_new ConflictingWorkflow
          (''Conflicting workflow invocation with the same ID ('' @ i @ '')''
           @ (if extra \<noteq> [] then '': '' @ extra else [])))"

definition workflow_conflict_id :: "string \<Rightarrow> dbos_error" where
  "workflow_conflict_id i =
     set_workflow_id i (error_new ConflictingId (''Conflicting workflow ID '' @ i))"

definition conflicting_registration :: "string \<Rightarrow> dbos_error" where
  "conflicting_registration name =
     error_new ConflictingRegistration (name @ '' is already registered'')"

definition unexpected_step :: "string \<Rightarrow> int \<Rightarrow> string \<Rightarrow> string \<Rightarrow> dbos_error" where
  "unexpected_step i step_id expected recorded =
     set_workflow_id i (set_step_mismatch step_id expected recorded
       (error_new UnexpectedStep
          (''During execution of workflow '' @ i @ '' step '' @ show_int step_id
           @ '', function '' @ recorded @ '' was recorded when '' @ expected
           @ '' was expected. Check that your workflow is deterministic.'')))"

definition awaited_workflow_cancelled :: "string \<Rightarrow> dbos_error" where
  "awaited_workflow_cancelled i =
     set_workflow_id i
       (error_new AwaitedWorkflowCancelled (''Awaited workflow '' @ i @ '' was cancelled''))"

definition awaited_workflow_max_step_retries :: "string \<Rightarrow> dbos_error" where
  "awaited_workflow_max_step_retries i =
     set_workflow_id i
       (error_new MaxStepRetriesExceeded
          (''Awaited workflow '' @ i @ '' has exceeded the maximum number of step retries''))"

definition workflow_cancelled :: "string \<Rightarrow> dbos_error" where
  "workflow_cancelled i = error_new WorkflowCancelled (''Workflow '' @ i @ '' was cancelled'')"

definition workflow_execution :: "string \<Rightarrow> err_source \<Rightarrow> dbos_error" where
  "workflow_execution i err =
     with_source (set_workflow_id i
       (error_new WorkflowExecution
          (''Workflow '' @ i @ '' execution error: '' @ source_display err))) err"

definition step_execution :: "string \<Rightarrow> string \<Rightarrow> err_source \<Rightarrow> dbos_error" where
  "step_execution i name err =
     with_source (set_step_name name (set_workflow_id i
       (error_new StepExecution
          (''Step '' @ name @ '' in workflow '' @ i @ '' execution error: ''
           @ source_display err)))) err"

definition step_execution_dbos :: "string \<Rightarrow> string \<Rightarrow> dbos_error \<Rightarrow> dbos_error" where
  "step_execution_dbos i name err =
     with_source (set_step_name name (set_workflow_id i
       (error_new StepExecution
          (''Step '' @ name @ '' in workflow '' @ i @ '' execution error: ''
           @ error_display err)))) (SrcDbos err)"

definition dead_letter_queue :: "string \<Rightarrow> int \<Rightarrow> dbos_error" where
  "dead_letter_queue i max_retries =
     set_max_retries max_retries (set_workflow_id i
       (error_new DeadLetterQueue
          (''Workflow '' @ i
           @ '' has been moved to the dead-letter queue after exceeding the maximum of ''
           @ show_int max_retries @ '' retries'')))"

definition max_step_retries_exceeded ::
  "string \<Rightarrow> string \<Rightarrow> int \<Rightarrow> err_source \<Rightarrow> dbos_error" where
  "max_step_retries_exceeded i name max_retries err =
     with_source (set_max_retries max_retries (set_step_name name (set_workflow_id i
       (error_new MaxStepRetriesExceeded
          (''Step '' @ name @ '' has exceeded its maximum of '' @ show_int max_retries
           @ '' retries: '' @ source_display err))))) err"

definition queue_deduplicated :: "string \<Rightarrow> string \<Rightarrow> string \<Rightarrow> dbos_error" where
  "queue_deduplicated i queue dedup =
     set_queue queue dedup (set_workflow_id i
       (error_new QueueDeduplicated
          (''Workflow '' @ i @ '' was deduplicated due to an existing workflow in queue ''
           @ queue @ '' with deduplication ID '' @ dedup)))"

definition timeout_error :: "string \<Rightarrow> string \<Rightarrow> string \<Rightarrow> dbos_error" where
  "timeout_error i name extra =
     (let msg = (if name = [] then ''Operation timed out'' else ''Step '' @ name @ '' timed out'')
            @ (if i \<noteq> [] then '' in workflow '' @ i else [])
            @ (if extra \<noteq> [] then '': '' @ extra else []);
          e = error_new Timeout msg;
          e = (if i \<noteq> [] then set_workflow_id i e else e)
      in (if name \<noteq> [] then set_step_name name e else e))"

definition workflow_unexpected_result_type :: "string \<Rightarrow> string \<Rightarrow> string \<Rightarrow> dbos_error" where
  "workflow_unexpected_result_type i expected actual =
     set_workflow_id i
       (error_new WorkflowUnexpectedType
          (''Workflow '' @ i @ '' returned unexpected result type: expected '' @ expected
           @ '', got '' @ actual))"

definition workflow_unexpected_input_type :: "string \<Rightarrow> string \<Rightarrow> string \<Rightarrow> dbos_error" where
  "workflow_unexpected_input_type name expected actual =
     error_new WorkflowUnexpectedType
       (''Workflow '' @ name @ '' received unexpected input type: expected '' @ expected
        @ '', got '' @ actual)"

definition patching_not_enabled :: dbos_error where
  "patching_not_enabled =
     error_new PatchingNotEnabled
       (''Patching system is not enabled. Set EnablePatching to true in the DBOS context ''
        @ ''configuration to use Patch and DeprecatePatch'')"

definition no_application_versions :: dbos_error where
  "no_application_versions =
     error_new NoApplicationVersions ''No application versions are registered''"

definition sql_err :: "string \<Rightarrow> sqlx_error \<Rightarrow> dbos_error" where
  "sql_err ctx e =
     with_source (error_new WorkflowExecution (ctx @ '': '' @ sqlx_text e)) (SrcSqlx e)"

lemma constructor_codes [simp]:
  "err_code (initialization m) = Initialization"
  "err_code (non_existent_workflow i) = NonExistentWorkflow"
  "err_code (conflicting_workflow i m) = ConflictingWorkflow"
  "err_code (workflow_conflict_id i) = ConflictingId"
  "err_code (conflicting_registration i) = ConflictingRegistration"
  "err_code (unexpected_step i k a b) = UnexpectedStep"
  "err_code (awaited_workflow_cancelled i) = AwaitedWorkflowCancelled"
  "err_code (workflow_cancelled i) = WorkflowCancelled"
  "err_code (workflow_execution i x) = WorkflowExecution"
  "err_code (step_execution i n x) = StepExecution"
  "err_code (step_execution_dbos i n e) = StepExecution"
  "err_code (dead_letter_queue i mr) = DeadLetterQueue"
  "err_code (max_step_retries_exceeded i n mr x) = MaxStepRetriesExceeded"
  "err_code (queue_deduplicated i q d) = QueueDeduplicated"
  "err_code (timeout_error i n m) = Timeout"
  "err_code no_application_versions = NoApplicationVersions"
  "err_code (sql_err c sx) = WorkflowExecution"
  by (simp_all add: initialization_def non_existent_workflow_def conflicting_workflow_def
      workflow_conflict_id_def conflicting_registration_def unexpected_step_def
      awaited_workflow_cancelled_def workflow_cancelled_def workflow_execution_def
      step_execution_def step_execution_dbos_def dead_letter_queue_def
      max_step_retries_exceeded_def queue_deduplicated_def timeout_error_def
      no_application_versions_def sql_err_def Let_def)

lemma constructor_sources [simp]:
  "err_source (workflow_conflict_id i) = None"
  "err_source (non_existent_workflow i) = None"
  "err_source (workflow_cancelled i) = None"
  "err_source (unexpected_step i k a b) = None"
  "err_source (queue_deduplicated i q d) = None"
  "err_source (dead_letter_queue i mr) = None"
  "err_source (conflicting_workflow i m) = None"
  "err_source (timeout_error i n m) = None"
  "err_source (initialization m) = None"
  "err_source (sql_err c sx) = Some (SrcSqlx sx)"
  "err_source (step_execution i n x) = Some x"
  "err_source (step_execution_dbos i n e) = Some (SrcDbos e)"
  by (simp_all add: initialization_def non_existent_workflow_def conflicting_workflow_def
      workflow_conflict_id_def unexpected_step_def workflow_cancelled_def
      step_execution_def step_execution_dbos_def dead_letter_queue_def
      queue_deduplicated_def timeout_error_def sql_err_def Let_def)

lemma is_code_sql_err [simp]: "is_code (sql_err c x) k \<longleftrightarrow> k = WorkflowExecution"
  by (auto simp: is_code_def source_chain_unfold)

lemma is_code_plain [simp]:
  "is_code (workflow_conflict_id i) k \<longleftrightarrow> k = ConflictingId"
  "is_code (non_existent_workflow i) k \<longleftrightarrow> k = NonExistentWorkflow"
  "is_code (workflow_cancelled i) k \<longleftrightarrow> k = WorkflowCancelled"
  "is_code (unexpected_step i n a b) k \<longleftrightarrow> k = UnexpectedStep"
  "is_code (queue_deduplicated i q d) k \<longleftrightarrow> k = QueueDeduplicated"
  "is_code (dead_letter_queue i m) k \<longleftrightarrow> k = DeadLetterQueue"
  by (auto simp: is_code_no_source)

text \<open>
  Wrapping a step's error keeps its category findable: a step error around a cancellation is
  both a step error and a cancellation.
\<close>

lemma is_code_step_execution_dbos:
  "is_code (step_execution_dbos i n e) k \<longleftrightarrow> k = StepExecution \<or> is_code e k"
  by (auto simp: is_code_wrapped [of _ e])

end
