(* ===== verification/Store.thy ===== *)
theory Store
  imports Errors
begin

text \<open>
  The data of the system database: the workflow states of \<open>db/mod.rs\<close>, the rows of the tables
  of \<open>migrations/0001_initial_schema.sql\<close> with the columns the engine reads or writes, the
  inputs and results of \<open>SystemDatabase\<close>, and the schema's constraints as an invariant.  A
  nullable column is an option, except where every INSERT of the source binds a value; the
  columns \<open>request\<close> and \<open>attributes\<close> and the tables \<open>queues\<close> and \<open>event_dispatch_kv\<close> are never
  touched and left out.
\<close>

subsection \<open>Workflow states\<close>

datatype workflow_status_type =
    Pending
  | Enqueued
  | Delayed
  | Success
  | Error
  | Cancelled
  | MaxRecoveryAttemptsExceeded

primrec as_str :: "workflow_status_type \<Rightarrow> string" where
  "as_str Pending = ''PENDING''"
| "as_str Enqueued = ''ENQUEUED''"
| "as_str Delayed = ''DELAYED''"
| "as_str Success = ''SUCCESS''"
| "as_str Error = ''ERROR''"
| "as_str Cancelled = ''CANCELLED''"
| "as_str MaxRecoveryAttemptsExceeded = ''MAX_RECOVERY_ATTEMPTS_EXCEEDED''"

definition parse_status :: "string \<Rightarrow> workflow_status_type option" where
  "parse_status s =
     (if s = ''PENDING'' then Some Pending
      else if s = ''ENQUEUED'' then Some Enqueued
      else if s = ''DELAYED'' then Some Delayed
      else if s = ''SUCCESS'' then Some Success
      else if s = ''ERROR'' then Some Error
      else if s = ''CANCELLED'' then Some Cancelled
      else if s = ''MAX_RECOVERY_ATTEMPTS_EXCEEDED'' then Some MaxRecoveryAttemptsExceeded
      else None)"

definition is_terminal :: "workflow_status_type \<Rightarrow> bool" where
  "is_terminal s \<longleftrightarrow> s \<in> {Success, Error, Cancelled}"

lemma is_terminal_simps [simp]:
  "is_terminal Success" "is_terminal Error" "is_terminal Cancelled"
  "\<not> is_terminal Pending" "\<not> is_terminal Enqueued" "\<not> is_terminal Delayed"
  "\<not> is_terminal MaxRecoveryAttemptsExceeded"
  by (simp_all add: is_terminal_def)

lemma parse_as_str: "parse_status (as_str s) = Some s"
  by (cases s) (simp_all add: parse_status_def)

lemma parse_status_Some: "parse_status t = Some s \<Longrightarrow> t = as_str s"
  by (auto simp: parse_status_def split: if_splits)

subsection \<open>Rows\<close>

record ws_row =
  ws_uuid :: string
  ws_status :: workflow_status_type
  ws_name :: string
  ws_authenticated_user :: string
  ws_assumed_role :: string
  ws_authenticated_roles :: "string list"
  ws_output :: "string option"
  ws_error :: "string option"
  ws_executor_id :: "string option"
  ws_created_at :: int
  ws_updated_at :: int
  ws_application_version :: "string option"
  ws_application_id :: string
  ws_class_name :: "string option"
  ws_config_name :: "string option"
  ws_recovery_attempts :: int
  ws_queue_name :: "string option"
  ws_timeout_ms :: "int option"
  ws_deadline_ms :: "int option"
  ws_inputs :: "string option"
  ws_started_at :: "int option"
  ws_dedup_id :: "string option"
  ws_priority :: int
  ws_partition_key :: "string option"
  ws_forked_from :: "string option"
  ws_owner_xid :: "string option"
  ws_parent_id :: "string option"
  ws_serialization :: string
  ws_delay_until :: "int option"
  ws_was_forked_from :: bool
  ws_rate_limited :: bool
  ws_completed_at :: "int option"

record op_row =
  op_workflow :: string
  op_function_id :: int
  op_function_name :: string
  op_output :: "string option"
  op_error :: "string option"
  op_child :: "string option"
  op_started_at :: "int option"
  op_completed_at :: "int option"
  op_serialization :: "string option"

record nt_row =
  nt_uuid :: string
  nt_destination :: string
  nt_topic :: string
  nt_message :: string
  nt_created_at :: int
  nt_serialization :: string
  nt_consumed :: bool

record ev_row =
  ev_workflow :: string
  ev_key :: string
  ev_value :: string
  ev_serialization :: string

record eh_row =
  eh_workflow :: string
  eh_function_id :: int
  eh_key :: string
  eh_value :: string
  eh_serialization :: string

record st_row =
  st_workflow :: string
  st_key :: string
  st_value :: string
  st_offset :: int
  st_function_id :: int
  st_serialization :: string

record av_row =
  av_id :: string
  av_name :: string
  av_timestamp :: int
  av_created_at :: int

record schedule_row =
  sr_id :: string
  sr_name :: string
  sr_workflow_name :: string
  sr_workflow_class_name :: "string option"
  sr_schedule :: string
  sr_status :: string
  sr_context :: string
  sr_last_fired_at :: "string option"
  sr_automatic_backfill :: bool
  sr_cron_timezone :: "string option"
  sr_queue_name :: "string option"

text \<open>
  The database.  \<open>db_code\<close> and \<open>db_text\<close> are the result code and the text the engine (SQLite or
  Postgres) gives for a violated constraint of each kind; no operation changes them.
\<close>

record sysdb =
  workflow_status :: "ws_row list"
  operation_outputs :: "op_row list"
  notifications :: "nt_row list"
  workflow_events :: "ev_row list"
  workflow_events_history :: "eh_row list"
  streams :: "st_row list"
  workflow_schedules :: "schedule_row list"
  application_versions :: "av_row list"
  db_code :: "db_kind \<Rightarrow> string option"
  db_text :: "db_kind \<Rightarrow> string"

definition empty_db :: sysdb where
  "empty_db =
     \<lparr>workflow_status = [], operation_outputs = [], notifications = [], workflow_events = [],
      workflow_events_history = [], streams = [], workflow_schedules = [],
      application_versions = [], db_code = (\<lambda>_. None), db_text = (\<lambda>_. [])\<rparr>"

definition violation :: "sysdb \<Rightarrow> db_kind \<Rightarrow> sqlx_error" where
  "violation db k = SqlxError (Database (db_code db k) k) (db_text db k)"

lemma violation_kind [simp]:
  "is_unique_violation (violation db k) \<longleftrightarrow> k = UniqueViolation"
  "is_foreign_key_violation (violation db k) \<longleftrightarrow> k = ForeignKeyViolation"
  by (simp_all add: violation_def is_unique_violation_def is_foreign_key_violation_def)

text \<open>Row lookup by primary key, and the operations keyed by \<open>(workflow_uuid, function_id)\<close>.\<close>

abbreviation wf_row :: "sysdb \<Rightarrow> string \<Rightarrow> ws_row option" where
  "wf_row db i \<equiv> fetch ws_uuid i (workflow_status db)"

abbreviation wf_exists :: "sysdb \<Rightarrow> string \<Rightarrow> bool" where
  "wf_exists db i \<equiv> wf_row db i \<noteq> None"

abbreviation op_key :: "op_row \<Rightarrow> string \<times> int" where
  "op_key r \<equiv> (op_workflow r, op_function_id r)"

abbreviation op_of :: "sysdb \<Rightarrow> string \<Rightarrow> int \<Rightarrow> op_row option" where
  "op_of db i k \<equiv> fetch op_key (i, k) (operation_outputs db)"

abbreviation ev_pk :: "ev_row \<Rightarrow> string \<times> string" where
  "ev_pk r \<equiv> (ev_workflow r, ev_key r)"

abbreviation eh_pk :: "eh_row \<Rightarrow> string \<times> int \<times> string" where
  "eh_pk r \<equiv> (eh_workflow r, eh_function_id r, eh_key r)"

abbreviation st_pk :: "st_row \<Rightarrow> string \<times> string \<times> int" where
  "st_pk r \<equiv> (st_workflow r, st_key r, st_offset r)"

subsection \<open>Inputs and results of the operations\<close>

record new_workflow_status =
  nw_id :: string
  nw_status :: "workflow_status_type option"
  nw_name :: string
  nw_class_name :: string
  nw_config_name :: "string option"
  nw_application_version :: string
  nw_application_id :: string
  nw_executor_id :: string
  nw_created_at_ms :: int
  nw_updated_at_ms :: "int option"
  nw_deadline_ms :: "int option"
  nw_timeout_ms :: "int option"
  nw_input :: "string option"
  nw_queue_name :: string
  nw_deduplication_id :: string
  nw_priority :: int
  nw_authenticated_user :: string
  nw_assumed_role :: string
  nw_authenticated_roles :: "string list"
  nw_queue_partition_key :: string
  nw_parent_workflow_id :: string
  nw_delay_until_ms :: "int option"
  nw_serialization :: string

record child_record =
  cr_parent :: string
  cr_step_id :: int
  cr_step_name :: string
  cr_child :: string

record insert_input =
  in_status :: new_workflow_status
  in_max_retries :: int
  in_owner_xid :: string
  in_increment_attempts :: bool
  in_record_child :: "child_record option"

record insert_result =
  ir_attempts :: int
  ir_status :: workflow_status_type
  ir_name :: string
  ir_queue_name :: "string option"
  ir_queue_partition_key :: "string option"
  ir_timeout_ms :: "int option"
  ir_deadline_ms :: "int option"
  ir_owner_xid :: string

record record_input =
  ri_workflow_id :: string
  ri_step_id :: int
  ri_step_name :: string
  ri_output :: "string option"
  ri_error :: "string option"
  ri_child :: "string option"
  ri_started_at_ms :: int
  ri_completed_at_ms :: int
  ri_serialization :: string

record recorded_result =
  rr_output :: "string option"
  rr_error :: "string option"
  rr_serialization :: string

record step_info =
  si_step_id :: int
  si_step_name :: string
  si_output :: "string option"
  si_error :: "string option"
  si_child :: "string option"
  si_started_at_ms :: "int option"
  si_completed_at_ms :: "int option"
  si_serialization :: string

record fork_input =
  fk_original :: string
  fk_forked :: "string option"
  fk_start_step :: int
  fk_application_version :: "string option"
  fk_queue_name :: "string option"

record await_result =
  aw_output :: "string option"
  aw_error :: "string option"
  aw_serialization :: string

record dequeued_workflow =
  dw_id :: string
  dw_name :: string
  dw_input :: "string option"
  dw_serialization :: string
  dw_config_name :: "string option"

record list_input =
  li_workflow_ids :: "string list"
  li_workflow_name :: "string list"
  li_status :: "workflow_status_type list"
  li_executor_ids :: "string list"
  li_application_version :: "string list"
  li_queues_only :: bool
  li_limit :: "int option"
  li_offset :: "int option"
  li_sort_desc :: bool
  li_load_input :: bool
  li_load_output :: bool

record workflow_status_view =
  wv_id :: string
  wv_status :: workflow_status_type
  wv_name :: string
  wv_authenticated_user :: string
  wv_assumed_role :: string
  wv_authenticated_roles :: "string list"
  wv_output :: "string option"
  wv_error :: "string option"
  wv_executor_id :: string
  wv_created_at_ms :: int
  wv_updated_at_ms :: int
  wv_application_version :: string
  wv_application_id :: string
  wv_attempts :: int
  wv_queue_name :: string
  wv_timeout_ms :: int
  wv_deadline_ms :: "int option"
  wv_started_at_ms :: "int option"
  wv_deduplication_id :: string
  wv_input :: "string option"
  wv_priority :: int
  wv_queue_partition_key :: string
  wv_forked_from :: string
  wv_was_forked_from :: bool
  wv_parent_workflow_id :: string
  wv_completed_at_ms :: "int option"
  wv_class_name :: string
  wv_config_name :: "string option"
  wv_serialization :: string
  wv_delay_until_ms :: "int option"

subsection \<open>The schema's constraints\<close>

text \<open>
  The unique index \<open>uq_workflow_status_dedup_id\<close> on \<open>(queue_name, deduplication_id)\<close> holds the
  rows whose deduplication id is not NULL; a NULL queue name is distinct from every other.
\<close>

definition dedup_slot :: "ws_row \<Rightarrow> (string \<times> string) option" where
  "dedup_slot r =
     (case (ws_queue_name r, ws_dedup_id r) of (Some q, Some d) \<Rightarrow> Some (q, d) | _ \<Rightarrow> None)"

definition dedup_unique :: "ws_row list \<Rightarrow> bool" where
  "dedup_unique rows \<longleftrightarrow>
     (\<forall>r\<in>set rows. \<forall>r'\<in>set rows.
        dedup_slot r = dedup_slot r' \<and> dedup_slot r \<noteq> None \<longrightarrow> ws_uuid r = ws_uuid r')"

definition keys_ok :: "sysdb \<Rightarrow> bool" where
  "keys_ok db \<longleftrightarrow>
     distinct (map ws_uuid (workflow_status db))
     \<and> dedup_unique (workflow_status db)
     \<and> distinct (map op_key (operation_outputs db))
     \<and> distinct (map nt_uuid (notifications db))
     \<and> distinct (map ev_pk (workflow_events db))
     \<and> distinct (map eh_pk (workflow_events_history db))
     \<and> distinct (map st_pk (streams db))
     \<and> distinct (map sr_name (workflow_schedules db))
     \<and> distinct (map sr_id (workflow_schedules db))
     \<and> distinct (map av_name (application_versions db))"

text \<open>The foreign keys: every dependent row belongs to an existing workflow.\<close>

definition refs_ok :: "sysdb \<Rightarrow> bool" where
  "refs_ok db \<longleftrightarrow>
     op_workflow ` set (operation_outputs db) \<subseteq> ws_uuid ` set (workflow_status db)
     \<and> nt_destination ` set (notifications db) \<subseteq> ws_uuid ` set (workflow_status db)
     \<and> ev_workflow ` set (workflow_events db) \<subseteq> ws_uuid ` set (workflow_status db)
     \<and> eh_workflow ` set (workflow_events_history db) \<subseteq> ws_uuid ` set (workflow_status db)
     \<and> st_workflow ` set (streams db) \<subseteq> ws_uuid ` set (workflow_status db)"

definition schema_ok :: "sysdb \<Rightarrow> bool" where
  "schema_ok db \<longleftrightarrow> keys_ok db \<and> refs_ok db"

lemmas schema_defs = schema_ok_def keys_ok_def refs_ok_def

lemma schema_ok_empty: "schema_ok empty_db"
  by (simp add: schema_defs empty_db_def dedup_unique_def)

lemma schema_ok_distinct_ws: "schema_ok db \<Longrightarrow> distinct (map ws_uuid (workflow_status db))"
  by (simp add: schema_defs)

lemma wf_exists_iff: "wf_exists db i \<longleftrightarrow> i \<in> ws_uuid ` set (workflow_status db)"
  by (rule fetch_not_None_iff)

lemma wf_row_uuid: "wf_row db i = Some r \<Longrightarrow> ws_uuid r = i \<and> r \<in> set (workflow_status db)"
  by (auto dest: fetch_SomeD)

text \<open>
  An UPDATE that keeps the primary key, and keeps or frees the deduplication slot, keeps the
  schema: the lemma every status-changing operation uses.
\<close>

lemma dedup_unique_update:
  assumes "dedup_unique rows" and u: "\<And>r. ws_uuid (f r) = ws_uuid r"
    and s: "\<And>r. dedup_slot (f r) = None \<or> dedup_slot (f r) = dedup_slot r"
  shows "dedup_unique (update_where P f rows)"
  unfolding dedup_unique_def set_update_where
proof (intro ballI impI)
  fix a b
  assume a: "a \<in> (\<lambda>r. if P r then f r else r) ` set rows"
    and b: "b \<in> (\<lambda>r. if P r then f r else r) ` set rows"
    and ab: "dedup_slot a = dedup_slot b \<and> dedup_slot a \<noteq> None"
  from a b obtain a0 b0 where a0: "a0 \<in> set rows" "a = (if P a0 then f a0 else a0)"
    and b0: "b0 \<in> set rows" "b = (if P b0 then f b0 else b0)" by blast
  from a0(2) ab s [of a0] have sa: "dedup_slot a0 = dedup_slot a" by (metis (full_types))
  from b0(2) ab s [of b0] have sb: "dedup_slot b0 = dedup_slot b" by (metis (full_types))
  from assms(1) a0(1) b0(1) ab sa sb have "ws_uuid a0 = ws_uuid b0"
    unfolding dedup_unique_def by metis
  with a0 b0 u show "ws_uuid a = ws_uuid b" by simp
qed

lemma schema_ok_update_ws:
  assumes "schema_ok db" and "\<And>r. ws_uuid (f r) = ws_uuid r"
    and "\<And>r. dedup_slot (f r) = None \<or> dedup_slot (f r) = dedup_slot r"
  shows "schema_ok (db\<lparr>workflow_status := update_where P f (workflow_status db)\<rparr>)"
  using assms dedup_unique_update [of "workflow_status db" f P]
  by (simp add: schema_defs map_key_update_where key_set_update_where)

lemma wf_exists_update_ws:
  assumes "\<And>r. ws_uuid (f r) = ws_uuid r"
  shows "wf_exists (db\<lparr>workflow_status := update_where P f (workflow_status db)\<rparr>) i \<longleftrightarrow> wf_exists db i"
  using assms by (simp add: fetch_update_where)

end
