(* ===== verification/Store_Laws.thy ===== *)
theory Store_Laws
  imports Store
begin

text \<open>
  What every operation of the system database owes the engine, stated once as locales: it keeps
  the schema, it moves the status of a workflow only along the lifecycle, it keeps the immutable
  columns of a workflow and every recorded step.  The theories of the operations interpret these
  locales; the consequences for sequences of operations are proved here.
\<close>

subsection \<open>The lifecycle of a workflow\<close>

text \<open>One move per statement of \<open>db/sqlite.rs\<close> that assigns the status of an existing row.\<close>

inductive status_move :: "workflow_status_type \<Rightarrow> workflow_status_type \<Rightarrow> bool" where
  dequeued: "status_move Enqueued Pending"
| cleared: "status_move Pending Enqueued"
| released: "status_move Delayed Enqueued"
| parked: "status_move Pending MaxRecoveryAttemptsExceeded"
| finished: "t \<in> {Success, Error} \<Longrightarrow> s \<noteq> Cancelled \<Longrightarrow> status_move s t"
| cancelled: "s \<notin> {Success, Error, Cancelled} \<Longrightarrow> status_move s Cancelled"
| resumed: "s \<notin> {Success, Error} \<Longrightarrow> status_move s Enqueued"

inductive_cases status_move_finishedE: "status_move Success t" "status_move Error t"
inductive_cases status_move_cancelledE: "status_move Cancelled t"
inductive_simps status_move_to_pending: "status_move s Pending"

abbreviation status_reach :: "workflow_status_type \<Rightarrow> workflow_status_type \<Rightarrow> bool" where
  "status_reach \<equiv> status_move\<^sup>*\<^sup>*"

lemma finished_move: "status_move s t \<Longrightarrow> s \<in> {Success, Error} \<Longrightarrow> t \<in> {Success, Error}"
  by (induction rule: status_move.induct) auto

lemma finished_reach: "status_reach s t \<Longrightarrow> s \<in> {Success, Error} \<Longrightarrow> t \<in> {Success, Error}"
  by (induction rule: rtranclp_induct) (use finished_move in blast)+

lemma cancelled_move: "status_move Cancelled t \<Longrightarrow> t = Enqueued"
  by (auto elim: status_move_cancelledE)

text \<open>A cancelled workflow that has another status now was resumed in between.\<close>

lemma cancelled_reach:
  assumes "status_reach Cancelled t" and "t \<noteq> Cancelled"
  shows "status_reach Enqueued t"
  using assms(1)
  by (cases rule: converse_rtranclpE) (use assms(2) cancelled_move in auto)

definition row_evolves :: "ws_row \<Rightarrow> ws_row \<Rightarrow> bool" where
  "row_evolves r r' \<longleftrightarrow>
     ws_uuid r' = ws_uuid r \<and> ws_name r' = ws_name r \<and> ws_inputs r' = ws_inputs r
     \<and> ws_created_at r' = ws_created_at r \<and> ws_class_name r' = ws_class_name r
     \<and> ws_config_name r' = ws_config_name r \<and> ws_serialization r' = ws_serialization r
     \<and> ws_timeout_ms r' = ws_timeout_ms r \<and> ws_priority r' = ws_priority r
     \<and> ws_parent_id r' = ws_parent_id r \<and> ws_forked_from r' = ws_forked_from r
     \<and> ws_owner_xid r' = ws_owner_xid r \<and> status_reach (ws_status r) (ws_status r')"

lemma row_evolves_refl [simp]: "row_evolves r r"
  by (simp add: row_evolves_def)

lemma row_evolves_trans: "row_evolves a b \<Longrightarrow> row_evolves b c \<Longrightarrow> row_evolves a c"
  by (auto simp: row_evolves_def)

definition evolves :: "sysdb \<Rightarrow> sysdb \<Rightarrow> bool" where
  "evolves db db' \<longleftrightarrow>
     (\<forall>i r r'. wf_row db i = Some r \<longrightarrow> wf_row db' i = Some r' \<longrightarrow> row_evolves r r')
     \<and> (\<forall>i k r. wf_exists db i \<longrightarrow> wf_exists db' i \<longrightarrow> op_of db i k = Some r \<longrightarrow>
           op_of db' i k = Some r)"

lemma evolves_refl [simp]: "evolves db db"
  by (simp add: evolves_def)

lemma evolves_row:
  "evolves db db' \<Longrightarrow> wf_row db i = Some r \<Longrightarrow> wf_row db' i = Some r' \<Longrightarrow> row_evolves r r'"
  by (simp add: evolves_def)

lemma evolves_op:
  "evolves db db' \<Longrightarrow> wf_exists db i \<Longrightarrow> wf_exists db' i \<Longrightarrow> op_of db i k = Some r \<Longrightarrow>
   op_of db' i k = Some r"
  by (auto simp: evolves_def)

text \<open>Composition, when the first step loses no workflow.\<close>

definition keeps_workflows :: "sysdb \<Rightarrow> sysdb \<Rightarrow> bool" where
  "keeps_workflows db db' \<longleftrightarrow> (\<forall>i. wf_exists db i \<longrightarrow> wf_exists db' i)"

lemma keeps_workflows_refl [simp]: "keeps_workflows db db"
  by (simp add: keeps_workflows_def)

lemma keeps_workflows_trans:
  "keeps_workflows a b \<Longrightarrow> keeps_workflows b c \<Longrightarrow> keeps_workflows a c"
  by (simp add: keeps_workflows_def)

lemma evolves_trans:
  assumes "evolves a b" "keeps_workflows a b" "evolves b c" "keeps_workflows b c"
  shows "evolves a c"
  unfolding evolves_def
proof (intro conjI allI impI)
  fix i r r'
  assume r: "wf_row a i = Some r" "wf_row c i = Some r'"
  with assms(2) obtain m where m: "wf_row b i = Some m" by (fastforce simp: keeps_workflows_def)
  with r assms(1,3) show "row_evolves r r'" by (meson evolves_row row_evolves_trans)
next
  fix i k r
  assume e: "wf_exists a i" "wf_exists c i" "op_of a i k = Some r"
  with assms(2) have b: "wf_exists b i" by (simp add: keeps_workflows_def)
  from assms(1) e(1) b e(3) have "op_of b i k = Some r" by (rule evolves_op)
  with assms(3) b e(2) show "op_of c i k = Some r" by (blast intro: evolves_op)
qed

text \<open>An UPDATE of \<open>workflow_status\<close>, and an INSERT of a new row.\<close>

lemma evolves_update_ws:
  assumes "\<And>r. ws_uuid (f r) = ws_uuid r" and "\<And>r. P r \<Longrightarrow> row_evolves r (f r)"
  shows "evolves db (db\<lparr>workflow_status := update_where P f (workflow_status db)\<rparr>)"
  using assms by (auto simp: evolves_def fetch_update_where)

lemma keeps_update_ws:
  assumes "\<And>r. ws_uuid (f r) = ws_uuid r"
  shows "keeps_workflows db (db\<lparr>workflow_status := update_where P f (workflow_status db)\<rparr>)"
  using assms by (auto simp: keeps_workflows_def fetch_update_where)

text \<open>The unique index on \<open>(queue_name, deduplication_id)\<close> refuses a row whose slot is held.\<close>

definition dedup_taken :: "ws_row \<Rightarrow> ws_row list \<Rightarrow> bool" where
  "dedup_taken n rows \<longleftrightarrow>
     dedup_slot n \<noteq> None \<and> list_ex (\<lambda>r. dedup_slot r = dedup_slot n) rows"

lemma not_dedup_taken:
  "\<not> dedup_taken n rows \<Longrightarrow> r \<in> set rows \<Longrightarrow> dedup_slot n \<noteq> None \<Longrightarrow> dedup_slot r \<noteq> dedup_slot n"
  by (auto simp: dedup_taken_def list_ex_iff)

lemma dedup_unique_insert:
  assumes "dedup_unique rows" "\<not> dedup_taken n rows"
  shows "dedup_unique (rows @ [n])"
  unfolding dedup_unique_def
proof (intro ballI impI)
  fix a b
  assume ab: "a \<in> set (rows @ [n])" "b \<in> set (rows @ [n])"
    "dedup_slot a = dedup_slot b \<and> dedup_slot a \<noteq> None"
  then consider "a \<in> set rows" "b \<in> set rows" | "a = n" "b = n" | "a = n" "b \<in> set rows"
    | "a \<in> set rows" "b = n" by auto
  then show "ws_uuid a = ws_uuid b"
  proof cases
    case 1
    with assms(1) ab(3) show ?thesis unfolding dedup_unique_def by metis
  qed (use ab(3) not_dedup_taken [OF assms(2)] in metis)+
qed

lemma schema_ok_insert_ws:
  assumes "schema_ok db" "wf_row db (ws_uuid n) = None" "\<not> dedup_taken n (workflow_status db)"
  shows "schema_ok (db\<lparr>workflow_status := workflow_status db @ [n]\<rparr>)"
proof -
  have "dedup_unique (workflow_status db @ [n])"
    using assms(1,3) dedup_unique_insert by (simp add: schema_defs)
  moreover have "ws_uuid n \<notin> ws_uuid ` set (workflow_status db)"
    using assms(2) fetch_not_None_iff by metis
  ultimately show ?thesis
    using assms(1) by (auto simp: schema_defs)
qed

lemma evolves_insert_ws:
  "wf_row db (ws_uuid n) = None \<Longrightarrow>
   evolves db (db\<lparr>workflow_status := workflow_status db @ [n]\<rparr>)"
  by (auto simp: evolves_def fetch_append)

lemma keeps_insert_ws: "keeps_workflows db (db\<lparr>workflow_status := workflow_status db @ [n]\<rparr>)"
  by (auto simp: keeps_workflows_def fetch_append)

text \<open>An INSERT into \<open>operation_outputs\<close>.\<close>

lemma schema_ok_insert_op:
  assumes "schema_ok db" "wf_exists db (op_workflow n)"
    and "op_of db (op_workflow n) (op_function_id n) = None"
  shows "schema_ok (db\<lparr>operation_outputs := operation_outputs db @ [n]\<rparr>)"
proof -
  have "op_key n \<notin> op_key ` set (operation_outputs db)"
    using assms(3) fetch_not_None_iff by metis
  moreover have "op_workflow n \<in> ws_uuid ` set (workflow_status db)"
    using assms(2) wf_exists_iff by metis
  ultimately show ?thesis using assms(1) by (auto simp: schema_defs)
qed

lemma evolves_insert_op: "evolves db (db\<lparr>operation_outputs := operation_outputs db @ ns\<rparr>)"
  by (auto simp: evolves_def fetch_append)

lemma keeps_insert_op [simp]:
  "keeps_workflows db (db\<lparr>operation_outputs := ns\<rparr>)"
  by (auto simp: keeps_workflows_def)

subsection \<open>The contract of an operation\<close>

locale store_op =
  fixes step :: "sysdb \<Rightarrow> sysdb"
  assumes keeps_schema: "schema_ok db \<Longrightarrow> schema_ok (step db)"
    and evolution: "schema_ok db \<Longrightarrow> evolves db (step db)"

text \<open>An operation that deletes no workflow; it can be repeated.\<close>

locale keeping_op = store_op step for step :: "sysdb \<Rightarrow> sysdb" +
  assumes keeps: "schema_ok db \<Longrightarrow> keeps_workflows db (step db)"

context store_op
begin

lemma finished_for_good:
  assumes "schema_ok db" "wf_row db i = Some r" "wf_row (step db) i = Some r'"
    and "ws_status r \<in> {Success, Error}"
  shows "ws_status r' \<in> {Success, Error}"
  using evolves_row [OF evolution [OF assms(1)] assms(2,3)] assms(4) finished_reach
  by (auto simp: row_evolves_def)

end

context keeping_op
begin

lemma repeated:
  assumes "schema_ok db"
  shows "schema_ok ((step ^^ n) db) \<and> evolves db ((step ^^ n) db)
       \<and> keeps_workflows db ((step ^^ n) db)"
proof (induction n)
  case 0
  show ?case using assms by simp
next
  case (Suc n)
  let ?m = "(step ^^ n) db"
  from Suc have m: "schema_ok ?m" "evolves db ?m" "keeps_workflows db ?m" by auto
  from evolves_trans [OF m(2,3) evolution [OF m(1)] keeps [OF m(1)]]
    keeps_workflows_trans [OF m(3) keeps [OF m(1)]] keeps_schema [OF m(1)]
  show ?case by simp
qed

end

end
