(* ===== verification/Samples.thy ===== *)
theory Samples
  imports Store_Laws
begin

text \<open>
  Concrete rows and a small database, on which the theorems with hypotheses are instantiated.
\<close>

definition nw_default :: new_workflow_status where
  "nw_default =
     \<lparr>nw_id = [], nw_status = None, nw_name = [], nw_class_name = [], nw_config_name = None,
      nw_application_version = [], nw_application_id = [], nw_executor_id = [],
      nw_created_at_ms = 0, nw_updated_at_ms = None, nw_deadline_ms = None, nw_timeout_ms = None,
      nw_input = None, nw_queue_name = [], nw_deduplication_id = [], nw_priority = 0,
      nw_authenticated_user = [], nw_assumed_role = [], nw_authenticated_roles = [],
      nw_queue_partition_key = [], nw_parent_workflow_id = [], nw_delay_until_ms = None,
      nw_serialization = []\<rparr>"

definition sample_row :: "string \<Rightarrow> workflow_status_type \<Rightarrow> string option \<Rightarrow> ws_row" where
  "sample_row i s q =
     \<lparr>ws_uuid = i, ws_status = s, ws_name = ''charge'', ws_authenticated_user = [],
      ws_assumed_role = [], ws_authenticated_roles = [], ws_output = None, ws_error = None,
      ws_executor_id = Some ''local'', ws_created_at = 1000, ws_updated_at = 1000,
      ws_application_version = Some ''v1'', ws_application_id = [], ws_class_name = None,
      ws_config_name = None, ws_recovery_attempts = 1, ws_queue_name = q, ws_timeout_ms = None,
      ws_deadline_ms = None, ws_inputs = Some ''42'', ws_started_at = None, ws_dedup_id = None,
      ws_priority = 0, ws_partition_key = None, ws_forked_from = None, ws_owner_xid = Some ''x'',
      ws_parent_id = None, ws_serialization = ''DBOS_JSON'', ws_delay_until = None,
      ws_was_forked_from = False, ws_rate_limited = False, ws_completed_at = None\<rparr>"

text \<open>A running workflow with one recorded step, an enqueued one, and a finished one.\<close>

definition sample_step :: op_row where
  "sample_step =
     \<lparr>op_workflow = ''w1'', op_function_id = 0, op_function_name = ''fetch'',
      op_output = Some ''7'', op_error = None, op_child = None, op_started_at = Some 1001,
      op_completed_at = Some 1002, op_serialization = Some ''DBOS_JSON''\<rparr>"

definition sample_db :: sysdb where
  "sample_db =
     empty_db\<lparr>workflow_status :=
         [sample_row ''w1'' Pending None, sample_row ''w2'' Enqueued (Some ''q''),
          sample_row ''w3'' Success None],
       operation_outputs := [sample_step]\<rparr>"

definition sample_input :: insert_input where
  "sample_input =
     \<lparr>in_status = nw_default\<lparr>nw_id := ''w1'', nw_name := ''charge'', nw_executor_id := ''e2''\<rparr>,
      in_max_retries = 2, in_owner_xid = ''y'', in_increment_attempts = True,
      in_record_child = None\<rparr>"

lemmas sample_simps =
  sample_db_def sample_row_def sample_step_def sample_input_def nw_default_def empty_db_def
  fetch_Cons fetch_append dedup_slot_def

lemma sample_schema: "schema_ok sample_db"
  by (simp add: schema_defs sample_simps dedup_unique_def)

lemma sample_rows:
  "wf_row sample_db ''w1'' = Some (sample_row ''w1'' Pending None)"
  "wf_row sample_db ''w2'' = Some (sample_row ''w2'' Enqueued (Some ''q''))"
  "wf_row sample_db ''w3'' = Some (sample_row ''w3'' Success None)"
  "wf_row sample_db ''u'' = None"
  by (simp_all add: sample_simps)

end
