(* ===== verification/Store_Insert.thy ===== *)
theory Store_Insert
  imports Samples
begin

text \<open>
  \<open>insert_workflow_status\<close> and \<open>update_workflow_outcome\<close> of \<open>db/sqlite.rs\<close>: the upsert of a
  workflow row, the name and queue conflict checks, the parent-to-child record, dead-letter
  parking, and the write of a final outcome.  An operation takes the database and returns it
  with its result; an error that leaves the transaction uncommitted returns the database
  unchanged.  Each reading of the clock is an argument.
\<close>

subsection \<open>The upsert\<close>

definition initial_attempts :: "workflow_status_type \<Rightarrow> int" where
  "initial_attempts s = (if s = Enqueued \<or> s = Delayed then 0 else 1)"

definition new_ws_row :: "insert_input \<Rightarrow> workflow_status_type \<Rightarrow> int \<Rightarrow> ws_row" where
  "new_ws_row input status updated_at =
     (let s = in_status input in
      \<lparr>ws_uuid = nw_id s, ws_status = status, ws_name = nw_name s,
       ws_authenticated_user = nw_authenticated_user s, ws_assumed_role = nw_assumed_role s,
       ws_authenticated_roles = nw_authenticated_roles s, ws_output = None, ws_error = None,
       ws_executor_id = Some (nw_executor_id s), ws_created_at = nw_created_at_ms s,
       ws_updated_at = updated_at,
       ws_application_version = opt_str (nw_application_version s),
       ws_application_id = nw_application_id s,
       ws_class_name = opt_str (nw_class_name s), ws_config_name = nw_config_name s,
       ws_recovery_attempts = initial_attempts status, ws_queue_name = opt_str (nw_queue_name s),
       ws_timeout_ms = nw_timeout_ms s, ws_deadline_ms = nw_deadline_ms s,
       ws_inputs = nw_input s, ws_started_at = None,
       ws_dedup_id = opt_str (nw_deduplication_id s), ws_priority = nw_priority s,
       ws_partition_key = opt_str (nw_queue_partition_key s), ws_forked_from = None,
       ws_owner_xid = Some (in_owner_xid input), ws_parent_id = opt_str (nw_parent_workflow_id s),
       ws_serialization = nw_serialization s, ws_delay_until = nw_delay_until_ms s,
       ws_was_forked_from = False, ws_rate_limited = False, ws_completed_at = None\<rparr>)"

definition conflict_update :: "insert_input \<Rightarrow> workflow_status_type \<Rightarrow> int \<Rightarrow> ws_row \<Rightarrow> ws_row" where
  "conflict_update input status updated_at r =
     r\<lparr>ws_recovery_attempts :=
         (if status \<notin> {Enqueued, Delayed}
          then ws_recovery_attempts r + (if in_increment_attempts input then 1 else 0)
          else ws_recovery_attempts r),
       ws_updated_at := updated_at,
       ws_executor_id :=
         (if status \<in> {Enqueued, Delayed} then ws_executor_id r
          else Some (nw_executor_id (in_status input)))\<rparr>"

text \<open>
  The statement: an existing \<open>workflow_uuid\<close> takes the DO UPDATE branch; otherwise the row is
  inserted, which fails when the unique index on \<open>(queue_name, deduplication_id)\<close> holds it.
\<close>

definition upsert_status :: "insert_input \<Rightarrow> int \<Rightarrow> sysdb \<Rightarrow> dbos_error + sysdb" where
  "upsert_status input now db =
     (let s = in_status input;
          status = unwrap_or (nw_status s) Pending;
          updated_at = unwrap_or (nw_updated_at_ms s) now
      in if wf_exists db (nw_id s)
         then Inr (db\<lparr>workflow_status :=
                update_where (\<lambda>r. ws_uuid r = nw_id s) (conflict_update input status updated_at)
                  (workflow_status db)\<rparr>)
         else if dedup_taken (new_ws_row input status updated_at) (workflow_status db)
         then Inl (queue_deduplicated (nw_id s) (nw_queue_name s) (nw_deduplication_id s))
         else Inr (db\<lparr>workflow_status :=
                workflow_status db @ [new_ws_row input status updated_at]\<rparr>))"

definition insert_result_of :: "ws_row \<Rightarrow> insert_result" where
  "insert_result_of r =
     \<lparr>ir_attempts = ws_recovery_attempts r, ir_status = ws_status r, ir_name = ws_name r,
      ir_queue_name = ws_queue_name r, ir_queue_partition_key = ws_partition_key r,
      ir_timeout_ms = ws_timeout_ms r, ir_deadline_ms = ws_deadline_ms r,
      ir_owner_xid = unwrap_or_default (ws_owner_xid r)\<rparr>"

definition conflict_check :: "new_workflow_status \<Rightarrow> insert_result \<Rightarrow> dbos_error option" where
  "conflict_check s result =
     (if nw_name s \<noteq> [] \<and> ir_name result \<noteq> nw_name s
      then Some (conflicting_workflow (nw_id s)
             (''Workflow already exists with a different name: '' @ ir_name result
              @ '', but the provided name is: '' @ nw_name s))
      else if nw_queue_name s \<noteq> []
      then (case ir_queue_name result of
              None \<Rightarrow> None
            | Some q \<Rightarrow>
                if q \<noteq> nw_queue_name s
                then Some (conflicting_workflow (nw_id s)
                       (''Workflow already exists in a different queue: '' @ q
                        @ '', but the provided queue is: '' @ nw_queue_name s))
                else None)
      else None)"

definition record_child_row :: "child_record option \<Rightarrow> sysdb \<Rightarrow> dbos_error + sysdb" where
  "record_child_row c db =
     (case c of
        None \<Rightarrow> Inr db
      | Some ch \<Rightarrow>
          if op_of db (cr_parent ch) (cr_step_id ch) \<noteq> None
          then Inl (error_new ConflictingId
                 (''child workflow '' @ cr_child ch @ '' already registered for parent workflow ''
                  @ cr_parent ch @ '' (operation ID: '' @ show_int (cr_step_id ch)
                  @ ''). Is your workflow deterministic?''))
          else if \<not> wf_exists db (cr_parent ch)
          then Inl (sql_err ''failed to record child workflow'' (violation db ForeignKeyViolation))
          else Inr (db\<lparr>operation_outputs := operation_outputs db @
                 [\<lparr>op_workflow = cr_parent ch, op_function_id = cr_step_id ch,
                   op_function_name = cr_step_name ch, op_output = None, op_error = None,
                   op_child = Some (cr_child ch), op_started_at = None, op_completed_at = None,
                   op_serialization = None\<rparr>]\<rparr>))"

definition park_dead_letter :: "string \<Rightarrow> ws_row list \<Rightarrow> ws_row list" where
  "park_dead_letter i rows =
     update_where (\<lambda>r. ws_uuid r = i \<and> ws_status r = Pending)
       (\<lambda>r. r\<lparr>ws_status := MaxRecoveryAttemptsExceeded, ws_dedup_id := None,
               ws_started_at := None, ws_queue_name := None\<rparr>) rows"

definition exceeds_retries :: "insert_input \<Rightarrow> insert_result \<Rightarrow> bool" where
  "exceeds_retries input result \<longleftrightarrow>
     ir_status result \<noteq> Success \<and> ir_status result \<noteq> Error \<and> in_max_retries input > 0
     \<and> ir_attempts result > in_max_retries input + 1"

definition insert_workflow_status ::
  "insert_input \<Rightarrow> int \<Rightarrow> sysdb \<Rightarrow> insert_result res \<times> sysdb" where
  "insert_workflow_status input now db =
     (let s = in_status input in
      case upsert_status input now db of
        Inl e \<Rightarrow> (Inl e, db)
      | Inr db1 \<Rightarrow>
          (case wf_row db1 (nw_id s) of
             None \<Rightarrow> (Inl (sql_err ''failed to insert workflow status'' (SqlxError RowNotFound [])), db)
           | Some row \<Rightarrow>
               let result = insert_result_of row in
               (case conflict_check s result of
                  Some e \<Rightarrow> (Inl e, db)
                | None \<Rightarrow>
                    (case record_child_row (in_record_child input) db1 of
                       Inl e \<Rightarrow> (Inl e, db)
                     | Inr db2 \<Rightarrow>
                         if exceeds_retries input result
                         then (Inl (dead_letter_queue (nw_id s) (in_max_retries input)),
                               db2\<lparr>workflow_status := park_dead_letter (nw_id s) (workflow_status db2)\<rparr>)
                         else (Inr result, db2)))))"

subsection \<open>The outcome\<close>

definition update_workflow_outcome ::
  "string \<Rightarrow> workflow_status_type \<Rightarrow> string option \<Rightarrow> string \<Rightarrow> int \<Rightarrow> int \<Rightarrow> sysdb \<Rightarrow> sysdb" where
  "update_workflow_outcome i status output err_str now1 now2 db =
     db\<lparr>workflow_status :=
       update_where (\<lambda>r. ws_uuid r = i \<and> \<not> (ws_status r = Cancelled \<and> status \<in> {Success, Error}))
         (\<lambda>r. r\<lparr>ws_status := status, ws_output := output, ws_error := opt_str err_str,
                 ws_updated_at := now1, ws_completed_at := Some now2, ws_dedup_id := None\<rparr>)
         (workflow_status db)\<rparr>"

subsection \<open>The branches of the insert\<close>

lemma conflict_update_simps [simp]:
  "ws_uuid (conflict_update input s u r) = ws_uuid r"
  "ws_status (conflict_update input s u r) = ws_status r"
  "ws_queue_name (conflict_update input s u r) = ws_queue_name r"
  "ws_name (conflict_update input s u r) = ws_name r"
  "dedup_slot (conflict_update input s u r) = dedup_slot r"
  "row_evolves r (conflict_update input s u r)"
  by (simp_all add: conflict_update_def dedup_slot_def row_evolves_def)

lemma new_ws_row_uuid [simp]: "ws_uuid (new_ws_row input s u) = nw_id (in_status input)"
  by (simp add: new_ws_row_def Let_def)

lemma upsert_evolution:
  assumes "schema_ok db" "upsert_status input now db = Inr db1"
  shows "schema_ok db1 \<and> evolves db db1 \<and> keeps_workflows db db1"
  using assms
  by (auto simp: upsert_status_def Let_def schema_ok_update_ws schema_ok_insert_ws
      evolves_update_ws keeps_update_ws evolves_insert_ws keeps_insert_ws split: if_splits)

lemma record_child_evolution:
  assumes "schema_ok db" "record_child_row c db = Inr db1"
  shows "schema_ok db1 \<and> evolves db db1 \<and> keeps_workflows db db1"
  using assms
  by (auto simp: record_child_row_def schema_ok_insert_op evolves_insert_op
      split: option.splits if_splits)

lemma record_child_ws: "record_child_row c db = Inr db1 \<Longrightarrow> workflow_status db1 = workflow_status db"
  by (auto simp: record_child_row_def split: option.splits if_splits)

lemma park_evolution:
  assumes "schema_ok db" and "db1 = db\<lparr>workflow_status := park_dead_letter i (workflow_status db)\<rparr>"
  shows "schema_ok db1 \<and> evolves db db1 \<and> keeps_workflows db db1"
  using assms(1) unfolding assms(2) park_dead_letter_def
  by (intro conjI schema_ok_update_ws evolves_update_ws keeps_update_ws)
    (auto simp: dedup_slot_def row_evolves_def intro: status_move.parked)

lemma insert_cases:
  assumes "insert_workflow_status input now db = (res, db')"
  obtains (refused) e where "res = Inl e" "db' = db"
  | (parked) db1 row db2 where "upsert_status input now db = Inr db1"
      "wf_row db1 (nw_id (in_status input)) = Some row"
      "conflict_check (in_status input) (insert_result_of row) = None"
      "record_child_row (in_record_child input) db1 = Inr db2"
      "exceeds_retries input (insert_result_of row)"
      "res = Inl (dead_letter_queue (nw_id (in_status input)) (in_max_retries input))"
      "db' = db2\<lparr>workflow_status :=
               park_dead_letter (nw_id (in_status input)) (workflow_status db2)\<rparr>"
  | (stored) db1 row where "upsert_status input now db = Inr db1"
      "wf_row db1 (nw_id (in_status input)) = Some row"
      "conflict_check (in_status input) (insert_result_of row) = None"
      "record_child_row (in_record_child input) db1 = Inr db'"
      "\<not> exceeds_retries input (insert_result_of row)"
      "res = Inr (insert_result_of row)"
  using assms that
  by (auto simp: insert_workflow_status_def Let_def split: sum.splits option.splits if_splits)

lemma insert_evolution:
  assumes "schema_ok db" and db': "db' = snd (insert_workflow_status input now db)"
  shows "schema_ok db' \<and> evolves db db' \<and> keeps_workflows db db'"
proof -
  have eq: "insert_workflow_status input now db = (fst (insert_workflow_status input now db), db')"
    by (simp add: db')
  from eq show ?thesis
  proof (cases rule: insert_cases)
    case refused
    with assms(1) show ?thesis by simp
  next
    case (parked db1 row db2)
    from upsert_evolution [OF assms(1) parked(1)] have a: "schema_ok db1" "evolves db db1"
      "keeps_workflows db db1" by auto
    from record_child_evolution [OF a(1) parked(4)] have b: "schema_ok db2" "evolves db1 db2"
      "keeps_workflows db1 db2" by auto
    from park_evolution [OF b(1) parked(7)] have c: "schema_ok db'" "evolves db2 db'" "keeps_workflows db2 db'"
      by auto
    show ?thesis
      using evolves_trans [OF evolves_trans [OF a(2,3) b(2,3)] keeps_workflows_trans [OF a(3) b(3)] c(2,3)]
        keeps_workflows_trans [OF keeps_workflows_trans [OF a(3) b(3)] c(3)] c(1) by simp
  next
    case (stored db1 row)
    from upsert_evolution [OF assms(1) stored(1)] have a: "schema_ok db1" "evolves db db1"
      "keeps_workflows db db1" by auto
    from record_child_evolution [OF a(1) stored(4)] have b: "schema_ok db'" "evolves db1 db'"
      "keeps_workflows db1 db'" by auto
    show ?thesis using evolves_trans [OF a(2,3) b(2,3)] keeps_workflows_trans [OF a(3) b(3)] b(1)
      by simp
  qed
qed

interpretation insert_status: keeping_op "\<lambda>db. snd (insert_workflow_status input now db)"
  for input now
  by unfold_locales (use insert_evolution in auto)

lemma outcome_evolution:
  assumes "schema_ok db" and "status \<in> {Success, Error}"
    and "db' = update_workflow_outcome i status out err n1 n2 db"
  shows "schema_ok db' \<and> evolves db db' \<and> keeps_workflows db db'"
  using assms(1,2) unfolding assms(3) update_workflow_outcome_def
  by (intro conjI schema_ok_update_ws evolves_update_ws keeps_update_ws)
    (auto simp: dedup_slot_def row_evolves_def intro: status_move.finished split: option.splits)

interpretation outcome_success: keeping_op "update_workflow_outcome i Success out err n1 n2"
  for i out err n1 n2
  by unfold_locales (use outcome_evolution in auto)

interpretation outcome_error: keeping_op "update_workflow_outcome i Error out err n1 n2"
  for i out err n1 n2
  by unfold_locales (use outcome_evolution in auto)

subsection \<open>What the insert does, branch by branch\<close>

lemma insert_fresh:
  assumes "wf_row db (nw_id (in_status input)) = None"
    and "row = new_ws_row input (unwrap_or (nw_status (in_status input)) Pending)
                 (unwrap_or (nw_updated_at_ms (in_status input)) now)"
    and "\<not> dedup_taken row (workflow_status db)" and "in_record_child input = None"
  shows "insert_workflow_status input now db
       = (Inr (insert_result_of row), db\<lparr>workflow_status := workflow_status db @ [row]\<rparr>)"
proof -
  let ?s = "in_status input"
  have row: "wf_row (db\<lparr>workflow_status := workflow_status db @ [row]\<rparr>) (nw_id ?s) = Some row"
    using assms(1,2) by (simp add: fetch_append fetch_Cons)
  have n: "ws_name row = nw_name ?s" "ws_queue_name row = opt_str (nw_queue_name ?s)"
    "ws_recovery_attempts row \<le> 1"
    by (simp_all add: assms(2) new_ws_row_def Let_def initial_attempts_def)
  have "conflict_check ?s (insert_result_of row) = None"
    using n by (auto simp: conflict_check_def insert_result_of_def opt_str_def)
  moreover have "\<not> exceeds_retries input (insert_result_of row)"
    using n by (simp add: exceeds_retries_def insert_result_of_def)
  moreover have "upsert_status input now db
               = Inr (db\<lparr>workflow_status := workflow_status db @ [row]\<rparr>)"
    using assms by (simp add: upsert_status_def Let_def)
  ultimately show ?thesis
    using row assms(4) by (simp add: insert_workflow_status_def Let_def record_child_row_def)
qed

lemma insert_deduplicated:
  assumes "wf_row db (nw_id (in_status input)) = None"
    and "dedup_taken (new_ws_row input (unwrap_or (nw_status (in_status input)) Pending)
                 (unwrap_or (nw_updated_at_ms (in_status input)) now)) (workflow_status db)"
  shows "insert_workflow_status input now db
       = (Inl (queue_deduplicated (nw_id (in_status input)) (nw_queue_name (in_status input))
                (nw_deduplication_id (in_status input))), db)"
  using assms by (simp add: insert_workflow_status_def upsert_status_def Let_def)

text \<open>Running an existing workflow again: the upsert counts the attempt.\<close>

definition same_workflow :: "insert_input \<Rightarrow> ws_row \<Rightarrow> bool" where
  "same_workflow input r \<longleftrightarrow>
     ws_uuid r = nw_id (in_status input)
     \<and> (nw_name (in_status input) = [] \<or> ws_name r = nw_name (in_status input))
     \<and> (nw_queue_name (in_status input) = [] \<or> ws_queue_name r \<in> {None, Some (nw_queue_name (in_status input))})"

definition restart_input :: "insert_input \<Rightarrow> bool" where
  "restart_input input \<longleftrightarrow>
     unwrap_or (nw_status (in_status input)) Pending \<notin> {Enqueued, Delayed}
     \<and> in_increment_attempts input \<and> in_record_child input = None"

lemma wf_row_park:
  assumes "wf_row db i = Some r"
  shows "fetch ws_uuid i (park_dead_letter i (workflow_status db))
       = Some (if ws_status r = Pending
               then r\<lparr>ws_status := MaxRecoveryAttemptsExceeded, ws_dedup_id := None,
                      ws_started_at := None, ws_queue_name := None\<rparr> else r)"
  using assms wf_row_uuid [OF assms] by (auto simp: park_dead_letter_def fetch_update_where)

lemma same_workflow_conflict_free:
  "same_workflow input r \<Longrightarrow>
   conflict_check (in_status input) (insert_result_of (conflict_update input s u r)) = None"
  by (auto simp: same_workflow_def conflict_check_def insert_result_of_def conflict_update_def)

lemma restart_step:
  assumes "wf_row db (nw_id (in_status input)) = Some r" "same_workflow input r"
    and "restart_input input" "0 < in_max_retries input"
    and "insert_workflow_status input now db = (res, db')"
  obtains r' where "wf_row db' (nw_id (in_status input)) = Some r'" "same_workflow input r'"
    "ws_recovery_attempts r' = ws_recovery_attempts r + 1"
    "ws_status r \<notin> {Success, Error} \<Longrightarrow> in_max_retries input < ws_recovery_attempts r \<Longrightarrow>
       isl res \<and> ws_status r' = (if ws_status r = Pending then MaxRecoveryAttemptsExceeded else ws_status r)"
    "ws_status r \<in> {Success, Error} \<or> ws_recovery_attempts r \<le> in_max_retries input \<Longrightarrow>
       \<not> isl res \<and> ws_status r' = ws_status r"
proof -
  let ?s = "in_status input"
  let ?u = "conflict_update input (unwrap_or (nw_status ?s) Pending) (unwrap_or (nw_updated_at_ms ?s) now)"
  let ?db1 = "db\<lparr>workflow_status := update_where (\<lambda>r. ws_uuid r = nw_id ?s) ?u (workflow_status db)\<rparr>"
  have id: "ws_uuid r = nw_id ?s" using assms(2) by (simp add: same_workflow_def)
  have up: "upsert_status input now db = Inr ?db1"
    using assms(1) by (simp add: upsert_status_def Let_def)
  have row: "wf_row ?db1 (nw_id ?s) = Some (?u r)"
    using assms(1) id by (simp add: fetch_update_where)
  have att: "ws_recovery_attempts (?u r) = ws_recovery_attempts r + 1"
    using assms(3) by (auto simp: conflict_update_def restart_input_def)
  have same: "same_workflow input (?u r)"
    using assms(2) by (simp add: same_workflow_def)
  have nc: "record_child_row (in_record_child input) ?db1 = Inr ?db1"
    using assms(3) by (simp add: record_child_row_def restart_input_def)
  show ?thesis
  proof (cases "exceeds_retries input (insert_result_of (?u r))")
    case True
    then have eq: "res = Inl (dead_letter_queue (nw_id ?s) (in_max_retries input))"
      "db' = ?db1\<lparr>workflow_status := park_dead_letter (nw_id ?s) (workflow_status ?db1)\<rparr>"
      using assms(5) up row nc same_workflow_conflict_free [OF assms(2)]
      by (auto simp: insert_workflow_status_def Let_def)
    let ?r' = "if ws_status r = Pending
      then (?u r)\<lparr>ws_status := MaxRecoveryAttemptsExceeded, ws_dedup_id := None,
               ws_started_at := None, ws_queue_name := None\<rparr> else ?u r"
    have "wf_row db' (nw_id ?s) = Some ?r'"
      using wf_row_park [OF row] by (simp add: eq(2))
    moreover have "same_workflow input ?r'" using same by (auto simp: same_workflow_def)
    ultimately show ?thesis
      using that [of ?r'] att True eq(1) by (auto simp: exceeds_retries_def insert_result_of_def)
  next
    case False
    then have eq: "res = Inr (insert_result_of (?u r))" "db' = ?db1"
      using assms(5) up row nc same_workflow_conflict_free [OF assms(2)]
      by (auto simp: insert_workflow_status_def Let_def)
    show ?thesis
      using that [of "?u r"] row same att False eq assms(4)
      by (auto simp: exceeds_retries_def insert_result_of_def)
  qed
qed

text \<open>Recovering the same workflow again and again, one clock reading per attempt.\<close>

fun restarts :: "insert_input \<Rightarrow> int list \<Rightarrow> sysdb \<Rightarrow> insert_result res list \<times> sysdb" where
  "restarts input [] db = ([], db)"
| "restarts input (now # nows) db =
     (let (res, db1) = insert_workflow_status input now db;
          (rs, db2) = restarts input nows db1
      in (res # rs, db2))"

lemma length_restarts: "length (fst (restarts input nows db)) = length nows"
  by (induction nows arbitrary: db) (simp_all add: split_beta Let_def)

lemma map_isl_replicate: "list_all isl rs \<Longrightarrow> map isl rs = replicate (length rs) True"
  by (induction rs) auto

lemma restarts_parked:
  assumes "wf_row db (nw_id (in_status input)) = Some r" "same_workflow input r"
    and "restart_input input" "0 < in_max_retries input"
    and "ws_status r = MaxRecoveryAttemptsExceeded" "in_max_retries input < ws_recovery_attempts r"
  shows "list_all isl (fst (restarts input nows db))
       \<and> (\<exists>r'. wf_row (snd (restarts input nows db)) (nw_id (in_status input)) = Some r'
            \<and> ws_status r' = MaxRecoveryAttemptsExceeded)"
  using assms
proof (induction nows arbitrary: db r)
  case Nil
  then show ?case by simp
next
  case (Cons now nows)
  obtain res db1 where eq: "insert_workflow_status input now db = (res, db1)" by fastforce
  from Cons.prems(1-4) eq obtain r' where "wf_row db1 (nw_id (in_status input)) = Some r'"
    "same_workflow input r'" "ws_recovery_attempts r' = ws_recovery_attempts r + 1"
    "isl res" "ws_status r' = MaxRecoveryAttemptsExceeded"
    by (rule restart_step) (use Cons.prems(5,6) in auto)
  with Cons.IH [of db1 r'] Cons.prems eq show ?case by (simp add: split_beta Let_def)
qed

lemma restarts_counted:
  assumes "wf_row db (nw_id (in_status input)) = Some r" "same_workflow input r"
    and "restart_input input" "0 < in_max_retries input" "ws_status r = Pending"
    and "ws_recovery_attempts r \<le> in_max_retries input + 1"
  defines "left \<equiv> nat (in_max_retries input + 1 - ws_recovery_attempts r)"
  shows "map isl (fst (restarts input nows db))
       = replicate (min (length nows) left) False @ replicate (length nows - left) True
       \<and> (\<exists>r'. wf_row (snd (restarts input nows db)) (nw_id (in_status input)) = Some r'
            \<and> ws_status r' = (if length nows \<le> left then Pending else MaxRecoveryAttemptsExceeded))"
  using assms(1-6) unfolding left_def
proof (induction nows arbitrary: db r)
  case Nil
  then show ?case by simp
next
  case (Cons now nows)
  let ?m = "in_max_retries input"
  obtain res db1 where eq: "insert_workflow_status input now db = (res, db1)" by fastforce
  obtain rs db2 where rest: "restarts input nows db1 = (rs, db2)" by fastforce
  from Cons.prems(1-4) eq obtain r' where r': "wf_row db1 (nw_id (in_status input)) = Some r'"
    "same_workflow input r'" "ws_recovery_attempts r' = ws_recovery_attempts r + 1"
    and park: "?m < ws_recovery_attempts r \<Longrightarrow> isl res \<and> ws_status r' = MaxRecoveryAttemptsExceeded"
    and run: "ws_recovery_attempts r \<le> ?m \<Longrightarrow> \<not> isl res \<and> ws_status r' = Pending"
    by (rule restart_step) (use Cons.prems(5) in auto)
  show ?case
  proof (cases "ws_recovery_attempts r \<le> ?m")
    case True
    let ?l = "nat (?m + 1 - ws_recovery_attempts r')"
    from True have "nat (?m + 1 - ws_recovery_attempts r) = Suc ?l" using r'(3) by simp
    moreover note Cons.IH [OF r'(1,2) Cons.prems(3,4)] run [OF True] True r'(3)
    ultimately show ?thesis using eq rest by simp
  next
    case False
    with park r' restarts_parked [OF r'(1,2) Cons.prems(3,4), of nows] rest
    have "isl res" "list_all isl rs" and st: "\<exists>r'. wf_row db2 (nw_id (in_status input)) = Some r'
        \<and> ws_status r' = MaxRecoveryAttemptsExceeded" by auto
    moreover have "length rs = length nows" using length_restarts [of input nows db1] rest by simp
    moreover have "nat (?m + 1 - ws_recovery_attempts r) = 0" using False by simp
    ultimately show ?thesis using map_isl_replicate [of rs] eq rest by simp
  qed
qed

subsection \<open>The correctness of starting and finishing a workflow\<close>

text \<open>C5. A workflow that crashes over and over is restarted a bounded number of times: of any
  sequence of recoveries of a pending workflow, exactly the first \<open>max_retries + 1 - attempts\<close>
  are admitted, every later one is refused, and the workflow is then parked in
  MAX_RECOVERY_ATTEMPTS_EXCEEDED.\<close>

theorem restarts_bounded:
  assumes "wf_row db (nw_id (in_status input)) = Some r" "same_workflow input r"
    and "restart_input input" "0 < in_max_retries input" "ws_status r = Pending"
    and "ws_recovery_attempts r \<le> in_max_retries input + 1"
    and "left = nat (in_max_retries input + 1 - ws_recovery_attempts r)"
  shows "map isl (fst (restarts input nows db))
       = replicate (min (length nows) left) False @ replicate (length nows - left) True
       \<and> (\<exists>r'. wf_row (snd (restarts input nows db)) (nw_id (in_status input)) = Some r'
            \<and> ws_status r' = (if length nows \<le> left then Pending else MaxRecoveryAttemptsExceeded))"
  unfolding assms(7) by (rule restarts_counted [OF assms(1-6)])

lemma restarts_bounded_witness:
  "map isl (fst (restarts sample_input [1, 2, 3, 4] sample_db)) = [False, False, True, True]"
  using restarts_bounded [where db = sample_db and input = sample_input and r = "sample_row ''w1'' Pending None"
        and left = 2 and nows = "[1, 2, 3, 4]"]
  by (simp add: sample_simps same_workflow_def restart_input_def numeral_eq_Suc)

text \<open>Starting a workflow under a fresh id stores exactly one new row, with the submitted
  input and the attempt count of its status, and changes nothing else.\<close>

theorem insert_stores_new_workflow:
  assumes "wf_row db (nw_id (in_status input)) = None" "in_record_child input = None"
    and "row = new_ws_row input (unwrap_or (nw_status (in_status input)) Pending)
                 (unwrap_or (nw_updated_at_ms (in_status input)) now)"
    and "dedup_slot row = None \<or> (\<forall>r\<in>set (workflow_status db). dedup_slot r \<noteq> dedup_slot row)"
  shows "insert_workflow_status input now db
       = (Inr (insert_result_of row), db\<lparr>workflow_status := workflow_status db @ [row]\<rparr>)"
  using insert_fresh [OF assms(1,3) _ assms(2)] assms(4)
  by (auto simp: dedup_taken_def list_ex_iff)

lemma insert_stores_new_workflow_witness:
  "\<exists>res. insert_workflow_status sample_input 5 empty_db
     = (Inr res, empty_db\<lparr>workflow_status := [new_ws_row sample_input Pending 5]\<rparr>)"
  using insert_stores_new_workflow [where db = empty_db and input = sample_input
        and row = "new_ws_row sample_input Pending 5" and now = 5]
  by (simp add: sample_simps)

text \<open>A workflow cancelled while its body was still running stays cancelled: reporting
  SUCCESS or ERROR for it leaves its row as it is.\<close>

theorem cancelled_not_overwritten:
  assumes "wf_row db i = Some r" "ws_status r = Cancelled" "status \<in> {Success, Error}"
  shows "wf_row (update_workflow_outcome i status out err n1 n2 db) i = Some r"
  using assms by (simp add: update_workflow_outcome_def fetch_update_where)

lemma cancelled_not_overwritten_witness:
  "wf_row (update_workflow_outcome ''w'' Success (Some ''1'') [] 5 6
      (empty_db\<lparr>workflow_status := [sample_row ''w'' Cancelled None]\<rparr>)) ''w''
   = Some (sample_row ''w'' Cancelled None)"
  using cancelled_not_overwritten
    [where db = "empty_db\<lparr>workflow_status := [sample_row ''w'' Cancelled None]\<rparr>" and i = "''w''"
        and r = "sample_row ''w'' Cancelled None" and status = Success]
  by (simp add: sample_simps)

text \<open>The counterpart: a finished workflow is finished again with whatever is reported last.\<close>

lemma outcome_overwrites_finished:
  assumes "wf_row db i = Some r" "ws_status r \<noteq> Cancelled"
  shows "\<exists>r'. wf_row (update_workflow_outcome i status out err n1 n2 db) i = Some r'
       \<and> ws_status r' = status \<and> ws_output r' = out \<and> ws_error r' = opt_str err
       \<and> ws_dedup_id r' = None"
  using assms wf_row_uuid [OF assms(1)] by (auto simp: update_workflow_outcome_def fetch_update_where)

end
