(* ===== verification/Store_Steps.thy ===== *)
theory Store_Steps
  imports Samples
begin

text \<open>
  The checkpoint table of \<open>db/sqlite.rs\<close>: \<open>record_operation_result\<close>,
  \<open>check_operation_execution\<close>, \<open>check_child_workflow\<close> and \<open>get_workflow_steps\<close>, and the contract
  on which the engine builds exactly-once steps, stated as a locale and interpreted on them.
\<close>

subsection \<open>Recording and looking up\<close>

definition recorded_row :: "record_input \<Rightarrow> op_row" where
  "recorded_row input =
     \<lparr>op_workflow = ri_workflow_id input, op_function_id = ri_step_id input,
      op_function_name = ri_step_name input, op_output = ri_output input,
      op_error = ri_error input, op_child = ri_child input,
      op_started_at = Some (ri_started_at_ms input),
      op_completed_at = Some (ri_completed_at_ms input),
      op_serialization = Some (ri_serialization input)\<rparr>"

text \<open>The two INSERT statements differ only in whether \<open>child_workflow_id\<close> is listed or left NULL.\<close>

definition record_operation_result :: "record_input \<Rightarrow> sysdb \<Rightarrow> unit res \<times> sysdb" where
  "record_operation_result input db =
     (if op_of db (ri_workflow_id input) (ri_step_id input) \<noteq> None
      then (Inl (workflow_conflict_id (ri_workflow_id input)), db)
      else if \<not> wf_exists db (ri_workflow_id input)
      then (Inl (sql_err ''failed to record operation result'' (violation db ForeignKeyViolation)), db)
      else (Inr (), db\<lparr>operation_outputs := operation_outputs db @ [recorded_row input]\<rparr>))"

definition check_child_workflow :: "string \<Rightarrow> int \<Rightarrow> sysdb \<Rightarrow> string option" where
  "check_child_workflow parent step_id db =
     (case op_of db parent step_id of None \<Rightarrow> None | Some r \<Rightarrow> op_child r)"

definition check_operation_execution ::
  "string \<Rightarrow> int \<Rightarrow> string \<Rightarrow> sysdb \<Rightarrow> recorded_result option res" where
  "check_operation_execution i step_id step_name db =
     (case wf_row db i of
        None \<Rightarrow> Inl (non_existent_workflow i)
      | Some w \<Rightarrow>
          if ws_status w = Cancelled then Inl (workflow_cancelled i)
          else (case op_of db i step_id of
                  None \<Rightarrow> Inr None
                | Some r \<Rightarrow>
                    if step_name \<noteq> op_function_name r
                    then Inl (unexpected_step i step_id step_name (op_function_name r))
                    else Inr (Some
                      \<lparr>rr_output = op_output r, rr_error = non_empty_opt (op_error r),
                       rr_serialization = unwrap_or_default (op_serialization r)\<rparr>)))"

definition step_info_of :: "op_row \<Rightarrow> step_info" where
  "step_info_of r =
     \<lparr>si_step_id = op_function_id r, si_step_name = op_function_name r, si_output = op_output r,
      si_error = non_empty_opt (op_error r), si_child = op_child r,
      si_started_at_ms = op_started_at r, si_completed_at_ms = op_completed_at r,
      si_serialization = unwrap_or_default (op_serialization r)\<rparr>"

definition get_workflow_steps :: "string \<Rightarrow> sysdb \<Rightarrow> step_info list" where
  "get_workflow_steps i db =
     map step_info_of
       (sort_key op_function_id (filter (\<lambda>r. op_workflow r = i) (operation_outputs db)))"

subsection \<open>Their contract\<close>

lemma record_evolution:
  assumes "schema_ok db" and db': "db' = snd (record_operation_result input db)"
  shows "schema_ok db' \<and> evolves db db' \<and> keeps_workflows db db'"
  using assms
  by (auto simp: record_operation_result_def schema_ok_insert_op recorded_row_def evolves_insert_op
      split: if_splits)

interpretation record_result: keeping_op "\<lambda>db. snd (record_operation_result input db)"
  for input
  by unfold_locales (use record_evolution in auto)

text \<open>
  A checkpoint store, as the step engine sees it: \<open>put\<close> writes a result under the step's key,
  \<open>look\<close> reads it back.  \<open>live\<close> says that the workflow exists and is not cancelled, \<open>result\<close> what
  a read returns for a record, \<open>key\<close> and \<open>name\<close> the identity of the step.
\<close>

locale checkpoint_store =
  fixes put :: "'i \<Rightarrow> 's \<Rightarrow> unit res \<times> 's"
    and look :: "string \<Rightarrow> int \<Rightarrow> string \<Rightarrow> 's \<Rightarrow> 'r option res"
    and live :: "'s \<Rightarrow> string \<Rightarrow> bool"
    and wid :: "'i \<Rightarrow> string"
    and sid :: "'i \<Rightarrow> int"
    and name :: "'i \<Rightarrow> string"
    and result :: "'i \<Rightarrow> 'r"
  assumes check_recorded:
      "put inp s = (Inr (), s') \<Longrightarrow> live s' (wid inp) \<Longrightarrow>
       look (wid inp) (sid inp) (name inp) s' = Inr (Some (result inp))"
    and record_fresh:
      "live s (wid inp) \<Longrightarrow> look (wid inp) (sid inp) n s = Inr None \<Longrightarrow>
       fst (put inp s) = Inr ()"
    and record_taken:
      "live s (wid inp) \<Longrightarrow> look (wid inp) (sid inp) n s \<noteq> Inr None \<Longrightarrow>
       put inp s = (Inl (workflow_conflict_id (wid inp)), s)"
    and check_other:
      "put inp s = (r, s') \<Longrightarrow> (i, k) \<noteq> (wid inp, sid inp) \<Longrightarrow> look i k n s' = look i k n s"
    and live_kept: "put inp s = (r, s') \<Longrightarrow> live s' i = live s i"

context checkpoint_store
begin

text \<open>The first writer wins: a second record of the same step changes nothing.\<close>

lemma second_record_refused:
  assumes "put a s = (Inr (), s')" "live s' (wid a)" "wid b = wid a" "sid b = sid a"
  shows "put b s' = (Inl (workflow_conflict_id (wid a)), s')"
  using record_taken [of s' b "name a"] check_recorded [OF assms(1,2)] assms(2-4) by simp

text \<open>A recorded result is what every later check returns, whatever other steps record.\<close>

fun put_all :: "'i list \<Rightarrow> 's \<Rightarrow> 's" where
  "put_all [] s = s"
| "put_all (i # is) s = put_all is (snd (put i s))"

lemma recorded_for_good:
  assumes "put a s = (Inr (), s')" "live s' (wid a)"
  shows "look (wid a) (sid a) (name a) (put_all bs s') = Inr (Some (result a))"
proof -
  have "look (wid a) (sid a) (name a) (put_all bs t) = Inr (Some (result a))"
    if "look (wid a) (sid a) (name a) t = Inr (Some (result a))" "live t (wid a)" for t
    using that
  proof (induction bs arbitrary: t)
    case Nil
    then show ?case by simp
  next
    case (Cons b bs)
    obtain r t' where eq: "put b t = (r, t')" by fastforce
    have "look (wid a) (sid a) (name a) t' = Inr (Some (result a))"
    proof (cases "(wid a, sid a) = (wid b, sid b)")
      case True
      with Cons.prems eq record_taken [of t b "name a"] show ?thesis by auto
    next
      case False
      with Cons.prems(1) show ?thesis using check_other [OF eq False] by simp
    qed
    moreover have "live t' (wid a)" using live_kept [OF eq] Cons.prems(2) by simp
    ultimately show ?case using Cons.IH eq by simp
  qed
  with assms check_recorded show ?thesis by blast
qed

end

definition live_workflow :: "sysdb \<Rightarrow> string \<Rightarrow> bool" where
  "live_workflow db i \<longleftrightarrow>
     (case wf_row db i of None \<Rightarrow> False | Some w \<Rightarrow> ws_status w \<noteq> Cancelled)"

definition recorded_result_of :: "record_input \<Rightarrow> recorded_result" where
  "recorded_result_of input =
     \<lparr>rr_output = ri_output input, rr_error = non_empty_opt (ri_error input),
      rr_serialization = ri_serialization input\<rparr>"

lemma record_wf_row [simp]: "wf_row (snd (record_operation_result input db)) i = wf_row db i"
  by (simp add: record_operation_result_def)

lemma op_of_record:
  "op_of (snd (record_operation_result input db)) i k
   = (case op_of db i k of
        Some r \<Rightarrow> Some r
      | None \<Rightarrow> if wf_exists db (ri_workflow_id input) \<and> (i, k) = (ri_workflow_id input, ri_step_id input)
                then Some (recorded_row input) else None)"
  by (auto simp: record_operation_result_def fetch_append fetch_Cons recorded_row_def
      split: option.splits)

lemma record_ok:
  assumes "record_operation_result inp s = (Inr (), s')"
  shows "op_of s' (ri_workflow_id inp) (ri_step_id inp) = Some (recorded_row inp)"
    and "wf_row s' i = wf_row s i"
  using assms op_of_record [where input = inp and db = s and i = "ri_workflow_id inp" and k = "ri_step_id inp"]
    record_wf_row [where input = inp and db = s and i = i]
  by (auto simp: record_operation_result_def split: if_splits)

lemma recorded_row_simps [simp]:
  "op_function_name (recorded_row inp) = ri_step_name inp"
  "op_output (recorded_row inp) = ri_output inp"
  "op_error (recorded_row inp) = ri_error inp"
  "op_child (recorded_row inp) = ri_child inp"
  "op_serialization (recorded_row inp) = Some (ri_serialization inp)"
  by (simp_all add: recorded_row_def)

interpretation sqlite_store: checkpoint_store record_operation_result check_operation_execution
  live_workflow ri_workflow_id ri_step_id ri_step_name recorded_result_of
proof
  fix inp :: record_input and s s'
  assume rec: "record_operation_result inp s = (Inr (), s')" and "live_workflow s' (ri_workflow_id inp)"
  then show "check_operation_execution (ri_workflow_id inp) (ri_step_id inp) (ri_step_name inp) s'
      = Inr (Some (recorded_result_of inp))"
    using record_ok [OF rec]
    by (auto simp: check_operation_execution_def live_workflow_def recorded_result_of_def
        split: option.splits)
next
  fix s n and inp :: record_input
  assume "live_workflow s (ri_workflow_id inp)"
    "check_operation_execution (ri_workflow_id inp) (ri_step_id inp) n s = Inr None"
  then show "fst (record_operation_result inp s) = Inr ()"
    by (auto simp: record_operation_result_def check_operation_execution_def live_workflow_def
        split: option.splits if_splits)
next
  fix s n and inp :: record_input
  assume "live_workflow s (ri_workflow_id inp)"
    "check_operation_execution (ri_workflow_id inp) (ri_step_id inp) n s \<noteq> Inr None"
  then show "record_operation_result inp s = (Inl (workflow_conflict_id (ri_workflow_id inp)), s)"
    by (auto simp: record_operation_result_def check_operation_execution_def live_workflow_def
        split: option.splits if_splits)
next
  fix inp :: record_input and s r s' i k n
  assume rec: "record_operation_result inp s = (r, s')" and "(i, k) \<noteq> (ri_workflow_id inp, ri_step_id inp)"
  then have eq: "op_of s' i k = op_of s i k" "wf_row s' i = wf_row s i"
    using op_of_record [where input = inp and db = s and i = i and k = k] record_wf_row [where input = inp and db = s and i = i] by (auto split: option.splits)
  show "check_operation_execution i k n s' = check_operation_execution i k n s"
    unfolding check_operation_execution_def eq ..
next
  fix inp :: record_input and s r s' i
  assume "record_operation_result inp s = (r, s')"
  then show "live_workflow s' i = live_workflow s i"
    using record_wf_row [where input = inp and db = s and i = i] by (simp add: live_workflow_def)
qed

subsection \<open>Correctness of checkpointing\<close>

text \<open>C4. Once a step's result is recorded for a live workflow, every later check of the step
  returns that result, whatever other results are recorded meanwhile, and recording it a second
  time is refused with ConflictingId and changes nothing.\<close>

theorem checkpoint_is_final:
  assumes "record_operation_result a db = (Inr (), db')" "live_workflow db' (ri_workflow_id a)"
  shows "check_operation_execution (ri_workflow_id a) (ri_step_id a) (ri_step_name a)
           (foldl (\<lambda>d b. snd (record_operation_result b d)) db' bs) = Inr (Some (recorded_result_of a))
       \<and> record_operation_result (a\<lparr>ri_output := out, ri_error := err, ri_step_name := n\<rparr>) db'
         = (Inl (workflow_conflict_id (ri_workflow_id a)), db')"
proof
  have "sqlite_store.put_all bs db' = foldl (\<lambda>d b. snd (record_operation_result b d)) db' bs"
    by (induction bs arbitrary: db') simp_all
  then show "check_operation_execution (ri_workflow_id a) (ri_step_id a) (ri_step_name a)
           (foldl (\<lambda>d b. snd (record_operation_result b d)) db' bs) = Inr (Some (recorded_result_of a))"
    using sqlite_store.recorded_for_good [OF assms, of bs] by simp
  show "record_operation_result (a\<lparr>ri_output := out, ri_error := err, ri_step_name := n\<rparr>) db'
       = (Inl (workflow_conflict_id (ri_workflow_id a)), db')"
    by (rule sqlite_store.second_record_refused [OF assms]) simp_all
qed

definition sample_record :: record_input where
  "sample_record =
     \<lparr>ri_workflow_id = ''w1'', ri_step_id = 1, ri_step_name = ''pay'', ri_output = Some ''8'',
      ri_error = None, ri_child = None, ri_started_at_ms = 1003, ri_completed_at_ms = 1004,
      ri_serialization = ''DBOS_JSON''\<rparr>"

lemma checkpoint_is_final_witness:
  "check_operation_execution ''w1'' 1 ''pay'' (snd (record_operation_result sample_record sample_db))
   = Inr (Some \<lparr>rr_output = Some ''8'', rr_error = None, rr_serialization = ''DBOS_JSON''\<rparr>)"
  using checkpoint_is_final [where a = sample_record and db = sample_db
      and db' = "snd (record_operation_result sample_record sample_db)" and bs = "[]"]
  by (simp add: record_operation_result_def sample_simps sample_record_def live_workflow_def
      recorded_result_of_def)

text \<open>The check that precedes every step answers by the first condition that applies: an
  unknown workflow, a cancelled one, a step not recorded yet, a step recorded under another name
  (a non-deterministic workflow), or the recorded result.\<close>

theorem check_operation_execution_spec:
  "check_operation_execution i k n db = Inl e \<longleftrightarrow>
     (\<not> wf_exists db i \<and> e = non_existent_workflow i)
     \<or> (\<exists>w. wf_row db i = Some w \<and> ws_status w = Cancelled \<and> e = workflow_cancelled i)
     \<or> (live_workflow db i \<and> (\<exists>r. op_of db i k = Some r \<and> op_function_name r \<noteq> n
           \<and> e = unexpected_step i k n (op_function_name r)))"
  by (auto simp: check_operation_execution_def live_workflow_def split: option.splits)

end
