(* ===== verification/Store_Queue.thy ===== *)
theory Store_Queue
  imports Samples
begin

text \<open>
  The queue operations of \<open>db/sqlite.rs\<close>: \<open>dequeue_workflows\<close> (limits, candidate order, claiming),
  \<open>clear_queue_assignment\<close>, \<open>transition_delayed_workflows\<close>, \<open>get_deduplicated_workflow\<close>.  The
  period of a rate limit is the number of milliseconds the source computes from its seconds.
\<close>

subsection \<open>Dequeue\<close>

record dequeue_input =
  dq_queue_name :: string
  dq_global_concurrency :: "int option"
  dq_worker_concurrency :: "int option"
  dq_rate_limit :: "(int \<times> int) option"
  dq_max_tasks :: int
  dq_local_running :: int
  dq_application_version :: string
  dq_executor_id :: string

definition in_window :: "dequeue_input \<Rightarrow> int \<Rightarrow> ws_row \<Rightarrow> bool" where
  "in_window input cutoff r \<longleftrightarrow>
     ws_queue_name r = Some (dq_queue_name input) \<and> ws_rate_limited r
     \<and> ws_status r \<notin> {Enqueued, Delayed}
     \<and> (case ws_started_at r of None \<Rightarrow> False | Some t \<Rightarrow> t > cutoff)"

definition pending_in_queue :: "dequeue_input \<Rightarrow> ws_row \<Rightarrow> bool" where
  "pending_in_queue input r \<longleftrightarrow>
     ws_queue_name r = Some (dq_queue_name input) \<and> ws_status r = Pending"

definition task_budget :: "dequeue_input \<Rightarrow> ws_row list \<Rightarrow> int" where
  "task_budget input rows =
     (let max_tasks = (case dq_worker_concurrency input of
            None \<Rightarrow> dq_max_tasks input
          | Some wc \<Rightarrow> max (wc - dq_local_running input) 0)
      in case dq_global_concurrency input of
           None \<Rightarrow> max_tasks
         | Some gc \<Rightarrow> min max_tasks (max (gc - count_where (pending_in_queue input) rows) 0))"

definition eligible :: "dequeue_input \<Rightarrow> ws_row \<Rightarrow> bool" where
  "eligible input r \<longleftrightarrow>
     ws_queue_name r = Some (dq_queue_name input) \<and> ws_status r = Enqueued
     \<and> ws_application_version r \<in> {None, Some (dq_application_version input)}"

definition candidates :: "dequeue_input \<Rightarrow> ws_row list \<Rightarrow> ws_row list" where
  "candidates input rows =
     sort_key (\<lambda>r. (ws_priority r, ws_created_at r)) (filter (eligible input) rows)"

definition claim :: "dequeue_input \<Rightarrow> int \<Rightarrow> ws_row \<Rightarrow> ws_row" where
  "claim input now r =
     r\<lparr>ws_status := Pending, ws_application_version := Some (dq_application_version input),
       ws_executor_id := Some (dq_executor_id input), ws_started_at := Some now,
       ws_rate_limited := (dq_rate_limit input \<noteq> None),
       ws_deadline_ms := (case (ws_timeout_ms r, ws_deadline_ms r) of
            (Some t, None) \<Rightarrow> Some (now + t) | _ \<Rightarrow> ws_deadline_ms r)\<rparr>"

definition dequeued_of :: "ws_row \<Rightarrow> dequeued_workflow" where
  "dequeued_of r =
     \<lparr>dw_id = ws_uuid r, dw_name = ws_name r, dw_input = ws_inputs r,
      dw_serialization = ws_serialization r, dw_config_name = ws_config_name r\<rparr>"

definition rate_reached :: "dequeue_input \<Rightarrow> int \<Rightarrow> nat \<Rightarrow> bool" where
  "rate_reached input recent n \<longleftrightarrow>
     (case dq_rate_limit input of None \<Rightarrow> False | Some (limit, _) \<Rightarrow> int n + recent \<ge> limit)"

text \<open>The claiming loop; \<open>clk n\<close> is the \<open>n\<close>-th reading of the clock.\<close>

fun claim_loop :: "dequeue_input \<Rightarrow> int \<Rightarrow> (nat \<Rightarrow> int) \<Rightarrow> string list \<Rightarrow>
    dequeued_workflow list \<Rightarrow> ws_row list \<Rightarrow> dequeued_workflow list \<times> ws_row list" where
  "claim_loop input recent clk [] out rows = (out, rows)"
| "claim_loop input recent clk (i # ids) out rows =
     (if rate_reached input recent (length out) then (out, rows)
      else case fetch (\<lambda>r. (ws_uuid r, ws_status r)) (i, Enqueued) rows of
             None \<Rightarrow> claim_loop input recent (\<lambda>n. clk (Suc n)) ids out rows
           | Some r \<Rightarrow>
               claim_loop input recent (\<lambda>n. clk (Suc n)) ids (out @ [dequeued_of r])
                 (update_where (\<lambda>r. ws_uuid r = i \<and> ws_status r = Enqueued) (claim input (clk 0)) rows))"

definition recent_starts :: "dequeue_input \<Rightarrow> int \<Rightarrow> ws_row list \<Rightarrow> int" where
  "recent_starts input now rows =
     (case dq_rate_limit input of
        None \<Rightarrow> 0
      | Some (limit, period) \<Rightarrow> count_where (in_window input (now - period)) rows)"

text \<open>
  \<open>dequeue_workflows\<close>: the first reading of the clock dates the rate limiter's window (it is only
  taken when there is one), the others the claims.  Nothing is committed when nothing is claimed.
\<close>

definition dequeue_workflows ::
  "dequeue_input \<Rightarrow> (nat \<Rightarrow> int) \<Rightarrow> sysdb \<Rightarrow> dequeued_workflow list \<times> sysdb" where
  "dequeue_workflows input clk db =
     (let rows = workflow_status db; recent = recent_starts input (clk 0) rows in
      if rate_reached input recent 0 then ([], db)
      else let max_tasks = task_budget input rows in
        if max_tasks \<le> 0 then ([], db)
        else
          let ids = map ws_uuid (take (nat max_tasks) (candidates input rows));
              (out, rows') = claim_loop input recent (\<lambda>n. clk (Suc n)) ids [] rows
          in if out = [] then ([], db) else (out, db\<lparr>workflow_status := rows'\<rparr>))"

subsection \<open>The other queue operations\<close>

definition clear_queue_assignment :: "string \<Rightarrow> sysdb \<Rightarrow> bool \<times> sysdb" where
  "clear_queue_assignment i db =
     (let P = (\<lambda>r. ws_uuid r = i \<and> ws_queue_name r \<noteq> None \<and> ws_status r = Pending) in
      (count_where P (workflow_status db) > 0,
       db\<lparr>workflow_status :=
         update_where P (\<lambda>r. r\<lparr>ws_status := Enqueued, ws_started_at := None\<rparr>) (workflow_status db)\<rparr>))"

definition get_deduplicated_workflow :: "string \<Rightarrow> string \<Rightarrow> sysdb \<Rightarrow> string option" where
  "get_deduplicated_workflow queue dedup db =
     map_option ws_uuid
       (fetch (\<lambda>r. (ws_queue_name r, ws_dedup_id r)) (Some queue, Some dedup) (workflow_status db))"

definition transition_delayed_workflows :: "int \<Rightarrow> sysdb \<Rightarrow> sysdb" where
  "transition_delayed_workflows now db =
     db\<lparr>workflow_status :=
       update_where (\<lambda>r. ws_status r = Delayed
           \<and> (case ws_delay_until r of None \<Rightarrow> False | Some t \<Rightarrow> t \<le> now))
         (\<lambda>r. r\<lparr>ws_status := Enqueued\<rparr>) (workflow_status db)\<rparr>"

subsection \<open>The claiming loop\<close>

lemma claim_simps [simp]:
  "ws_uuid (claim input now r) = ws_uuid r"
  "ws_status (claim input now r) = Pending"
  "ws_queue_name (claim input now r) = ws_queue_name r"
  "dedup_slot (claim input now r) = dedup_slot r"
  by (simp_all add: claim_def dedup_slot_def)

lemma claim_evolves: "ws_status r = Enqueued \<Longrightarrow> row_evolves r (claim input now r)"
  by (auto simp: row_evolves_def claim_def intro: status_move.dequeued)

lemma fetch_enqueued:
  assumes "fetch ws_uuid i rows = Some r" "ws_status r = Enqueued" "distinct (map ws_uuid rows)"
  shows "fetch (\<lambda>r. (ws_uuid r, ws_status r)) (i, Enqueued) rows = Some r"
  using assms
proof (induction rows)
  case (Cons a rows)
  then show ?case by (cases "ws_uuid a = i") (auto simp: fetch_Cons dest: fetch_SomeD)
qed simp

text \<open>How many of \<open>k\<close> candidates the rate limiter lets through.\<close>

definition admitted :: "dequeue_input \<Rightarrow> int \<Rightarrow> nat \<Rightarrow> nat \<Rightarrow> nat" where
  "admitted input recent n k =
     (case dq_rate_limit input of None \<Rightarrow> k | Some (limit, _) \<Rightarrow> min k (nat (limit - recent - int n)))"

lemma admitted_reached: "rate_reached input recent n \<Longrightarrow> admitted input recent n k = 0"
  by (auto simp: admitted_def rate_reached_def split: option.splits)

lemma admitted_Suc:
  "\<not> rate_reached input recent n \<Longrightarrow>
   admitted input recent n (Suc k) = Suc (admitted input recent (Suc n) k)"
  by (auto simp: admitted_def rate_reached_def min_def split: option.splits)

definition claimed_rows :: "dequeue_input \<Rightarrow> string set \<Rightarrow> ws_row list \<Rightarrow> ws_row list \<Rightarrow> bool" where
  "claimed_rows input ids rows rows' \<longleftrightarrow>
     map ws_uuid rows' = map ws_uuid rows
     \<and> (\<forall>j. j \<notin> ids \<longrightarrow> fetch ws_uuid j rows' = fetch ws_uuid j rows)
     \<and> (\<forall>j\<in>ids. \<exists>now r. fetch ws_uuid j rows = Some r \<and> ws_status r = Enqueued
           \<and> fetch ws_uuid j rows' = Some (claim input now r))"

lemma claim_loop_spec:
  assumes "distinct ids" "distinct (map ws_uuid rows)"
    and "\<And>i. i \<in> set ids \<Longrightarrow> \<exists>r. fetch ws_uuid i rows = Some r \<and> ws_status r = Enqueued"
    and "claim_loop input recent clk ids out rows = (out', rows')"
    and "n = admitted input recent (length out) (length ids)"
  shows "map dw_id out' = map dw_id out @ take n ids \<and> claimed_rows input (set (take n ids)) rows rows'"
  using assms
proof (induction ids arbitrary: clk out rows n)
  case Nil
  then show ?case by (simp add: claimed_rows_def)
next
  case (Cons i ids)
  show ?case
  proof (cases "rate_reached input recent (length out)")
    case True
    with Cons.prems show ?thesis by (simp add: admitted_reached claimed_rows_def)
  next
    case False
    obtain r where r: "fetch ws_uuid i rows = Some r" "ws_status r = Enqueued"
      using Cons.prems(3) by auto
    let ?rows1 = "update_where (\<lambda>r. ws_uuid r = i \<and> ws_status r = Enqueued) (claim input (clk 0)) rows"
    have step: "claim_loop input recent (\<lambda>n. clk (Suc n)) ids (out @ [dequeued_of r]) ?rows1 = (out', rows')"
      using Cons.prems(4) False fetch_enqueued [OF r Cons.prems(2)] by simp
    let ?m = "admitted input recent (length (out @ [dequeued_of r])) (length ids)"
    have n: "n = Suc ?m" using Cons.prems(5) admitted_Suc [OF False] by simp
    have keys: "map ws_uuid ?rows1 = map ws_uuid rows" by (simp add: map_key_update_where)
    have look: "fetch ws_uuid j ?rows1 = (if j = i then Some (claim input (clk 0) r)
        else fetch ws_uuid j rows)" for j
      using r fetch_SomeD [of ws_uuid j rows]
      by (cases "fetch ws_uuid j rows") (auto simp: fetch_update_where)
    have enq: "\<exists>r. fetch ws_uuid j ?rows1 = Some r \<and> ws_status r = Enqueued" if "j \<in> set ids" for j
      using that Cons.prems(1,3) look by auto
    have IH: "map dw_id out' = map dw_id (out @ [dequeued_of r]) @ take ?m ids"
      "claimed_rows input (set (take ?m ids)) ?rows1 rows'"
      using Cons.IH [OF _ _ enq step refl] Cons.prems(1,2) keys by auto
    have ni: "i \<notin> set (take ?m ids)" using Cons.prems(1) by (auto dest: in_set_takeD)
    have "dw_id (dequeued_of r) = i" using r(1) by (auto simp: dequeued_of_def dest: fetch_SomeD)
    moreover have "claimed_rows input (set (take n (i # ids))) rows rows'"
      unfolding claimed_rows_def
    proof (intro conjI allI impI ballI)
      show "map ws_uuid rows' = map ws_uuid rows" using IH(2) keys by (simp add: claimed_rows_def)
    next
      fix j
      assume "j \<notin> set (take n (i # ids))"
      then show "fetch ws_uuid j rows' = fetch ws_uuid j rows"
        using IH(2) look [of j] n by (auto simp: claimed_rows_def)
    next
      fix j
      assume j: "j \<in> set (take n (i # ids))"
      show "\<exists>now r. fetch ws_uuid j rows = Some r \<and> ws_status r = Enqueued
          \<and> fetch ws_uuid j rows' = Some (claim input now r)"
      proof (cases "j = i")
        case True
        then have "fetch ws_uuid j rows' = Some (claim input (clk 0) r)"
          using IH(2) ni look [of i] by (simp add: claimed_rows_def)
        with True r show ?thesis by blast
      next
        case False
        with j n have "j \<in> set (take ?m ids)" by simp
        with IH(2) obtain now r0 where "fetch ws_uuid j ?rows1 = Some r0" "ws_status r0 = Enqueued"
          "fetch ws_uuid j rows' = Some (claim input now r0)" unfolding claimed_rows_def by blast
        moreover from this(1) have "fetch ws_uuid j rows = Some r0" using look [of j] False by simp
        ultimately show ?thesis by blast
      qed
    qed
    ultimately show ?thesis using IH(1) n by simp
  qed
qed

lemma claim_loop_count:
  assumes "distinct (map ws_uuid rows)"
    and "claim_loop input recent clk ids out rows = (out', rows')"
  shows "length out \<le> length out'
       \<and> count_where P rows' + int (length out) \<le> count_where P rows + int (length out')"
  using assms
proof (induction ids arbitrary: clk out rows)
  case Nil
  then show ?case by simp
next
  case (Cons i ids)
  show ?case
  proof (cases "rate_reached input recent (length out)")
    case True
    with Cons.prems show ?thesis by simp
  next
    case False
    show ?thesis
    proof (cases "fetch (\<lambda>r. (ws_uuid r, ws_status r)) (i, Enqueued) rows")
      case None
      then show ?thesis using Cons.IH [OF Cons.prems(1)] Cons.prems(2) False by simp
    next
      case (Some r)
      let ?rows1 = "update_where (\<lambda>r. ws_uuid r = i \<and> ws_status r = Enqueued) (claim input (clk 0)) rows"
      have "map ws_uuid ?rows1 = map ws_uuid rows" by (simp add: map_key_update_where)
      moreover have "count_where P ?rows1 \<le> count_where P rows + 1"
        using count_where_update_key [OF Cons.prems(1)] by simp
      ultimately show ?thesis
        using Cons.IH [of ?rows1 "\<lambda>n. clk (Suc n)" "out @ [dequeued_of r]"] Cons.prems False Some by auto
    qed
  qed
qed

subsection \<open>Dequeue as a whole\<close>

lemma candidates_props:
  assumes "distinct (map ws_uuid rows)"
  shows "distinct (map ws_uuid (candidates input rows))"
    and "set (candidates input rows) = {r \<in> set rows. eligible input r}"
    and "r \<in> set (candidates input rows) \<Longrightarrow>
         fetch ws_uuid (ws_uuid r) rows = Some r \<and> ws_status r = Enqueued"
proof -
  show c: "set (candidates input rows) = {r \<in> set rows. eligible input r}"
    by (auto simp: candidates_def)
  show "distinct (map ws_uuid (candidates input rows))"
    using assms by (simp add: candidates_def distinct_map inj_on_def)
  show "r \<in> set (candidates input rows) \<Longrightarrow>
      fetch ws_uuid (ws_uuid r) rows = Some r \<and> ws_status r = Enqueued"
    using assms by (simp add: c fetch_Some_iff_distinct eligible_def)
qed

lemma dequeue_unfold:
  "dequeue_workflows input clk db =
     (let rows = workflow_status db; recent = recent_starts input (clk 0) rows in
      if rate_reached input recent 0 \<or> task_budget input rows \<le> 0 then ([], db)
      else let (out, rows') = claim_loop input recent (\<lambda>n. clk (Suc n))
             (map ws_uuid (take (nat (task_budget input rows)) (candidates input rows))) [] rows
        in if out = [] then ([], db) else (out, db\<lparr>workflow_status := rows'\<rparr>))"
  by (simp add: dequeue_workflows_def Let_def)

lemma dequeue_cases:
  assumes "dequeue_workflows input clk db = (out, db')" "schema_ok db"
  defines "rows \<equiv> workflow_status db"
  defines "recent \<equiv> recent_starts input (clk 0) rows"
  obtains (none) "out = []" "db' = db"
  | (some) rows' where "db' = db\<lparr>workflow_status := rows'\<rparr>" "out \<noteq> []"
      "claim_loop input recent (\<lambda>n. clk (Suc n))
         (map ws_uuid (take (nat (task_budget input rows)) (candidates input rows))) [] rows = (out, rows')"
      "map dw_id out = take (admitted input recent 0 (min (nat (task_budget input rows))
         (length (candidates input rows)))) (map ws_uuid (candidates input rows))"
      "claimed_rows input (set (map dw_id out)) rows rows'" "0 < task_budget input rows"
      "\<not> rate_reached input recent 0"
proof (cases "rate_reached input recent 0 \<or> task_budget input rows \<le> 0")
  case True
  then show ?thesis
    using assms(1) none unfolding dequeue_unfold rows_def recent_def by (simp add: Let_def)
next
  case False
  let ?b = "nat (task_budget input rows)"
  let ?ids = "map ws_uuid (take ?b (candidates input rows))"
  obtain o' rows' where loop: "claim_loop input recent (\<lambda>n. clk (Suc n)) ?ids [] rows = (o', rows')"
    by fastforce
  have d: "distinct (map ws_uuid rows)" using assms(2) by (simp add: schema_defs rows_def)
  note c = candidates_props [OF d, where input = input]
  have "distinct ?ids" using c(1) by (simp add: take_map [symmetric] distinct_take)
  moreover have "\<exists>r. fetch ws_uuid i rows = Some r \<and> ws_status r = Enqueued" if "i \<in> set ?ids" for i
    using that c(3) by (auto dest!: in_set_takeD)
  ultimately have spec: "map dw_id o' = [] @ take (admitted input recent 0 (length ?ids)) ?ids
      \<and> claimed_rows input (set (take (admitted input recent 0 (length ?ids)) ?ids)) rows rows'"
    using claim_loop_spec [OF _ d _ loop refl] by simp
  have le: "admitted input recent n k \<le> k" for n k by (auto simp: admitted_def split: option.splits)
  have ids: "take (admitted input recent 0 (length ?ids)) ?ids
      = take (admitted input recent 0 (min ?b (length (candidates input rows))))
          (map ws_uuid (candidates input rows))"
    using le [of 0 "min ?b (length (candidates input rows))"]
    by (simp add: take_map [symmetric] min.commute)
  show ?thesis
  proof (cases "o' = []")
    case True
    then show ?thesis
      using assms(1) loop False none unfolding dequeue_unfold rows_def recent_def
      by (simp add: Let_def)
  next
    case no: False
    then have "out = o'" "db' = db\<lparr>workflow_status := rows'\<rparr>"
      using assms(1) loop False unfolding dequeue_unfold rows_def recent_def
      by (simp_all add: Let_def)
    with some [of rows'] no loop spec ids False show ?thesis by auto
  qed
qed

lemma claim_loop_evolution:
  assumes "schema_ok db" "claim_loop input recent clk ids out (workflow_status db) = (out', rows')"
    and "db' = db\<lparr>workflow_status := rows'\<rparr>"
  shows "schema_ok db' \<and> evolves db db' \<and> keeps_workflows db db'"
  using assms
proof (induction ids arbitrary: clk out db)
  case Nil
  then have "rows' = workflow_status db" by simp
  then have "db' = db" using Nil.prems(3) by simp
  with Nil.prems(1) show ?case by simp
next
  case (Cons i ids)
  consider "rows' = workflow_status db"
    | out1 where "claim_loop input recent (\<lambda>n. clk (Suc n)) ids out1 (workflow_status db) = (out', rows')"
    | out1 where "claim_loop input recent (\<lambda>n. clk (Suc n)) ids out1
        (update_where (\<lambda>r. ws_uuid r = i \<and> ws_status r = Enqueued) (claim input (clk 0))
          (workflow_status db)) = (out', rows')"
    using Cons.prems(2) by (auto split: if_splits option.splits)
  then show ?case
  proof cases
    case 1
    then have "db' = db" using Cons.prems(3) by simp
    with Cons.prems(1) show ?thesis by simp
  next
    case 2
    with Cons show ?thesis by blast
  next
    case 3
    let ?rows = "update_where (\<lambda>r. ws_uuid r = i \<and> ws_status r = Enqueued) (claim input (clk 0))
        (workflow_status db)"
    let ?m = "db\<lparr>workflow_status := ?rows\<rparr>"
    have m: "schema_ok ?m" "evolves db ?m" "keeps_workflows db ?m"
      using Cons.prems(1) claim_evolves
      by (auto intro!: schema_ok_update_ws evolves_update_ws keeps_update_ws)
    have "schema_ok db' \<and> evolves ?m db' \<and> keeps_workflows ?m db'"
      using Cons.IH [OF m(1), of "\<lambda>n. clk (Suc n)"] 3 Cons.prems(3) by simp
    with m show ?thesis by (blast intro: evolves_trans keeps_workflows_trans)
  qed
qed

lemma dequeue_evolution:
  assumes "schema_ok db" "db' = snd (dequeue_workflows input clk db)"
  shows "schema_ok db' \<and> evolves db db' \<and> keeps_workflows db db'"
proof -
  have "dequeue_workflows input clk db = (fst (dequeue_workflows input clk db), db')"
    by (simp add: assms(2))
  then show ?thesis using assms(1)
  proof (cases rule: dequeue_cases)
    case none
    with assms(1) show ?thesis by simp
  next
    case (some rows')
    show ?thesis by (rule claim_loop_evolution [OF assms(1) some(3,1)])
  qed
qed

interpretation dequeue: keeping_op "\<lambda>db. snd (dequeue_workflows input clk db)" for input clk
  by unfold_locales (use dequeue_evolution in auto)

lemma clear_evolution:
  assumes "schema_ok db" "db' = snd (clear_queue_assignment i db)"
  shows "schema_ok db' \<and> evolves db db' \<and> keeps_workflows db db'"
  using assms(1) unfolding assms(2) clear_queue_assignment_def Let_def snd_conv
  by (intro conjI schema_ok_update_ws evolves_update_ws keeps_update_ws)
    (auto simp: dedup_slot_def row_evolves_def intro: status_move.cleared)

interpretation clear_queue: keeping_op "\<lambda>db. snd (clear_queue_assignment i db)" for i
  by unfold_locales (use clear_evolution in auto)

lemma transition_evolution:
  assumes "schema_ok db" "db' = transition_delayed_workflows now db"
  shows "schema_ok db' \<and> evolves db db' \<and> keeps_workflows db db'"
  using assms(1) unfolding assms(2) transition_delayed_workflows_def
  by (intro conjI schema_ok_update_ws evolves_update_ws keeps_update_ws)
    (auto simp: dedup_slot_def row_evolves_def intro: status_move.released split: option.splits)

interpretation transition_delayed: keeping_op "transition_delayed_workflows now" for now
  by unfold_locales (use transition_evolution in auto)

subsection \<open>Correctness of the queues\<close>

lemma dequeue_length:
  assumes "dequeue_workflows input clk db = (out, db')" "schema_ok db"
  shows "int (length out) \<le> max 0 (task_budget input (workflow_status db))"
  using assms
proof (cases rule: dequeue_cases)
  case (some rows')
  have "length out \<le> nat (task_budget input (workflow_status db))"
    using arg_cong [OF some(4), of length]
    by (auto simp: admitted_def split: option.splits)
  then show ?thesis by simp
qed simp

lemma dequeue_count:
  assumes "dequeue_workflows input clk db = (out, db')" "schema_ok db"
  shows "count_where P (workflow_status db') \<le> count_where P (workflow_status db) + int (length out)"
  using assms
proof (cases rule: dequeue_cases)
  case (some rows')
  with claim_loop_count [OF _ some(3), of P] assms(2) show ?thesis by (simp add: schema_defs)
qed simp

text \<open>C6. Dequeuing respects every limit of the queue: what a worker runs locally stays within
  \<open>worker_concurrency\<close> (or the claim within \<open>max_tasks\<close> when there is none), the pending
  workflows of the queue within \<open>global_concurrency\<close>, and the starts in the rate limiter's window
  within its limit; a limit exceeded already admits nothing.\<close>

theorem dequeue_respects_limits:
  assumes "schema_ok db" "dequeue_workflows input clk db = (out, db')"
  shows "(case dq_worker_concurrency input of
           None \<Rightarrow> int (length out) \<le> max 0 (dq_max_tasks input)
         | Some wc \<Rightarrow> dq_local_running input + int (length out) \<le> max wc (dq_local_running input))
    \<and> (case dq_global_concurrency input of
           None \<Rightarrow> True
         | Some gc \<Rightarrow> count_where (pending_in_queue input) (workflow_status db')
                    \<le> max gc (count_where (pending_in_queue input) (workflow_status db)))
    \<and> (case dq_rate_limit input of
           None \<Rightarrow> True
         | Some (limit, period) \<Rightarrow>
             count_where (in_window input (clk 0 - period)) (workflow_status db')
             \<le> max limit (count_where (in_window input (clk 0 - period)) (workflow_status db)))"
proof (intro conjI)
  note len = dequeue_length [OF assms(2,1)]
  note cnt = dequeue_count [OF assms(2,1)]
  show "case dq_worker_concurrency input of
      None \<Rightarrow> int (length out) \<le> max 0 (dq_max_tasks input)
    | Some wc \<Rightarrow> dq_local_running input + int (length out) \<le> max wc (dq_local_running input)"
    using len by (auto simp: task_budget_def Let_def split: option.splits)
  show "case dq_global_concurrency input of
      None \<Rightarrow> True
    | Some gc \<Rightarrow> count_where (pending_in_queue input) (workflow_status db')
               \<le> max gc (count_where (pending_in_queue input) (workflow_status db))"
    using len cnt [of "pending_in_queue input"]
    by (auto simp: task_budget_def Let_def split: option.splits)
  show "case dq_rate_limit input of
      None \<Rightarrow> True
    | Some (limit, period) \<Rightarrow>
        count_where (in_window input (clk 0 - period)) (workflow_status db')
        \<le> max limit (count_where (in_window input (clk 0 - period)) (workflow_status db))"
    using assms(2,1)
  proof (cases rule: dequeue_cases)
    case none
    then show ?thesis by (auto split: option.splits)
  next
    case (some rows')
    let ?n = "admitted input (recent_starts input (clk 0) (workflow_status db)) 0
        (min (nat (task_budget input (workflow_status db)))
          (length (candidates input (workflow_status db))))"
    have "length out \<le> ?n" using arg_cong [OF some(4), of length] by simp
    then have "count_where (in_window input (clk 0 - p)) (workflow_status db') \<le> l"
      if "dq_rate_limit input = Some (l, p)" for l p
      using cnt [of "in_window input (clk 0 - p)"] some(7) that
      by (simp add: admitted_def recent_starts_def rate_reached_def) linarith
    then show ?thesis by (auto split: option.splits)
  qed
qed

definition sample_dequeue :: dequeue_input where
  "sample_dequeue =
     \<lparr>dq_queue_name = ''q'', dq_global_concurrency = Some 2, dq_worker_concurrency = None,
      dq_rate_limit = Some (3, 1000), dq_max_tasks = 5, dq_local_running = 0,
      dq_application_version = ''v1'', dq_executor_id = ''e1''\<rparr>"

lemma dequeue_respects_limits_witness:
  "count_where (pending_in_queue sample_dequeue)
     (workflow_status (snd (dequeue_workflows sample_dequeue (\<lambda>n. 2000 + int n) sample_db))) \<le> 2"
  using dequeue_respects_limits [OF sample_schema, of sample_dequeue "\<lambda>n. 2000 + int n"
      "fst (dequeue_workflows sample_dequeue (\<lambda>n. 2000 + int n) sample_db)"
      "snd (dequeue_workflows sample_dequeue (\<lambda>n. 2000 + int n) sample_db)"]
  by (simp add: sample_dequeue_def pending_in_queue_def sample_simps)



lemma dequeue_claimed:
  assumes "dequeue_workflows input clk db = (out, db')" "schema_ok db"
  shows "claimed_rows input (set (map dw_id out)) (workflow_status db) (workflow_status db')"
  using assms
proof (cases rule: dequeue_cases)
  case none
  then show ?thesis by (simp add: claimed_rows_def)
next
  case (some rows')
  from some(5) show ?thesis unfolding some(1) by simp
qed

text \<open>Two queue workers that dequeue one after the other never claim the same workflow.\<close>

lemma dequeue_disjoint:
  assumes "schema_ok db" "dequeue_workflows in1 clk1 db = (out1, db1)"
    and "dequeue_workflows in2 clk2 db1 = (out2, db2)"
  shows "set (map dw_id out1) \<inter> set (map dw_id out2) = {}"
proof -
  have ok: "schema_ok db1" using dequeue_evolution [OF assms(1), of db1 in1 clk1] assms(2) by simp
  have "\<exists>r. wf_row db1 j = Some r \<and> ws_status r = Pending" if "j \<in> set (map dw_id out1)" for j
    using dequeue_claimed [OF assms(2,1)] that claim_simps(2) unfolding claimed_rows_def by blast
  moreover have "\<exists>r. wf_row db1 j = Some r \<and> ws_status r = Enqueued" if "j \<in> set (map dw_id out2)" for j
    using dequeue_claimed [OF assms(3) ok] that unfolding claimed_rows_def by blast
  ultimately show ?thesis by fastforce
qed

end
