(* ===== verification/Store_List.thy ===== *)
theory Store_List
  imports Samples "HOL-Library.Multiset"
begin

text \<open>
  Reading workflows back (\<open>db/sqlite.rs\<close>): \<open>list_workflows\<close> with its filters, order and page,
  \<open>row_to_status\<close>, \<open>get_workflow_status\<close>, \<open>get_workflow_children\<close>, \<open>get_workflow_status_counts\<close>
  and the polling of \<open>await_workflow_result\<close>.  The status column is typed here, so the parse that
  \<open>row_to_status\<close> starts with cannot fail.
\<close>

subsection \<open>Rows as the API returns them\<close>

definition row_to_status :: "ws_row \<Rightarrow> bool \<Rightarrow> bool \<Rightarrow> workflow_status_view" where
  "row_to_status r load_input load_output =
     \<lparr>wv_id = ws_uuid r, wv_status = ws_status r, wv_name = ws_name r,
      wv_authenticated_user = ws_authenticated_user r, wv_assumed_role = ws_assumed_role r,
      wv_authenticated_roles = ws_authenticated_roles r,
      wv_output = (if load_output then ws_output r else None),
      wv_error = (if load_output then non_empty_opt (ws_error r) else None),
      wv_executor_id = unwrap_or_default (ws_executor_id r), wv_created_at_ms = ws_created_at r,
      wv_updated_at_ms = ws_updated_at r,
      wv_application_version = unwrap_or_default (ws_application_version r),
      wv_application_id = ws_application_id r, wv_attempts = ws_recovery_attempts r,
      wv_queue_name = unwrap_or_default (ws_queue_name r),
      wv_timeout_ms = unwrap_or (ws_timeout_ms r) 0, wv_deadline_ms = ws_deadline_ms r,
      wv_started_at_ms = ws_started_at r,
      wv_deduplication_id = unwrap_or_default (ws_dedup_id r),
      wv_input = (if load_input then ws_inputs r else None), wv_priority = ws_priority r,
      wv_queue_partition_key = unwrap_or_default (ws_partition_key r),
      wv_forked_from = unwrap_or_default (ws_forked_from r),
      wv_was_forked_from = ws_was_forked_from r,
      wv_parent_workflow_id = unwrap_or_default (ws_parent_id r),
      wv_completed_at_ms = ws_completed_at r, wv_class_name = unwrap_or_default (ws_class_name r),
      wv_config_name = ws_config_name r, wv_serialization = ws_serialization r,
      wv_delay_until_ms = ws_delay_until r\<rparr>"

text \<open>\<open>col IN (...)\<close>, left out when the list is empty; a NULL column is in no list.\<close>

definition any_of :: "'a list \<Rightarrow> 'a option \<Rightarrow> bool" where
  "any_of vals col \<longleftrightarrow> vals = [] \<or> (case col of None \<Rightarrow> False | Some x \<Rightarrow> x \<in> set vals)"

definition list_matches :: "list_input \<Rightarrow> ws_row \<Rightarrow> bool" where
  "list_matches input r \<longleftrightarrow>
     any_of (li_workflow_ids input) (Some (ws_uuid r))
     \<and> any_of (li_workflow_name input) (Some (ws_name r))
     \<and> any_of (li_status input) (Some (ws_status r))
     \<and> any_of (li_executor_ids input) (ws_executor_id r)
     \<and> any_of (li_application_version input) (ws_application_version r)
     \<and> (li_queues_only input \<longrightarrow> ws_queue_name r \<noteq> None)"

text \<open>SQLite reads a negative LIMIT as none and a negative OFFSET as zero.\<close>

definition page :: "int option \<Rightarrow> int option \<Rightarrow> 'a list \<Rightarrow> 'a list" where
  "page limit offset rows =
     (let rest = drop (nat (unwrap_or offset 0)) rows in
      case limit of None \<Rightarrow> rest | Some l \<Rightarrow> if l < 0 then rest else take (nat l) rest)"

definition list_workflows :: "list_input \<Rightarrow> sysdb \<Rightarrow> workflow_status_view list" where
  "list_workflows input db =
     map (\<lambda>r. row_to_status r (li_load_input input) (li_load_output input))
       (page (li_limit input) (li_offset input)
         (sort_key (\<lambda>r. if li_sort_desc input then - ws_created_at r else ws_created_at r)
           (filter (list_matches input) (workflow_status db))))"

definition li_default :: list_input where
  "li_default =
     \<lparr>li_workflow_ids = [], li_workflow_name = [], li_status = [], li_executor_ids = [],
      li_application_version = [], li_queues_only = False, li_limit = None, li_offset = None,
      li_sort_desc = False, li_load_input = False, li_load_output = False\<rparr>"

definition get_workflow_status :: "string \<Rightarrow> sysdb \<Rightarrow> workflow_status_view option" where
  "get_workflow_status i db =
     (case list_workflows
             (li_default\<lparr>li_workflow_ids := [i], li_load_input := True, li_load_output := True\<rparr>) db of
        [] \<Rightarrow> None | v # _ \<Rightarrow> Some v)"

definition get_workflow_children :: "string \<Rightarrow> sysdb \<Rightarrow> string list" where
  "get_workflow_children i db =
     map ws_uuid (filter (\<lambda>r. ws_parent_id r = Some i) (workflow_status db))"

definition get_workflow_status_counts :: "sysdb \<Rightarrow> (string \<times> int) list" where
  "get_workflow_status_counts db =
     map (\<lambda>s. (as_str s, count_where (\<lambda>r. ws_status r = s) (workflow_status db)))
       (remdups (map ws_status (workflow_status db)))"

subsection \<open>Waiting for a result\<close>

text \<open>One poll: the decision \<open>await_workflow_result\<close> takes on the row it reads, if any.\<close>

definition await_poll :: "string \<Rightarrow> sysdb \<Rightarrow> await_result res option" where
  "await_poll i db =
     (case wf_row db i of
        None \<Rightarrow> None
      | Some r \<Rightarrow>
          (case ws_status r of
             Success \<Rightarrow> Some (Inr \<lparr>aw_output = ws_output r, aw_error = non_empty_opt (ws_error r),
                                  aw_serialization = ws_serialization r\<rparr>)
           | Error \<Rightarrow> Some (Inr \<lparr>aw_output = ws_output r, aw_error = non_empty_opt (ws_error r),
                                aw_serialization = ws_serialization r\<rparr>)
           | Cancelled \<Rightarrow> Some (Inl (awaited_workflow_cancelled i))
           | MaxRecoveryAttemptsExceeded \<Rightarrow>
               Some (Inl (dead_letter_queue i (ws_recovery_attempts r - 2)))
           | _ \<Rightarrow> None))"

text \<open>
  The loop; \<open>obs n\<close> is the database at the \<open>n\<close>-th poll, the fuel bounds the number of polls.
\<close>

fun await_workflow_result :: "nat \<Rightarrow> string \<Rightarrow> (nat \<Rightarrow> sysdb) \<Rightarrow> await_result res option" where
  "await_workflow_result 0 i obs = None"
| "await_workflow_result (Suc n) i obs =
     (case await_poll i (obs 0) of
        None \<Rightarrow> await_workflow_result n i (\<lambda>k. obs (Suc k))
      | Some r \<Rightarrow> Some r)"

subsection \<open>Their meaning\<close>

lemma list_workflows_unpaged:
  assumes "li_limit input = None" "li_offset input = None"
  shows "set (list_workflows input db)
       = (\<lambda>r. row_to_status r (li_load_input input) (li_load_output input))
           ` {r \<in> set (workflow_status db). list_matches input r}"
  using assms by (auto simp: list_workflows_def page_def)

lemma filter_uuid:
  "distinct (map ws_uuid rows) \<Longrightarrow>
   filter (\<lambda>r. ws_uuid r = i) rows = (case fetch ws_uuid i rows of None \<Rightarrow> [] | Some r \<Rightarrow> [r])"
proof (induction rows)
  case (Cons a rows)
  then show ?case
  proof (cases "ws_uuid a = i")
    case True
    with Cons.prems have "fetch ws_uuid i rows = None" by (auto simp: fetch_None_iff) (metis imageI)
    with Cons True show ?thesis by (simp add: fetch_Cons)
  qed (simp add: fetch_Cons)
qed simp

lemma get_workflow_status_eq:
  assumes "schema_ok db"
  shows "get_workflow_status i db = map_option (\<lambda>r. row_to_status r True True) (wf_row db i)"
proof -
  let ?q = "li_default\<lparr>li_workflow_ids := [i], li_load_input := True, li_load_output := True\<rparr>"
  have m: "list_matches ?q = (\<lambda>r. ws_uuid r = i)"
    by (rule ext) (auto simp: list_matches_def any_of_def li_default_def)
  have q: "li_limit ?q = None" "li_offset ?q = None" "li_load_input ?q" "li_load_output ?q"
    by (simp_all add: li_default_def)
  have "list_workflows ?q db = (case wf_row db i of None \<Rightarrow> [] | Some r \<Rightarrow> [row_to_status r True True])"
    unfolding list_workflows_def m page_def q
    using filter_uuid [OF schema_ok_distinct_ws [OF assms], of i] by (auto simp: q split: option.splits)
  then show ?thesis by (auto simp: get_workflow_status_def split: option.splits)
qed

lemma await_first_decided:
  "await_workflow_result n i obs
   = (case List.find (\<lambda>k. await_poll i (obs k) \<noteq> None) [0..<n] of
        None \<Rightarrow> None | Some k \<Rightarrow> await_poll i (obs k))"
proof (induction n arbitrary: obs)
  case (Suc n)
  have up: "[0..<Suc n] = 0 # map Suc [0..<n]" by (simp add: upt_conv_Cons map_Suc_upt)
  have fm: "List.find P (map Suc xs) = map_option Suc (List.find (\<lambda>k. P (Suc k)) xs)" for P xs
    by (induction xs) auto
  show ?case
    by (simp add: up fm Suc.IH del: upt_Suc split: option.split)
qed simp

subsection \<open>Correctness\<close>



text \<open>Awaiting a workflow returns exactly when some poll finds it decided, with the outcome
  that poll read: the stored output or error of a finished workflow, AwaitedWorkflowCancelled for a
  cancelled one, DeadLetterQueue for a parked one; a pending, queued, delayed or unknown workflow
  is never an answer.\<close>

theorem await_returns_first_outcome:
  "(await_workflow_result n i obs \<noteq> None
      \<longleftrightarrow> (\<exists>k<n. \<exists>r. wf_row (obs k) i = Some r
            \<and> (is_terminal (ws_status r) \<or> ws_status r = MaxRecoveryAttemptsExceeded)))
   \<and> (\<forall>res. await_workflow_result n i obs = Some res \<longrightarrow>
        (\<exists>k<n. await_poll i (obs k) = Some res \<and> (\<forall>j<k. await_poll i (obs j) = None)))"
proof
  have decided: "await_poll i db \<noteq> None \<longleftrightarrow> (\<exists>r. wf_row db i = Some r
      \<and> (is_terminal (ws_status r) \<or> ws_status r = MaxRecoveryAttemptsExceeded))" for db
    by (auto simp: await_poll_def is_terminal_def split: option.splits workflow_status_type.splits)
  have f: "List.find P [0..<n] = Some k \<longleftrightarrow> k < n \<and> P k \<and> (\<forall>j<k. \<not> P j)"
    "List.find P [0..<n] = None \<longleftrightarrow> (\<forall>j<n. \<not> P j)" for P k
    by (auto simp: find_Some_iff find_None_iff)
  show "await_workflow_result n i obs \<noteq> None
      \<longleftrightarrow> (\<exists>k<n. \<exists>r. wf_row (obs k) i = Some r
            \<and> (is_terminal (ws_status r) \<or> ws_status r = MaxRecoveryAttemptsExceeded))"
    using f unfolding await_first_decided decided [symmetric] by (auto split: option.splits)
  show "\<forall>res. await_workflow_result n i obs = Some res \<longrightarrow>
        (\<exists>k<n. await_poll i (obs k) = Some res \<and> (\<forall>j<k. await_poll i (obs j) = None))"
    using f unfolding await_first_decided by (auto split: option.splits)
qed

lemma await_returns_first_outcome_witness:
  "await_workflow_result 1 ''w3'' (\<lambda>_. sample_db) \<noteq> None
   \<and> await_workflow_result 5 ''w2'' (\<lambda>_. sample_db) = None"
  using await_returns_first_outcome [of 1 "''w3''" "\<lambda>_. sample_db"]
    await_returns_first_outcome [of 5 "''w2''" "\<lambda>_. sample_db"]
  by (simp add: sample_simps)

end
