(* ===== verification/Store_Manage.thy ===== *)
theory Store_Manage
  imports Store_List Store_Queue
begin

text \<open>
  The management operations of \<open>db/sqlite.rs\<close>: cancel, resume, delete (with the cascade of the
  foreign keys), fork, garbage collection, \<open>set_workflow_status_pending\<close>, and the step counts.
\<close>

subsection \<open>Cancel and resume\<close>

definition DBOS_INTERNAL_QUEUE_NAME :: string where
  "DBOS_INTERNAL_QUEUE_NAME = ''_dbos_internal_queue''"

definition cancel_row :: "int \<Rightarrow> ws_row \<Rightarrow> ws_row" where
  "cancel_row now r =
     r\<lparr>ws_status := Cancelled, ws_updated_at := now, ws_completed_at := Some now,
       ws_started_at := None, ws_queue_name := None, ws_dedup_id := None\<rparr>"

definition cancel_workflow :: "string \<Rightarrow> int \<Rightarrow> sysdb \<Rightarrow> bool \<times> sysdb" where
  "cancel_workflow i now db =
     (let db' = db\<lparr>workflow_status :=
            update_where (\<lambda>r. ws_uuid r = i \<and> ws_status r \<notin> {Success, Error, Cancelled})
              (cancel_row now) (workflow_status db)\<rparr>
      in (wf_exists db' i, db'))"

definition resume_row :: "int \<Rightarrow> ws_row \<Rightarrow> ws_row" where
  "resume_row now r =
     r\<lparr>ws_status := Enqueued, ws_queue_name := Some DBOS_INTERNAL_QUEUE_NAME,
       ws_recovery_attempts := 0, ws_deadline_ms := None, ws_dedup_id := None,
       ws_started_at := None, ws_updated_at := now, ws_completed_at := None\<rparr>"

definition resume_workflow :: "string \<Rightarrow> int \<Rightarrow> sysdb \<Rightarrow> sysdb" where
  "resume_workflow i now db =
     db\<lparr>workflow_status :=
       update_where (\<lambda>r. ws_uuid r = i \<and> ws_status r \<notin> {Success, Error}) (resume_row now)
         (workflow_status db)\<rparr>"

definition set_workflow_status_pending :: "string \<Rightarrow> int \<Rightarrow> sysdb \<Rightarrow> sysdb" where
  "set_workflow_status_pending i now db =
     db\<lparr>workflow_status :=
       update_where (\<lambda>r. ws_uuid r = i)
         (\<lambda>r. r\<lparr>ws_status := Pending, ws_output := None, ws_error := None, ws_started_at := None,
                 ws_updated_at := now\<rparr>) (workflow_status db)\<rparr>"

subsection \<open>Deletion\<close>

text \<open>\<open>DELETE FROM workflow_status WHERE P\<close>; ON DELETE CASCADE removes the dependent rows.\<close>

definition delete_cascade :: "(ws_row \<Rightarrow> bool) \<Rightarrow> sysdb \<Rightarrow> sysdb" where
  "delete_cascade P db =
     (let gone = map ws_uuid (filter P (workflow_status db)) in
      db\<lparr>workflow_status := delete_where P (workflow_status db),
         operation_outputs := delete_where (\<lambda>r. op_workflow r \<in> set gone) (operation_outputs db),
         notifications := delete_where (\<lambda>r. nt_destination r \<in> set gone) (notifications db),
         workflow_events := delete_where (\<lambda>r. ev_workflow r \<in> set gone) (workflow_events db),
         workflow_events_history :=
           delete_where (\<lambda>r. eh_workflow r \<in> set gone) (workflow_events_history db),
         streams := delete_where (\<lambda>r. st_workflow r \<in> set gone) (streams db)\<rparr>)"

definition delete_workflow_row :: "string \<Rightarrow> sysdb \<Rightarrow> sysdb" where
  "delete_workflow_row i db = delete_cascade (\<lambda>r. ws_uuid r = i) db"

definition older_than :: "int \<Rightarrow> ws_row \<Rightarrow> bool" where
  "older_than cutoff r \<longleftrightarrow>
     ws_status r \<in> {Success, Error, Cancelled}
     \<and> unwrap_or (ws_completed_at r) (ws_updated_at r) < cutoff"

definition beyond_threshold :: "int \<Rightarrow> ws_row list \<Rightarrow> string list" where
  "beyond_threshold n rows =
     map ws_uuid (drop (nat n) (sort_key (\<lambda>r. - ws_created_at r)
       (filter (\<lambda>r. ws_status r \<in> {Success, Error, Cancelled}) rows)))"

definition garbage_collect :: "int option \<Rightarrow> int option \<Rightarrow> sysdb \<Rightarrow> int \<times> sysdb" where
  "garbage_collect cutoff threshold db =
     (let (n1, db1) = (case cutoff of
            None \<Rightarrow> (0, db)
          | Some c \<Rightarrow> (count_where (older_than c) (workflow_status db), delete_cascade (older_than c) db))
      in case threshold of
           None \<Rightarrow> (n1, db1)
         | Some t \<Rightarrow>
             let ids = beyond_threshold t (workflow_status db1);
                 P = (\<lambda>r. ws_uuid r \<in> set ids)
             in (n1 + count_where P (workflow_status db1), delete_cascade P db1))"

subsection \<open>Fork\<close>

definition forked_row :: "workflow_status_view \<Rightarrow> string \<Rightarrow> string \<Rightarrow> string \<Rightarrow> string \<Rightarrow> int \<Rightarrow> ws_row" where
  "forked_row orig original forked_id app_version queue now =
     \<lparr>ws_uuid = forked_id, ws_status = Enqueued, ws_name = wv_name orig,
      ws_authenticated_user = wv_authenticated_user orig, ws_assumed_role = wv_assumed_role orig,
      ws_authenticated_roles = wv_authenticated_roles orig, ws_output = None, ws_error = None,
      ws_executor_id = None, ws_created_at = now, ws_updated_at = now,
      ws_application_version = Some app_version, ws_application_id = wv_application_id orig,
      ws_class_name = opt_str (wv_class_name orig), ws_config_name = wv_config_name orig,
      ws_recovery_attempts = 0, ws_queue_name = Some queue, ws_timeout_ms = None,
      ws_deadline_ms = None, ws_inputs = wv_input orig, ws_started_at = None, ws_dedup_id = None,
      ws_priority = 0, ws_partition_key = None, ws_forked_from = Some original,
      ws_owner_xid = None, ws_parent_id = None, ws_serialization = wv_serialization orig,
      ws_delay_until = None, ws_was_forked_from = False, ws_rate_limited = False,
      ws_completed_at = None\<rparr>"

definition copied_steps :: "string \<Rightarrow> string \<Rightarrow> int \<Rightarrow> op_row list \<Rightarrow> op_row list" where
  "copied_steps original forked_id start_step rows =
     map (\<lambda>r. r\<lparr>op_workflow := forked_id\<rparr>)
       (filter (\<lambda>r. op_workflow r = original \<and> op_function_id r < start_step) rows)"

text \<open>
  \<open>new_uuid\<close> is the id generated when none is given.  The copied steps cannot collide: the foreign
  key leaves no step of the new id before the insert.
\<close>

definition fork_workflow :: "fork_input \<Rightarrow> string \<Rightarrow> int \<Rightarrow> sysdb \<Rightarrow> string res \<times> sysdb" where
  "fork_workflow input new_uuid now db =
     (if fk_start_step input < 0
      then (Inl (error_new WorkflowExecution
              (''startStep must be >= 0, got '' @ show_int (fk_start_step input))), db)
      else
        let forked_id = unwrap_or (fk_forked input) new_uuid;
            queue = unwrap_or (fk_queue_name input) DBOS_INTERNAL_QUEUE_NAME
        in case get_workflow_status (fk_original input) db of
             None \<Rightarrow> (Inl (non_existent_workflow (fk_original input)), db)
           | Some orig \<Rightarrow>
               let app_version = unwrap_or (fk_application_version input) (wv_application_version orig)
               in if wf_exists db forked_id
                  then (Inl (sql_err ''failed to insert forked workflow'' (violation db UniqueViolation)), db)
                  else
                    let rows = update_where (\<lambda>r. ws_uuid r = fk_original input)
                          (\<lambda>r. r\<lparr>ws_was_forked_from := True\<rparr>)
                          (workflow_status db @
                             [forked_row orig (fk_original input) forked_id app_version queue now]);
                        ops = (if fk_start_step input > 0
                          then operation_outputs db @
                            copied_steps (fk_original input) forked_id (fk_start_step input)
                              (operation_outputs db)
                          else operation_outputs db)
                    in (Inr forked_id, db\<lparr>workflow_status := rows, operation_outputs := ops\<rparr>))"

definition get_step_aggregates :: "sysdb \<Rightarrow> (string \<times> int) list" where
  "get_step_aggregates db =
     map (\<lambda>n. (n, count_where (\<lambda>r. op_function_name r = n) (operation_outputs db)))
       (remdups (map op_function_name (operation_outputs db)))"

subsection \<open>The contracts\<close>

lemma cancel_evolution:
  assumes "schema_ok db" "db' = snd (cancel_workflow i now db)"
  shows "schema_ok db' \<and> evolves db db' \<and> keeps_workflows db db'"
  using assms(1) unfolding assms(2) cancel_workflow_def Let_def snd_conv cancel_row_def
  by (intro conjI schema_ok_update_ws evolves_update_ws keeps_update_ws)
    (auto simp: dedup_slot_def row_evolves_def intro: status_move.cancelled)

interpretation cancel: keeping_op "\<lambda>db. snd (cancel_workflow i now db)" for i now
  by unfold_locales (use cancel_evolution in auto)

lemma resume_evolution:
  assumes "schema_ok db" "db' = resume_workflow i now db"
  shows "schema_ok db' \<and> evolves db db' \<and> keeps_workflows db db'"
  using assms(1) unfolding assms(2) resume_workflow_def resume_row_def
  by (intro conjI schema_ok_update_ws evolves_update_ws keeps_update_ws)
    (auto simp: dedup_slot_def row_evolves_def intro: status_move.resumed)

interpretation resume: keeping_op "resume_workflow i now" for i now
  by unfold_locales (use resume_evolution in auto)

lemma dedup_unique_subset: "dedup_unique rows \<Longrightarrow> set rows' \<subseteq> set rows \<Longrightarrow> dedup_unique rows'"
  unfolding dedup_unique_def by blast

lemma refs_after_delete:
  "f ` set rows \<subseteq> ws_uuid ` set ws \<Longrightarrow>
   f ` {r \<in> set rows. f r \<notin> ws_uuid ` {w \<in> set ws. P w}} \<subseteq> ws_uuid ` {w \<in> set ws. \<not> P w}"
  by blast

lemma delete_cascade_schema:
  assumes "schema_ok db"
  shows "schema_ok (delete_cascade P db)"
proof -
  have "dedup_unique (delete_where P (workflow_status db))"
    using assms by (auto simp: schema_defs intro: dedup_unique_subset)
  moreover have "refs_ok (delete_cascade P db)"
    using assms unfolding schema_defs delete_cascade_def Let_def
    by (simp add: refs_after_delete)
  ultimately show ?thesis
    using assms by (simp add: schema_ok_def keys_ok_def delete_cascade_def Let_def distinct_map_delete_where)
qed

lemma delete_cascade_ws [simp]:
  "workflow_status (delete_cascade P db) = delete_where P (workflow_status db)"
  by (simp add: delete_cascade_def Let_def)

lemma delete_cascade_evolves:
  assumes "schema_ok db"
  shows "evolves db (delete_cascade P db)"
  unfolding evolves_def
proof (intro conjI allI impI)
  have d: "distinct (map ws_uuid (workflow_status db))" "distinct (map op_key (operation_outputs db))"
    using assms by (simp_all add: schema_defs)
  fix i
  show "row_evolves r r'" if "wf_row db i = Some r" "wf_row (delete_cascade P db) i = Some r'" for r r'
    using that d(1) by (auto simp: fetch_delete_where split: if_splits)
  fix k r
  assume e: "wf_exists db i" "wf_exists (delete_cascade P db) i" "op_of db i k = Some r"
  then obtain w where w: "wf_row db i = Some w" "\<not> P w"
    using d(1) by (auto simp: fetch_delete_where split: if_splits)
  have "op_workflow r = i" using e(3) by (auto dest: fetch_SomeD)
  moreover have "i \<notin> ws_uuid ` {r \<in> set (workflow_status db). P r}"
    using w d(1) by (auto simp: fetch_Some_iff_distinct distinct_map inj_on_def)
  ultimately show "op_of (delete_cascade P db) i k = Some r"
    using e(3) d(2) by (auto simp: delete_cascade_def Let_def fetch_delete_where)
qed

interpretation delete: store_op "delete_workflow_row i" for i
  by unfold_locales (simp_all add: delete_workflow_row_def delete_cascade_schema delete_cascade_evolves)

lemma delete_twice_evolves:
  assumes "schema_ok db"
  shows "evolves db (delete_cascade Q (delete_cascade P db))"
proof -
  let ?m = "delete_cascade P db"
  have m: "schema_ok ?m" "evolves db ?m" "evolves ?m (delete_cascade Q ?m)"
    using assms delete_cascade_schema delete_cascade_evolves by blast+
  have sub: "wf_exists ?m i" if "wf_exists (delete_cascade Q ?m) i" for i
    using that schema_ok_distinct_ws [OF m(1)] by (auto simp: fetch_delete_where split: option.splits)
  show ?thesis
    unfolding evolves_def
  proof (intro conjI allI impI)
    fix i r r'
    assume r: "wf_row db i = Some r" "wf_row (delete_cascade Q ?m) i = Some r'"
    then obtain x where "wf_row ?m i = Some x" using sub [of i] by auto
    with r m(2,3) show "row_evolves r r'" by (meson evolves_row row_evolves_trans)
  next
    fix i k r
    assume "wf_exists db i" "wf_exists (delete_cascade Q ?m) i" "op_of db i k = Some r"
    with sub [of i] m(2,3) show "op_of (delete_cascade Q ?m) i k = Some r" by (blast intro: evolves_op)
  qed
qed

interpretation gc: store_op "\<lambda>db. snd (garbage_collect cutoff threshold db)" for cutoff threshold
  by unfold_locales
    (auto simp: garbage_collect_def Let_def delete_cascade_schema delete_cascade_evolves
      delete_twice_evolves split: option.splits)

subsection \<open>Fork\<close>

lemma op_of_copied:
  "op_of db i k = None \<Longrightarrow> fetch op_key (i, k) (copied_steps o' f s ops)
     = (if i = f \<and> k < s then map_option (\<lambda>r. r\<lparr>op_workflow := f\<rparr>) (fetch op_key (o', k) ops) else None)"
  by (induction ops) (auto simp: copied_steps_def fetch_Cons)

lemma no_steps_without_workflow:
  assumes "schema_ok db" "wf_row db i = None"
  shows "op_of db i k = None"
proof -
  have "i \<notin> ws_uuid ` set (workflow_status db)"
    using assms(2) wf_exists_iff by blast
  then have "i \<notin> op_workflow ` set (operation_outputs db)"
    using assms(1) by (auto simp: schema_defs)
  then show ?thesis by (auto simp: fetch_None_iff)
qed

lemma schema_ok_insert_ops:
  assumes "schema_ok db" "\<And>n. n \<in> set ns \<Longrightarrow> wf_exists db (op_workflow n)"
    and "\<And>n. n \<in> set ns \<Longrightarrow> op_of db (op_workflow n) (op_function_id n) = None"
    and "distinct (map op_key ns)"
  shows "schema_ok (db\<lparr>operation_outputs := operation_outputs db @ ns\<rparr>)"
proof -
  have "op_key ` set (operation_outputs db) \<inter> op_key ` set ns = {}"
  proof -
    have "op_key n \<notin> op_key ` set (operation_outputs db)" if "n \<in> set ns" for n
      using assms(3) [OF that] by (auto simp: fetch_None_iff)
    then have "x \<notin> op_key ` set (operation_outputs db)" if "x \<in> op_key ` set ns" for x
      using that by (elim imageE) simp
    then show ?thesis unfolding disjoint_iff by (metis (no_types))
  qed
  moreover have "op_workflow ` set ns \<subseteq> ws_uuid ` set (workflow_status db)"
    using assms(2) wf_exists_iff by blast
  ultimately show ?thesis using assms(1,4) by (simp add: schema_defs image_Un)
qed

lemma distinct_copied:
  "distinct (map op_key rows) \<Longrightarrow> distinct (map op_key (copied_steps orig f s rows))"
proof (induction rows)
  case (Cons a rows)
  have "(f, op_function_id a) \<notin> set (map op_key (copied_steps orig f s rows))" if "op_workflow a = orig"
  proof
    assume "(f, op_function_id a) \<in> set (map op_key (copied_steps orig f s rows))"
    then obtain b where "b \<in> set rows" "op_workflow b = orig" "op_function_id b = op_function_id a"
      by (auto simp: copied_steps_def)
    then have "op_key b \<in> op_key ` set rows" by (intro imageI)
    then have "op_key a \<in> set (map op_key rows)"
      using that \<open>op_workflow b = orig\<close> \<open>op_function_id b = op_function_id a\<close> by simp
    with Cons.prems show False by simp
  qed
  with Cons show ?case by (simp add: copied_steps_def)
qed (simp add: copied_steps_def)

definition fork_insert :: "fork_input \<Rightarrow> ws_row \<Rightarrow> sysdb \<Rightarrow> sysdb" where
  "fork_insert input n db =
     (let db1 = db\<lparr>workflow_status := workflow_status db @ [n]\<rparr>;
          db2 = db1\<lparr>workflow_status := update_where (\<lambda>r. ws_uuid r = fk_original input)
                   (\<lambda>r. r\<lparr>ws_was_forked_from := True\<rparr>) (workflow_status db1)\<rparr>
      in db2\<lparr>operation_outputs := operation_outputs db2 @
           (if fk_start_step input > 0
            then copied_steps (fk_original input) (ws_uuid n) (fk_start_step input) (operation_outputs db2)
            else [])\<rparr>)"

lemma fork_cases:
  assumes "fork_workflow input new_uuid now db = (res, db')" "schema_ok db"
  obtains (refused) e where "res = Inl e" "db' = db"
  | (forked) w n where "res = Inr (ws_uuid n)" "0 \<le> fk_start_step input"
      "ws_uuid n = unwrap_or (fk_forked input) new_uuid" "wf_row db (ws_uuid n) = None"
      "wf_row db (fk_original input) = Some w"
      "n = forked_row (row_to_status w True True) (fk_original input) (ws_uuid n)
             (unwrap_or (fk_application_version input) (unwrap_or_default (ws_application_version w)))
             (unwrap_or (fk_queue_name input) DBOS_INTERNAL_QUEUE_NAME) now"
      "db' = fork_insert input n db"
proof (cases "fk_start_step input < 0 \<or> wf_row db (fk_original input) = None
    \<or> wf_exists db (unwrap_or (fk_forked input) new_uuid)")
  case True
  with assms refused show ?thesis
    by (auto simp: fork_workflow_def get_workflow_status_eq Let_def split: if_splits option.splits)
next
  case False
  then obtain w where w: "wf_row db (fk_original input) = Some w" by auto
  let ?f = "unwrap_or (fk_forked input) new_uuid"
  let ?n = "forked_row (row_to_status w True True) (fk_original input) ?f
             (unwrap_or (fk_application_version input) (unwrap_or_default (ws_application_version w)))
             (unwrap_or (fk_queue_name input) DBOS_INTERNAL_QUEUE_NAME) now"
  have id: "ws_uuid ?n = ?f" by (simp add: forked_row_def)
  have v: "wv_application_version (row_to_status w True True) = unwrap_or_default (ws_application_version w)"
    by (simp add: row_to_status_def)
  have "(res, db') = (Inr ?f, fork_insert input ?n db)"
    using assms False w id v
    by (auto simp: fork_workflow_def get_workflow_status_eq Let_def fork_insert_def)
  with forked [of ?n w] id False w show ?thesis by simp
qed

lemma fork_insert_evolution:
  assumes "schema_ok db" "wf_row db (ws_uuid n) = None" "dedup_slot n = None"
    and "db' = fork_insert input n db"
  shows "schema_ok db' \<and> evolves db db' \<and> keeps_workflows db db'"
proof -
  let ?db1 = "db\<lparr>workflow_status := workflow_status db @ [n]\<rparr>"
  let ?db2 = "?db1\<lparr>workflow_status := update_where (\<lambda>r. ws_uuid r = fk_original input)
                   (\<lambda>r. r\<lparr>ws_was_forked_from := True\<rparr>) (workflow_status ?db1)\<rparr>"
  let ?ops = "if fk_start_step input > 0
       then copied_steps (fk_original input) (ws_uuid n) (fk_start_step input) (operation_outputs db)
       else []"
  have a: "schema_ok ?db1" "evolves db ?db1" "keeps_workflows db ?db1"
    using assms(1-3) schema_ok_insert_ws evolves_insert_ws keeps_insert_ws
    by (auto simp: dedup_taken_def)
  have b: "schema_ok ?db2" "evolves ?db1 ?db2" "keeps_workflows ?db1 ?db2"
    by (intro schema_ok_update_ws evolves_update_ws keeps_update_ws a(1);
        simp add: dedup_slot_def row_evolves_def)+
  have ops: "distinct (map op_key ?ops)"
    using assms(1) distinct_copied by (simp add: schema_defs)
  have new: "wf_exists ?db2 (ws_uuid n)"
    by (simp add: fetch_update_where fetch_append fetch_Cons split: option.splits)
  have "schema_ok (?db2\<lparr>operation_outputs := operation_outputs ?db2 @ ?ops\<rparr>)"
  proof (rule schema_ok_insert_ops [OF b(1) _ _ ops])
    fix r assume "r \<in> set ?ops"
    then have "op_workflow r = ws_uuid n" by (auto simp: copied_steps_def split: if_splits)
    then show "wf_exists ?db2 (op_workflow r)"
      "op_of ?db2 (op_workflow r) (op_function_id r) = None"
      using new no_steps_without_workflow [OF assms(1,2)] by auto
  qed
  moreover have "db' = ?db2\<lparr>operation_outputs := operation_outputs ?db2 @ ?ops\<rparr>"
    by (simp add: assms(4) fork_insert_def Let_def)
  moreover have "evolves db (?db2\<lparr>operation_outputs := operation_outputs ?db2 @ ?ops\<rparr>)"
    by (rule evolves_trans [OF evolves_trans [OF a(2,3) b(2,3)] keeps_workflows_trans [OF a(3) b(3)]
          evolves_insert_op keeps_insert_op])
  moreover have "keeps_workflows db (?db2\<lparr>operation_outputs := operation_outputs ?db2 @ ?ops\<rparr>)"
    by (rule keeps_workflows_trans [OF keeps_workflows_trans [OF a(3) b(3)] keeps_insert_op])
  ultimately show ?thesis by simp
qed

lemma fork_evolution:
  assumes "schema_ok db" "db' = snd (fork_workflow input new_uuid now db)"
  shows "schema_ok db' \<and> evolves db db' \<and> keeps_workflows db db'"
proof -
  have "fork_workflow input new_uuid now db = (fst (fork_workflow input new_uuid now db), db')"
    by (simp add: assms(2))
  then show ?thesis using assms(1)
  proof (cases rule: fork_cases)
    case refused
    with assms(1) show ?thesis by simp
  next
    case (forked w n)
    have "dedup_slot n = None" by (subst forked(6)) (simp add: forked_row_def dedup_slot_def)
    with fork_insert_evolution [OF assms(1) forked(4) _ forked(7)] show ?thesis by blast
  qed
qed

interpretation fork: keeping_op "\<lambda>db. snd (fork_workflow input new_uuid now db)"
  for input new_uuid now
  by unfold_locales (use fork_evolution in auto)

lemma fork_insert_lookup:
  assumes "schema_ok db" "wf_row db (ws_uuid n) = None" "wf_row db (fk_original input) = Some w"
  shows "wf_row (fork_insert input n db) i
       = (if i = ws_uuid n then Some n
          else if i = fk_original input then Some (w\<lparr>ws_was_forked_from := True\<rparr>) else wf_row db i)"
    and "op_of (fork_insert input n db) (ws_uuid n) k
       = (if k < fk_start_step input \<and> 0 < fk_start_step input
          then map_option (\<lambda>r. r\<lparr>op_workflow := ws_uuid n\<rparr>) (op_of db (fk_original input) k) else None)"
proof -
  have ne: "ws_uuid n \<noteq> fk_original input" using assms(2,3) by auto
  show "wf_row (fork_insert input n db) i
       = (if i = ws_uuid n then Some n
          else if i = fk_original input then Some (w\<lparr>ws_was_forked_from := True\<rparr>) else wf_row db i)"
    using assms(2,3) ne wf_row_uuid [where db = db and i = i]
    by (cases "wf_row db i")
      (auto simp: fork_insert_def Let_def fetch_update_where fetch_append fetch_Cons)
  show "op_of (fork_insert input n db) (ws_uuid n) k
       = (if k < fk_start_step input \<and> 0 < fk_start_step input
          then map_option (\<lambda>r. r\<lparr>op_workflow := ws_uuid n\<rparr>) (op_of db (fk_original input) k) else None)"
    using no_steps_without_workflow [OF assms(1,2), of k]
    by (simp add: fork_insert_def Let_def fetch_append op_of_copied)
qed

subsection \<open>Correctness\<close>

text \<open>C11. Forking a workflow at step \<open>s\<close> creates an ENQUEUED copy under a fresh id with the
  original's name and input, no outcome and no attempts, whose checkpoints are exactly the
  original's checkpoints below \<open>s\<close>; the original is only marked as forked and no other workflow
  changes.\<close>

theorem fork_copies_prefix:
  assumes "schema_ok db" "fork_workflow input new_uuid now db = (Inr f, db')"
    and "\<forall>k<0. op_of db (fk_original input) k = None"
  shows "\<exists>w n. wf_row db (fk_original input) = Some w \<and> wf_row db f = None \<and> wf_row db' f = Some n
       \<and> ws_status n = Enqueued \<and> ws_name n = ws_name w \<and> ws_inputs n = ws_inputs w
       \<and> ws_recovery_attempts n = 0 \<and> ws_output n = None \<and> ws_error n = None
       \<and> ws_forked_from n = Some (fk_original input)
       \<and> (\<forall>k. op_of db' f k = (if k < fk_start_step input
             then map_option (\<lambda>r. r\<lparr>op_workflow := f\<rparr>) (op_of db (fk_original input) k) else None))
       \<and> wf_row db' (fk_original input) = Some (w\<lparr>ws_was_forked_from := True\<rparr>)
       \<and> (\<forall>i. i \<noteq> f \<longrightarrow> i \<noteq> fk_original input \<longrightarrow> wf_row db' i = wf_row db i)"
  using assms(2,1)
proof (cases rule: fork_cases)
  case refused
  then show ?thesis by simp
next
  case (forked w n)
  from forked(1) have f: "f = ws_uuid n" by simp
  have ne: "ws_uuid n \<noteq> fk_original input" using forked(4,5) by auto
  note look = fork_insert_lookup [OF assms(1) forked(4,5)]
  have steps: "op_of db' f k = (if k < fk_start_step input
        then map_option (\<lambda>r. r\<lparr>op_workflow := f\<rparr>) (op_of db (fk_original input) k) else None)" for k
    using look(2) [of k] assms(3) unfolding f forked(7)
    by (cases "k < 0") auto
  have n: "ws_status n = Enqueued" "ws_name n = ws_name w" "ws_inputs n = ws_inputs w"
    "ws_recovery_attempts n = 0" "ws_output n = None" "ws_error n = None"
    "ws_forked_from n = Some (fk_original input)"
    by (subst forked(6), simp add: forked_row_def row_to_status_def)+
  show ?thesis
    using forked(4,5) ne look(1) n steps unfolding forked(7)
    by (intro exI [of _ w] exI [of _ n]) (simp add: f)
qed

definition sample_fork :: fork_input where
  "sample_fork =
     \<lparr>fk_original = ''w1'', fk_forked = None, fk_start_step = 1, fk_application_version = None,
      fk_queue_name = None\<rparr>"

lemma fork_copies_prefix_witness:
  "\<exists>n. wf_row (snd (fork_workflow sample_fork ''u'' 9 sample_db)) ''u'' = Some n
     \<and> ws_status n = Enqueued"
proof -
  have f: "fork_workflow sample_fork ''u'' 9 sample_db
      = (Inr ''u'', snd (fork_workflow sample_fork ''u'' 9 sample_db))"
    by (simp add: fork_workflow_def get_workflow_status_eq [OF sample_schema] sample_fork_def
        sample_rows Let_def)
  have "\<forall>k<0. op_of sample_db (fk_original sample_fork) k = None"
    by (simp add: sample_simps sample_fork_def)
  from fork_copies_prefix [OF sample_schema f this] show ?thesis by auto
qed

lemma count_where_deleted:
  "count_where P rows = int (length rows) - int (length (delete_where P rows))"
  using sum_length_filter_compl [of P rows] by (simp add: count_where_def delete_where_def)

lemma length_delete_where: "length (delete_where P rows) \<le> length rows"
  by (simp add: delete_where_def)

lemma beyond_threshold_bound:
  assumes "0 \<le> t"
  shows "count_where (\<lambda>r. is_terminal (ws_status r))
           (delete_where (\<lambda>r. ws_uuid r \<in> set (beyond_threshold t rows)) rows) \<le> t"
proof -
  let ?T = "filter (\<lambda>r. is_terminal (ws_status r)) rows"
  let ?S = "sort_key (\<lambda>r. - ws_created_at r) ?T"
  let ?Q = "\<lambda>r. ws_uuid r \<notin> set (beyond_threshold t rows)"
  have ids: "beyond_threshold t rows = map ws_uuid (drop (nat t) ?S)"
    by (simp add: beyond_threshold_def is_terminal_def)
  have "length (filter ?Q ?T) = length (filter ?Q ?S)"
    by (metis mset_filter mset_sort size_mset)
  also have "\<dots> = length (filter ?Q (take (nat t) ?S)) + length (filter ?Q (drop (nat t) ?S))"
    by (simp only: filter_append [symmetric] length_append [symmetric] append_take_drop_id)
  also have "filter ?Q (drop (nat t) ?S) = []"
    unfolding ids by (simp add: filter_empty_conv)
  also have "length (filter ?Q (take (nat t) ?S)) \<le> nat t"
    using length_filter_le [of ?Q "take (nat t) ?S"] by simp
  finally have "length (filter ?Q ?T) \<le> nat t" by simp
  moreover have "filter (\<lambda>r. is_terminal (ws_status r))
      (delete_where (\<lambda>r. ws_uuid r \<in> set (beyond_threshold t rows)) rows) = filter ?Q ?T"
    by (simp add: delete_where_def conj_commute)
  ultimately show ?thesis using assms by (simp add: count_where_def)
qed

lemma beyond_threshold_terminal:
  assumes "schema_ok db" "wf_row db i = Some w"
    and "i \<in> set (beyond_threshold t (workflow_status db))"
  shows "is_terminal (ws_status w)"
proof -
  from assms(3) obtain r where r: "r \<in> set (workflow_status db)" "ws_uuid r = i" "is_terminal (ws_status r)"
    by (auto simp: beyond_threshold_def is_terminal_def dest!: in_set_dropD)
  then have "wf_row db i = Some r"
    using schema_ok_distinct_ws [OF assms(1)] by (simp add: fetch_Some_iff_distinct)
  with assms(2) r(3) show ?thesis by simp
qed

lemma delete_cascade_keeps:
  assumes "schema_ok db" "wf_row db i = Some w" "\<not> P w"
  shows "wf_row (delete_cascade P db) i = Some w"
  using assms schema_ok_distinct_ws [of db] by (simp add: fetch_delete_where)

text \<open>C12. Garbage collection deletes finished workflows only: a pending, queued, delayed or parked
  workflow keeps its row, the number reported is the number of rows removed, and with a threshold at
  most that many finished workflows are left.\<close>

theorem garbage_collect_safe:
  assumes "schema_ok db" "garbage_collect cutoff threshold db = (n, db')"
  shows "(\<forall>i w. wf_row db i = Some w \<longrightarrow> \<not> is_terminal (ws_status w) \<longrightarrow> wf_row db' i = Some w)
       \<and> n = int (length (workflow_status db)) - int (length (workflow_status db'))
       \<and> (\<forall>t. threshold = Some t \<longrightarrow> 0 \<le> t \<longrightarrow>
            count_where (\<lambda>r. is_terminal (ws_status r)) (workflow_status db') \<le> t)"
proof -
  define db1 where "db1 = (case cutoff of None \<Rightarrow> db | Some c \<Rightarrow> delete_cascade (older_than c) db)"
  define n1 where "n1 = (case cutoff of None \<Rightarrow> 0 | Some c \<Rightarrow> count_where (older_than c) (workflow_status db))"
  have ok1: "schema_ok db1"
    using assms(1) by (auto simp: db1_def delete_cascade_schema split: option.splits)
  have n1: "n1 = int (length (workflow_status db)) - int (length (workflow_status db1))"
    by (simp add: n1_def db1_def count_where_deleted split: option.splits)
  have k1: "wf_row db1 i = Some w" if "wf_row db i = Some w" "\<not> is_terminal (ws_status w)" for i w
    using that delete_cascade_keeps [OF assms(1)]
    by (auto simp: db1_def older_than_def is_terminal_def split: option.splits)
  show ?thesis
  proof (cases threshold)
    case None
    with assms(2) have "n = n1" "db' = db1"
      by (auto simp: garbage_collect_def n1_def db1_def Let_def split: option.splits)
    with None n1 k1 show ?thesis by simp
  next
    case (Some t)
    let ?P = "\<lambda>r. ws_uuid r \<in> set (beyond_threshold t (workflow_status db1))"
    from assms(2) Some have eq: "n = n1 + count_where ?P (workflow_status db1)" "db' = delete_cascade ?P db1"
      by (auto simp: garbage_collect_def n1_def db1_def Let_def split: option.splits)
    have "wf_row db' i = Some w" if "wf_row db i = Some w" "\<not> is_terminal (ws_status w)" for i w
    proof -
      from k1 [OF that] have r: "wf_row db1 i = Some w" .
      then have "\<not> ?P w" using beyond_threshold_terminal [OF ok1 r] that(2) wf_row_uuid [OF r] by auto
      with r show ?thesis unfolding eq(2) by (rule delete_cascade_keeps [OF ok1])
    qed
    moreover have "n = int (length (workflow_status db)) - int (length (workflow_status db'))"
      by (simp add: eq n1 count_where_deleted)
    ultimately show ?thesis
      using Some beyond_threshold_bound [of t "workflow_status db1"] by (simp add: eq(2))
  qed
qed

lemma garbage_collect_safe_witness:
  "wf_row (snd (garbage_collect (Some 5000) (Some 0) sample_db)) ''w1''
   = Some (sample_row ''w1'' Pending None)"
  using garbage_collect_safe [OF sample_schema, of "Some 5000" "Some 0"
      "fst (garbage_collect (Some 5000) (Some 0) sample_db)" "snd (garbage_collect (Some 5000) (Some 0) sample_db)"]
    sample_rows(1) by (simp add: sample_row_def)



text \<open>
  A workflow whose version column is NULL can be dequeued under any application version; its fork
  carries the empty version and is eligible for that version only.
\<close>

lemma fork_loses_null_version:
  assumes "schema_ok db" "fork_workflow input new_uuid now db = (Inr f, db')"
    and "wf_row db (fk_original input) = Some w" "ws_application_version w = None"
    and "fk_application_version input = None"
  shows "\<exists>n. wf_row db' f = Some n \<and> ws_application_version n = Some []"
  using assms(2,1)
proof (cases rule: fork_cases)
  case (forked w' n)
  moreover have "ws_application_version n = Some []"
    using assms(3-5) forked(5) by (subst forked(6)) (simp add: forked_row_def)
  ultimately show ?thesis
    using fork_insert_lookup(1) [OF assms(1) forked(4,5), of f] by auto
qed simp

end
