(* ===== verification/Store_Comms.thy ===== *)
theory Store_Comms
  imports Samples "HOL-Library.List_Lexorder" "HOL-Library.Char_ord"
begin

text \<open>
  Messages, events and streams in \<open>db/sqlite.rs\<close>: the notification queue of a workflow and topic,
  the current value and the history of an event, the append-only entries of a stream.  The
  notification queue is shown to be a FIFO queue (a locale and its interpretation), a stream to
  refine a list that is closed by the sentinel.
\<close>

subsection \<open>Notifications\<close>

definition send_notification ::
  "string \<Rightarrow> string \<Rightarrow> string option \<Rightarrow> string \<Rightarrow> string \<Rightarrow> int \<Rightarrow> sysdb \<Rightarrow> unit res \<times> sysdb" where
  "send_notification dest topic message ser uuid now db =
     (case message of
        None \<Rightarrow> (Inl (sql_err ''failed to insert notification'' (violation db NotNullViolation)), db)
      | Some m \<Rightarrow>
          if fetch nt_uuid uuid (notifications db) \<noteq> None
          then (Inl (sql_err ''failed to insert notification'' (violation db UniqueViolation)), db)
          else if \<not> wf_exists db dest then (Inl (non_existent_workflow dest), db)
          else (Inr (), db\<lparr>notifications := notifications db @
                 [\<lparr>nt_uuid = uuid, nt_destination = dest, nt_topic = topic, nt_message = m,
                   nt_created_at = now, nt_serialization = ser, nt_consumed = False\<rparr>]\<rparr>))"

definition waiting :: "string \<Rightarrow> string \<Rightarrow> nt_row \<Rightarrow> bool" where
  "waiting dest topic r \<longleftrightarrow> nt_destination r = dest \<and> nt_topic r = topic \<and> \<not> nt_consumed r"

definition has_unconsumed_notification :: "string \<Rightarrow> string \<Rightarrow> sysdb \<Rightarrow> bool" where
  "has_unconsumed_notification dest topic db \<longleftrightarrow> list_ex (waiting dest topic) (notifications db)"

definition consume_oldest_notification ::
  "string \<Rightarrow> string \<Rightarrow> sysdb \<Rightarrow> (string option \<times> string) option \<times> sysdb" where
  "consume_oldest_notification dest topic db =
     (case sort_key nt_created_at (filter (waiting dest topic) (notifications db)) of
        [] \<Rightarrow> (None, db)
      | r # _ \<Rightarrow>
          (Some (Some (nt_message r), nt_serialization r),
           db\<lparr>notifications :=
             update_where (\<lambda>x. nt_uuid x = nt_uuid r) (\<lambda>x. x\<lparr>nt_consumed := True\<rparr>) (notifications db)\<rparr>))"

definition get_workflow_notifications ::
  "string \<Rightarrow> sysdb \<Rightarrow> (string \<times> string option \<times> int \<times> string \<times> bool) list" where
  "get_workflow_notifications i db =
     map (\<lambda>r. (nt_topic r, Some (nt_message r), nt_created_at r, nt_serialization r, nt_consumed r))
       (sort_key nt_created_at (filter (\<lambda>r. nt_destination r = i) (notifications db)))"

subsection \<open>Events\<close>

text \<open>\<open>INSERT ... ON CONFLICT (key) DO UPDATE\<close>.\<close>

definition upsert :: "('r \<Rightarrow> 'k) \<Rightarrow> ('r \<Rightarrow> 'r) \<Rightarrow> 'r \<Rightarrow> 'r list \<Rightarrow> 'r list" where
  "upsert key upd n rows =
     (if fetch key (key n) rows = None then rows @ [n]
      else update_where (\<lambda>r. key r = key n) upd rows)"

definition set_event ::
  "string \<Rightarrow> int \<Rightarrow> string \<Rightarrow> string option \<Rightarrow> string \<Rightarrow> sysdb \<Rightarrow> unit res \<times> sysdb" where
  "set_event i function_id key v ser db =
     (case v of
        None \<Rightarrow> (Inl (sql_err ''failed to set event'' (violation db NotNullViolation)), db)
      | Some x \<Rightarrow>
          if \<not> wf_exists db i
          then (Inl (sql_err ''failed to set event'' (violation db ForeignKeyViolation)), db)
          else (Inr (), db\<lparr>
            workflow_events :=
              upsert ev_pk (\<lambda>r. r\<lparr>ev_value := x, ev_serialization := ser\<rparr>)
                \<lparr>ev_workflow = i, ev_key = key, ev_value = x, ev_serialization = ser\<rparr>
                (workflow_events db),
            workflow_events_history :=
              upsert eh_pk (\<lambda>r. r\<lparr>eh_value := x, eh_serialization := ser\<rparr>)
                \<lparr>eh_workflow = i, eh_function_id = function_id, eh_key = key, eh_value = x,
                 eh_serialization = ser\<rparr>
                (workflow_events_history db)\<rparr>))"

definition get_event :: "string \<Rightarrow> string \<Rightarrow> sysdb \<Rightarrow> (string option \<times> string) option" where
  "get_event target key db =
     map_option (\<lambda>r. (Some (ev_value r), ev_serialization r)) (fetch ev_pk (target, key) (workflow_events db))"

definition get_workflow_events :: "string \<Rightarrow> sysdb \<Rightarrow> (string \<times> string option \<times> string) list" where
  "get_workflow_events i db =
     map (\<lambda>r. (ev_key r, Some (ev_value r), ev_serialization r))
       (filter (\<lambda>r. ev_workflow r = i) (workflow_events db))"

subsection \<open>Streams\<close>

definition DBOS_STREAM_CLOSED_SENTINEL :: string where
  "DBOS_STREAM_CLOSED_SENTINEL = ''__DBOS_STREAM_CLOSED__''"

definition stream_rows :: "string \<Rightarrow> string \<Rightarrow> sysdb \<Rightarrow> st_row list" where
  "stream_rows i key db = filter (\<lambda>r. st_workflow r = i \<and> st_key r = key) (streams db)"

text \<open>\<open>COALESCE(MAX(offset), -1) + 1\<close>.\<close>

definition next_offset :: "st_row list \<Rightarrow> int" where
  "next_offset rows = (if rows = [] then - 1 else Max (set (map st_offset rows))) + 1"

definition write_stream ::
  "string \<Rightarrow> string \<Rightarrow> string \<Rightarrow> int \<Rightarrow> string \<Rightarrow> sysdb \<Rightarrow> unit res \<times> sysdb" where
  "write_stream i key v function_id ser db =
     (if list_ex (\<lambda>r. st_value r = DBOS_STREAM_CLOSED_SENTINEL) (stream_rows i key db)
      then (Inl (error_new WorkflowExecution (''stream '' @ [CHR 0x27] @ key @ [CHR 0x27] @ '' is already closed'')), db)
      else if \<not> wf_exists db i
      then (Inl (sql_err ''failed to insert stream entry'' (violation db ForeignKeyViolation)), db)
      else (Inr (), db\<lparr>streams := streams db @
             [\<lparr>st_workflow = i, st_key = key, st_value = v,
               st_offset = next_offset (stream_rows i key db), st_function_id = function_id,
               st_serialization = ser\<rparr>]\<rparr>))"

fun until_closed :: "st_row list \<Rightarrow> (string \<times> int \<times> string) list \<times> bool" where
  "until_closed [] = ([], False)"
| "until_closed (r # rs) =
     (if st_value r = DBOS_STREAM_CLOSED_SENTINEL then ([], True)
      else let (out, closed) = until_closed rs
           in ((st_value r, st_offset r, st_serialization r) # out, closed))"

definition read_stream ::
  "string \<Rightarrow> string \<Rightarrow> int \<Rightarrow> sysdb \<Rightarrow> (string \<times> int \<times> string) list \<times> bool" where
  "read_stream i key from_offset db =
     until_closed (sort_key st_offset (filter (\<lambda>r. st_offset r \<ge> from_offset) (stream_rows i key db)))"

definition get_workflow_streams :: "string \<Rightarrow> sysdb \<Rightarrow> (string \<times> int \<times> string \<times> string) list" where
  "get_workflow_streams i db =
     map (\<lambda>r. (st_key r, st_offset r, st_value r, st_serialization r))
       (sort_key (\<lambda>r. (st_key r, st_offset r))
         (filter (\<lambda>r. st_workflow r = i) (streams db)))"

subsection \<open>The contracts\<close>

text \<open>None of these operations touches \<open>workflow_status\<close> or \<open>operation_outputs\<close>.\<close>

lemma evolves_same:
  "workflow_status db' = workflow_status db \<Longrightarrow> operation_outputs db' = operation_outputs db \<Longrightarrow>
   evolves db db' \<and> keeps_workflows db db'"
  by (simp add: evolves_def keeps_workflows_def)

lemma schema_ok_send:
  assumes "schema_ok db"
  shows "schema_ok (snd (send_notification dest topic m ser uuid now db))"
proof (cases "m = None \<or> fetch nt_uuid uuid (notifications db) \<noteq> None \<or> \<not> wf_exists db dest")
  case True
  with assms show ?thesis by (auto simp: send_notification_def split: option.splits)
next
  case False
  then obtain x where m: "m = Some x" and u: "fetch nt_uuid uuid (notifications db) = None"
    and d: "wf_exists db dest" by auto
  have "uuid \<notin> nt_uuid ` set (notifications db)" using u by (auto simp: fetch_None_iff)
  moreover have "dest \<in> ws_uuid ` set (workflow_status db)" using d wf_exists_iff by blast
  ultimately show ?thesis
    using assms m u d by (simp add: send_notification_def schema_defs)
qed

interpretation send: keeping_op "\<lambda>db. snd (send_notification dest topic m ser uuid now db)"
  for dest topic m ser uuid now
  by unfold_locales
    (simp add: schema_ok_send,
     auto simp: send_notification_def evolves_same split: option.splits)

lemma schema_ok_consume:
  "schema_ok db \<Longrightarrow> schema_ok (snd (consume_oldest_notification dest topic db))"
  by (auto simp: consume_oldest_notification_def schema_defs map_key_update_where key_set_update_where
      split: list.splits)

interpretation consume: keeping_op "\<lambda>db. snd (consume_oldest_notification dest topic db)"
  for dest topic
  by unfold_locales
    (simp add: schema_ok_consume,
     auto simp: consume_oldest_notification_def evolves_same split: list.splits)

lemma distinct_upsert:
  assumes "distinct (map key rows)" "\<And>r. key (upd r) = key r"
  shows "distinct (map key (upsert key upd n rows))"
proof (cases "fetch key (key n) rows = None")
  case True
  then have "key n \<notin> key ` set rows" unfolding fetch_None_iff by force
  with assms(1) True show ?thesis by (simp add: upsert_def)
next
  case False
  then obtain r where "fetch key (key n) rows = Some r" by auto
  moreover have "map key (update_where P upd rows) = map key rows" for P
    by (rule map_key_update_where) (rule assms(2))
  ultimately show ?thesis using assms(1) by (simp add: upsert_def)
qed

lemma upsert_column:
  assumes "\<And>r. f (upd r) = f r" "f n \<in> S" "f ` set rows \<subseteq> S"
  shows "f ` set (upsert key upd n rows) \<subseteq> S"
proof -
  have "f ` set (update_where P upd rows) = f ` set rows" for P
    by (rule key_set_update_where) (rule assms(1))
  with assms(2,3) show ?thesis by (simp add: upsert_def)
qed

lemma fetch_upsert:
  assumes "\<And>r. key (upd r) = key r"
  shows "fetch key k (upsert key upd n rows)
       = (if k = key n then Some (case fetch key k rows of None \<Rightarrow> n | Some r \<Rightarrow> upd r)
          else fetch key k rows)"
proof (cases "fetch key (key n) rows")
  case None
  then show ?thesis by (simp add: upsert_def fetch_append fetch_Cons split: option.splits)
next
  case (Some r)
  have "fetch key k (update_where P upd rows) = map_option (\<lambda>r. if P r then upd r else r) (fetch key k rows)" for P
    by (rule fetch_update_where) (rule assms)
  with Some fetch_SomeD [of key k rows] show ?thesis
    by (cases "fetch key k rows") (auto simp: upsert_def)
qed

lemma schema_ok_set_event:
  assumes "schema_ok db"
  shows "schema_ok (snd (set_event i function_id key v ser db))"
proof (cases "v = None \<or> \<not> wf_exists db i")
  case True
  with assms show ?thesis by (auto simp: set_event_def split: option.splits)
next
  case False
  then obtain x where v: "v = Some x" and w: "wf_exists db i" by auto
  then have "i \<in> ws_uuid ` set (workflow_status db)" using wf_exists_iff by blast
  then show ?thesis
    using assms v w by (simp add: set_event_def schema_defs distinct_upsert upsert_column)
qed

interpretation set_event: keeping_op "\<lambda>db. snd (set_event i function_id key v ser db)"
  for i function_id key v ser
  by unfold_locales
    (simp add: schema_ok_set_event, auto simp: set_event_def evolves_same split: option.splits)

lemma next_offset_greater: "r \<in> set rows \<Longrightarrow> st_offset r < next_offset rows"
  by (auto simp: next_offset_def less_le_trans [OF _ Max_ge] zle_add1_eq_le)

lemma schema_ok_write_stream:
  assumes "schema_ok db"
  shows "schema_ok (snd (write_stream i key v function_id ser db))"
proof (cases "fst (write_stream i key v function_id ser db)")
  case (Inl e)
  with assms show ?thesis by (auto simp: write_stream_def split: if_splits)
next
  case (Inr u)
  let ?n = "\<lparr>st_workflow = i, st_key = key, st_value = v,
      st_offset = next_offset (stream_rows i key db), st_function_id = function_id, st_serialization = ser\<rparr>"
  from Inr have db': "snd (write_stream i key v function_id ser db) = db\<lparr>streams := streams db @ [?n]\<rparr>"
    and "wf_exists db i" by (auto simp: write_stream_def split: if_splits)
  then have "i \<in> ws_uuid ` set (workflow_status db)" using wf_exists_iff by blast
  moreover have "st_pk ?n \<notin> st_pk ` set (streams db)"
    using next_offset_greater [of _ "stream_rows i key db"] by (fastforce simp: stream_rows_def)
  ultimately show ?thesis using assms unfolding db' by (simp add: schema_defs)
qed

interpretation write_stream: keeping_op "\<lambda>db. snd (write_stream i key v function_id ser db)"
  for i key v function_id ser
  by unfold_locales
    (simp add: schema_ok_write_stream, auto simp: write_stream_def evolves_same)

subsection \<open>A notification queue is a FIFO queue\<close>

datatype 'i queue_op = Put 'i | Get

text \<open>The messages a sequence of operations delivers, and the state it ends in.\<close>

fun run_queue :: "('i \<Rightarrow> 's \<Rightarrow> 's) \<Rightarrow> ('s \<Rightarrow> 'm option \<times> 's) \<Rightarrow> 'i queue_op list \<Rightarrow> 's \<Rightarrow> 'm list \<times> 's"
  where
  "run_queue put get [] s = ([], s)"
| "run_queue put get (Put i # ops) s = run_queue put get ops (put i s)"
| "run_queue put get (Get # ops) s =
     (let (m, s1) = get s; (ms, s2) = run_queue put get ops s1
      in ((case m of None \<Rightarrow> ms | Some x \<Rightarrow> x # ms), s2))"

text \<open>Every \<open>Put\<close> of the sequence is admissible when its turn comes.\<close>

fun admissible_ops ::
  "('i \<Rightarrow> 's \<Rightarrow> 's) \<Rightarrow> ('s \<Rightarrow> 'm option \<times> 's) \<Rightarrow> ('i \<Rightarrow> 's \<Rightarrow> bool) \<Rightarrow> 'i queue_op list \<Rightarrow> 's \<Rightarrow> bool"
  where
  "admissible_ops put get adm [] s = True"
| "admissible_ops put get adm (Put i # ops) s = (adm i s \<and> admissible_ops put get adm ops (put i s))"
| "admissible_ops put get adm (Get # ops) s = admissible_ops put get adm ops (snd (get s))"

fun puts :: "'i queue_op list \<Rightarrow> 'i list" where
  "puts [] = []"
| "puts (Put i # ops) = i # puts ops"
| "puts (Get # ops) = puts ops"

locale fifo_queue =
  fixes put :: "'i \<Rightarrow> 's \<Rightarrow> 's"
    and get :: "'s \<Rightarrow> 'm option \<times> 's"
    and view :: "'s \<Rightarrow> 'm list"
    and content :: "'i \<Rightarrow> 'm"
    and ok :: "'s \<Rightarrow> bool"
    and adm :: "'i \<Rightarrow> 's \<Rightarrow> bool"
  assumes put_view: "ok s \<Longrightarrow> adm i s \<Longrightarrow> view (put i s) = view s @ [content i]"
    and put_ok: "ok s \<Longrightarrow> adm i s \<Longrightarrow> ok (put i s)"
    and get_empty: "ok s \<Longrightarrow> view s = [] \<Longrightarrow> get s = (None, s)"
    and get_head: "ok s \<Longrightarrow> view s = m # ms \<Longrightarrow> fst (get s) = Some m \<and> view (snd (get s)) = ms"
    and get_ok: "ok s \<Longrightarrow> ok (snd (get s))"

context fifo_queue
begin

lemma delivered_in_order:
  assumes "ok s" "admissible_ops put get adm ops s"
  shows "view s @ map content (puts ops)
       = fst (run_queue put get ops s) @ view (snd (run_queue put get ops s))"
  using assms
proof (induction ops arbitrary: s rule: puts.induct)
  case 1
  then show ?case by simp
next
  case (2 i ops)
  then have "ok s" "adm i s" by simp_all
  with 2(1) [of "put i s"] 2(3) put_view [of s i] put_ok [of s i] show ?case by simp
next
  case (3 ops)
  show ?case
  proof (cases "view s")
    case Nil
    with 3(2,3) get_empty [of s] 3(1) [of s] show ?thesis by (simp add: split_beta Let_def)
  next
    case (Cons m ms)
    with 3(2,3) get_head [of s m ms] get_ok [of s] 3(1) [of "snd (get s)"] show ?thesis
      by (simp add: split_beta Let_def)
  qed
qed

end

definition pending_messages :: "string \<Rightarrow> string \<Rightarrow> sysdb \<Rightarrow> (string option \<times> string) list" where
  "pending_messages dest topic db =
     map (\<lambda>r. (Some (nt_message r), nt_serialization r))
       (sort_key nt_created_at (filter (waiting dest topic) (notifications db)))"

record message =
  mg_text :: string
  mg_serialization :: string
  mg_uuid :: string
  mg_now :: int

definition send_message :: "string \<Rightarrow> string \<Rightarrow> message \<Rightarrow> sysdb \<Rightarrow> sysdb" where
  "send_message dest topic m db =
     snd (send_notification dest topic (Some (mg_text m)) (mg_serialization m) (mg_uuid m) (mg_now m) db)"

text \<open>A send the queue accepts: fresh message id, existing receiver, a clock that did not go back.\<close>

definition sendable :: "string \<Rightarrow> string \<Rightarrow> message \<Rightarrow> sysdb \<Rightarrow> bool" where
  "sendable dest topic m db \<longleftrightarrow>
     wf_exists db dest \<and> fetch nt_uuid (mg_uuid m) (notifications db) = None
     \<and> list_all (\<lambda>r. nt_created_at r \<le> mg_now m) (filter (waiting dest topic) (notifications db))"

lemma insort_key_snoc:
  "f y \<le> f x \<Longrightarrow> insort_key f y (ys @ [x]) = insort_key f y ys @ [x]"
  by (induction ys) auto

lemma sort_key_snoc:
  assumes "\<forall>y\<in>set xs. f y \<le> f x"
  shows "sort_key f (xs @ [x]) = sort_key f xs @ [x]"
  using assms by (induction xs) (simp_all add: insort_key_snoc)

lemma sort_key_filter_neq:
  assumes "distinct (map g xs)" "sort_key f xs = y # ys"
  shows "sort_key f (filter (\<lambda>x. g x \<noteq> g y) xs) = ys"
proof -
  have "distinct (map g (sort_key f xs))"
    using assms(1) by (simp add: distinct_map)
  then have "\<forall>z\<in>set ys. g z \<noteq> g y" unfolding assms(2) by simp (metis imageI)
  then have "filter (\<lambda>x. g x \<noteq> g y) (sort_key f xs) = ys"
    unfolding assms(2) by (simp add: filter_id_conv)
  then show ?thesis by (simp add: filter_sort)
qed

lemma consume_waiting:
  assumes "distinct (map nt_uuid rows)" "r \<in> set rows"
  shows "filter (waiting dest topic)
           (update_where (\<lambda>x. nt_uuid x = nt_uuid r) (\<lambda>x. x\<lparr>nt_consumed := True\<rparr>) rows)
       = filter (\<lambda>x. nt_uuid x \<noteq> nt_uuid r) (filter (waiting dest topic) rows)"
  unfolding update_where_def by (induction rows) (auto simp: waiting_def)

interpretation notification_fifo: fifo_queue "send_message dest topic"
  "consume_oldest_notification dest topic" "pending_messages dest topic"
  "\<lambda>m. (Some (mg_text m), mg_serialization m)" schema_ok "sendable dest topic"
  for dest topic
proof
  fix s :: sysdb and m :: message
  assume "schema_ok s" and a: "sendable dest topic m s"
  then show "schema_ok (send_message dest topic m s)"
    by (simp add: send_message_def schema_ok_send)
  show "pending_messages dest topic (send_message dest topic m s)
      = pending_messages dest topic s @ [(Some (mg_text m), mg_serialization m)]"
    using a by (auto simp: send_message_def send_notification_def sendable_def pending_messages_def
        sort_key_snoc list_all_iff waiting_def)
next
  fix s :: sysdb
  assume "schema_ok s"
  then show "schema_ok (snd (consume_oldest_notification dest topic s))" by (rule schema_ok_consume)
next
  fix s :: sysdb
  assume "pending_messages dest topic s = []"
  then show "consume_oldest_notification dest topic s = (None, s)"
    by (simp add: pending_messages_def consume_oldest_notification_def)
next
  fix s :: sysdb and m ms
  assume ok: "schema_ok s" and v: "pending_messages dest topic s = m # ms"
  then obtain r rs where r: "sort_key nt_created_at (filter (waiting dest topic) (notifications s)) = r # rs"
    by (cases "sort_key nt_created_at (filter (waiting dest topic) (notifications s))")
      (auto simp: pending_messages_def)
  have d: "distinct (map nt_uuid (notifications s))" using ok by (simp add: schema_defs)
  have "r \<in> set (sort_key nt_created_at (filter (waiting dest topic) (notifications s)))"
    unfolding r by simp
  then have "r \<in> set (notifications s)" by simp
  moreover have "distinct (map nt_uuid (filter (waiting dest topic) (notifications s)))"
    using d by (simp add: distinct_map_filter)
  ultimately have "sort_key nt_created_at (filter (waiting dest topic)
      (update_where (\<lambda>x. nt_uuid x = nt_uuid r) (\<lambda>x. x\<lparr>nt_consumed := True\<rparr>) (notifications s))) = rs"
    using consume_waiting [OF d] sort_key_filter_neq [OF _ r] by simp
  then show "fst (consume_oldest_notification dest topic s) = Some m
      \<and> pending_messages dest topic (snd (consume_oldest_notification dest topic s)) = ms"
    using v r by (simp add: consume_oldest_notification_def pending_messages_def)
qed

subsection \<open>Correctness\<close>


definition sample_message :: "string \<Rightarrow> string \<Rightarrow> int \<Rightarrow> message" where
  "sample_message t u n = \<lparr>mg_text = t, mg_serialization = ''DBOS_JSON'', mg_uuid = u, mg_now = n\<rparr>"


lemma upsert_twice:
  assumes "\<And>r. key (upd r) = key r" "\<And>r. upd (upd r) = upd r" "upd n = n"
  shows "upsert key upd n (upsert key upd n rows) = upsert key upd n rows"
proof -
  have present: "upsert key upd n m = update_where (\<lambda>r. key r = key n) upd m"
    if "fetch key (key n) m \<noteq> None" for m
    unfolding upsert_def using that by (rule if_not_P)
  have "upsert key upd n (upsert key upd n rows)
      = update_where (\<lambda>r. key r = key n) upd (upsert key upd n rows)"
    by (rule present) (simp add: fetch_upsert [of key upd "key n" n rows, OF assms(1)])
  also have "\<dots> = upsert key upd n rows"
    using assms by (auto simp: upsert_def update_where_def fetch_None_iff intro!: map_idI)
  finally show ?thesis .
qed

text \<open>An event reads back as last set, setting it leaves every other event alone, and setting it
  again from the same step with the same value changes nothing, so a replayed step is harmless.\<close>

theorem set_event_semantics:
  assumes "wf_exists db i" and "db' = snd (set_event i k key (Some v) ser db)"
  shows "get_event i key db' = Some (Some v, ser)
       \<and> (\<forall>j key'. (j, key') \<noteq> (i, key) \<longrightarrow> get_event j key' db' = get_event j key' db)
       \<and> snd (set_event i k key (Some v) ser db') = db'"
proof -
  let ?e = "\<lparr>ev_workflow = i, ev_key = key, ev_value = v, ev_serialization = ser\<rparr>"
  let ?u = "\<lambda>r. r\<lparr>ev_value := v, ev_serialization := ser\<rparr>"
  let ?h = "\<lparr>eh_workflow = i, eh_function_id = k, eh_key = key, eh_value = v, eh_serialization = ser\<rparr>"
  let ?w = "\<lambda>r. r\<lparr>eh_value := v, eh_serialization := ser\<rparr>"
  have db': "db' = db\<lparr>workflow_events := upsert ev_pk ?u ?e (workflow_events db),
      workflow_events_history := upsert eh_pk ?w ?h (workflow_events_history db)\<rparr>"
    using assms by (simp add: set_event_def)
  have look: "fetch ev_pk p (upsert ev_pk ?u ?e rows) = (if p = (i, key)
      then Some (case fetch ev_pk p rows of None \<Rightarrow> ?e | Some r \<Rightarrow> ?u r) else fetch ev_pk p rows)" for p rows
    using fetch_upsert [where key = ev_pk and upd = ?u and n = ?e and k = p and rows = rows] by simp
  have "get_event i key db' = Some (Some v, ser)"
    by (simp add: db' get_event_def look split: option.split)
  moreover have "get_event j key' db' = get_event j key' db" if "(j, key') \<noteq> (i, key)" for j key'
    using that by (auto simp: db' get_event_def look)
  moreover have "snd (set_event i k key (Some v) ser db') = db'"
    using assms(1) by (simp add: set_event_def db' upsert_twice)
  ultimately show ?thesis by blast
qed

lemma set_event_semantics_witness:
  "get_event ''w1'' ''k'' (snd (set_event ''w1'' 3 ''k'' (Some ''5'') ''DBOS_JSON'' sample_db))
   = Some (Some ''5'', ''DBOS_JSON'')"
  using set_event_semantics [where db = sample_db and i = "''w1''" and k = 3 and key = "''k''"
      and v = "''5''" and ser = "''DBOS_JSON''"] sample_rows(1) by simp

text \<open>A stream as a list of values with their serializers; its offsets are the positions.\<close>

fun offsets_from :: "int \<Rightarrow> st_row list \<Rightarrow> bool" where
  "offsets_from a [] = True"
| "offsets_from a (r # rs) = (st_offset r = a \<and> offsets_from (a + 1) rs)"

definition contiguous :: "string \<Rightarrow> string \<Rightarrow> sysdb \<Rightarrow> bool" where
  "contiguous i key db \<longleftrightarrow> offsets_from 0 (stream_rows i key db)"

definition stream_log :: "string \<Rightarrow> string \<Rightarrow> sysdb \<Rightarrow> (string \<times> string) list" where
  "stream_log i key db = map (\<lambda>r. (st_value r, st_serialization r)) (stream_rows i key db)"

definition open_entry :: "string \<times> string \<Rightarrow> bool" where
  "open_entry e \<longleftrightarrow> fst e \<noteq> DBOS_STREAM_CLOSED_SENTINEL"

lemma until_closed_spec:
  "map (\<lambda>(v, k, s). (v, s)) (fst (until_closed rows))
     = takeWhile open_entry (map (\<lambda>r. (st_value r, st_serialization r)) rows)
   \<and> snd (until_closed rows) = list_ex (\<lambda>r. st_value r = DBOS_STREAM_CLOSED_SENTINEL) rows"
proof (induction rows)
  case (Cons r rows)
  obtain out cl where eq: "until_closed rows = (out, cl)" by fastforce
  from Cons eq show ?case by (simp add: open_entry_def)
qed simp

lemma offsets_from_snoc:
  "offsets_from a (rows @ [r]) \<longleftrightarrow> offsets_from a rows \<and> st_offset r = a + int (length rows)"
proof (induction rows arbitrary: a)
  case (Cons x rows)
  show ?case using Cons.IH [of "a + 1"] by (simp add: algebra_simps)
qed simp

lemma offsets_from_bounds:
  "offsets_from a rows \<Longrightarrow> r \<in> set rows \<Longrightarrow> a \<le> st_offset r \<and> st_offset r < a + int (length rows)"
proof (induction rows arbitrary: a)
  case (Cons x rows)
  show ?case
  proof (cases "r = x")
    case False
    with Cons.prems Cons.IH [of "a + 1"] show ?thesis by simp
  qed (use Cons.prems in simp)
qed simp

lemma offsets_from_filter:
  "offsets_from a rows \<Longrightarrow> filter (\<lambda>r. o' \<le> st_offset r) rows = drop (nat (o' - a)) rows"
proof (induction rows arbitrary: a)
  case (Cons r rows)
  show ?case
  proof (cases "o' \<le> a")
    case True
    with Cons.prems have "\<forall>x\<in>set (r # rows). o' \<le> st_offset x"
      using offsets_from_bounds [OF Cons.prems] by (metis order_trans)
    with True show ?thesis by (simp add: filter_id_conv)
  next
    case False
    then have "nat (o' - a) = Suc (nat (o' - (a + 1)))" by simp
    with Cons False show ?thesis by simp
  qed
qed simp

lemma offsets_from_sorted: "offsets_from a rows \<Longrightarrow> sorted (map st_offset rows)"
proof (induction rows arbitrary: a)
  case (Cons r rows)
  then have "\<forall>x\<in>set rows. st_offset r \<le> st_offset x"
    using offsets_from_bounds [of "a + 1" rows] by force
  with Cons show ?case by auto
qed simp

lemma contiguous_next:
  assumes "contiguous i key db"
  shows "next_offset (stream_rows i key db) = int (length (stream_rows i key db))"
proof (cases "stream_rows i key db" rule: rev_exhaust)
  case (snoc rows r)
  with assms have o': "offsets_from 0 (rows @ [r])" by (simp add: contiguous_def)
  have "Max (set (map st_offset (rows @ [r]))) = int (length rows)"
  proof (rule Max_eqI)
    show "y \<le> int (length rows)" if "y \<in> set (map st_offset (rows @ [r]))" for y
    proof -
      from that obtain x where "x \<in> set (rows @ [r])" "y = st_offset x" by auto
      with offsets_from_bounds [OF o', of x] show ?thesis by simp
    qed
    show "int (length rows) \<in> set (map st_offset (rows @ [r]))"
      using o' by (simp add: offsets_from_snoc)
  qed simp
  with snoc show ?thesis by (simp add: next_offset_def)
qed (simp add: next_offset_def)

lemma write_stream_rows:
  assumes "write_stream i key v function_id ser db = (Inr (), db')"
  shows "stream_rows i key db' = stream_rows i key db @
     [\<lparr>st_workflow = i, st_key = key, st_value = v, st_offset = next_offset (stream_rows i key db),
       st_function_id = function_id, st_serialization = ser\<rparr>]"
    and "(j, k) \<noteq> (i, key) \<Longrightarrow> stream_rows j k db' = stream_rows j k db"
  using assms by (auto simp: write_stream_def stream_rows_def split: if_splits)

text \<open>C9. A stream refines an append-only list: while its offsets are contiguous, a write appends
  its value at the next offset and keeps them contiguous, a write after the close is refused, other
  streams do not change, and reading from an offset returns the values from there up to the close,
  saying whether the stream is closed.\<close>

theorem stream_refines_log:
  assumes "contiguous i key db" "write_stream i key v function_id ser db = (res, db')"
  shows "contiguous i key db'
       \<and> (res = Inr () \<longrightarrow> stream_log i key db' = stream_log i key db @ [(v, ser)])
       \<and> (isl res \<longrightarrow> db' = db)
       \<and> (res = Inr () \<longleftrightarrow> wf_exists db i \<and> list_all open_entry (stream_log i key db))
       \<and> (\<forall>j k. (j, k) \<noteq> (i, key) \<longrightarrow> stream_log j k db' = stream_log j k db)
       \<and> map (\<lambda>(v, k, s). (v, s)) (fst (read_stream i key (int from) db))
         = takeWhile open_entry (drop from (stream_log i key db))
       \<and> snd (read_stream i key (int from) db) = (\<not> list_all open_entry (drop from (stream_log i key db)))"
proof -
  have closed: "list_ex (\<lambda>r. st_value r = DBOS_STREAM_CLOSED_SENTINEL) rows
      = (\<not> list_all open_entry (map (\<lambda>r. (st_value r, st_serialization r)) rows))" for rows
    by (induction rows) (auto simp: open_entry_def)
  have rd: "read_stream i key (int from) db = until_closed (drop from (stream_rows i key db))"
    using offsets_from_filter [of 0 "stream_rows i key db" "int from"] assms(1)
      offsets_from_sorted [of 0 "stream_rows i key db"]
    by (simp add: read_stream_def contiguous_def sort_key_id_if_sorted drop_map [symmetric] sorted_wrt_drop)
  have ok: "res = Inr () \<longleftrightarrow> wf_exists db i \<and> list_all open_entry (stream_log i key db)"
    "isl res \<longrightarrow> db' = db"
    using assms(2) closed [of "stream_rows i key db"]
    by (auto simp: write_stream_def stream_log_def split: if_splits)
  show ?thesis
  proof (cases res)
    case (Inl e)
    with ok assms(1) show ?thesis
      using until_closed_spec [of "drop from (stream_rows i key db)"]
      by (simp add: rd stream_log_def drop_map closed)
  next
    case (Inr u)
    with assms(2) have w: "write_stream i key v function_id ser db = (Inr (), db')" by simp
    show ?thesis
      using ok Inr write_stream_rows [OF w] assms(1) contiguous_next [OF assms(1)]
        until_closed_spec [of "drop from (stream_rows i key db)"]
      by (simp add: rd stream_log_def drop_map closed contiguous_def offsets_from_snoc)
  qed
qed

lemma stream_refines_log_witness:
  "stream_log ''w1'' ''k'' (snd (write_stream ''w1'' ''k'' ''1'' 4 ''DBOS_JSON'' sample_db))
   = [(''1'', ''DBOS_JSON'')]"
proof -
  have "contiguous ''w1'' ''k'' sample_db" "stream_log ''w1'' ''k'' sample_db = []"
    by (simp_all add: contiguous_def stream_log_def stream_rows_def sample_simps)
  moreover have "fst (write_stream ''w1'' ''k'' ''1'' 4 ''DBOS_JSON'' sample_db) = Inr ()"
    by (simp add: write_stream_def stream_rows_def sample_simps)
  ultimately show ?thesis
    using stream_refines_log [of "''w1''" "''k''" sample_db "''1''" 4 "''DBOS_JSON''"
        "fst (write_stream ''w1'' ''k'' ''1'' 4 ''DBOS_JSON'' sample_db)"
        "snd (write_stream ''w1'' ''k'' ''1'' 4 ''DBOS_JSON'' sample_db)"] by simp
qed

end
