(* ===== verification/Store_Schedules.thy ===== *)
theory Store_Schedules
  imports Samples
begin

text \<open>
  Application versions and schedules in \<open>db/sqlite.rs\<close>.
\<close>

subsection \<open>Application versions\<close>

definition create_application_version :: "string \<Rightarrow> string \<Rightarrow> int \<Rightarrow> sysdb \<Rightarrow> sysdb" where
  "create_application_version version_name new_uuid now db =
     (if fetch av_name version_name (application_versions db) \<noteq> None then db
      else db\<lparr>application_versions := application_versions db @
        [\<lparr>av_id = new_uuid, av_name = version_name, av_timestamp = now, av_created_at = now\<rparr>]\<rparr>)"

definition get_latest_application_version :: "sysdb \<Rightarrow> string option" where
  "get_latest_application_version db =
     (case sort_key (\<lambda>r. - av_timestamp r) (application_versions db) of
        [] \<Rightarrow> None | r # _ \<Rightarrow> Some (av_name r))"

definition list_application_versions :: "sysdb \<Rightarrow> (string \<times> string \<times> int \<times> int) list" where
  "list_application_versions db =
     map (\<lambda>r. (av_id r, av_name r, av_timestamp r, av_created_at r))
       (sort_key (\<lambda>r. - av_timestamp r) (application_versions db))"

definition set_latest_application_version :: "string \<Rightarrow> int \<Rightarrow> sysdb \<Rightarrow> sysdb" where
  "set_latest_application_version version_name now db =
     db\<lparr>application_versions :=
       update_where (\<lambda>r. av_name r = version_name) (\<lambda>r. r\<lparr>av_timestamp := now\<rparr>) (application_versions db)\<rparr>"

subsection \<open>Schedules\<close>

definition create_schedule :: "schedule_row \<Rightarrow> sysdb \<Rightarrow> unit res \<times> sysdb" where
  "create_schedule row db =
     (if fetch sr_name (sr_name row) (workflow_schedules db) \<noteq> None
         \<or> fetch sr_id (sr_id row) (workflow_schedules db) \<noteq> None
      then (Inl (error_new ConflictingId (''schedule already exists: '' @ sr_name row)), db)
      else (Inr (), db\<lparr>workflow_schedules :=
             workflow_schedules db @ [row\<lparr>sr_last_fired_at := None\<rparr>]\<rparr>))"

definition list_schedules :: "sysdb \<Rightarrow> schedule_row list" where
  "list_schedules db = workflow_schedules db"

definition get_schedule :: "string \<Rightarrow> sysdb \<Rightarrow> schedule_row option" where
  "get_schedule name db = fetch sr_name name (workflow_schedules db)"

definition set_schedule_status :: "string \<Rightarrow> string \<Rightarrow> sysdb \<Rightarrow> sysdb" where
  "set_schedule_status name status db =
     db\<lparr>workflow_schedules :=
       update_where (\<lambda>r. sr_name r = name) (\<lambda>r. r\<lparr>sr_status := status, sr_last_fired_at := None\<rparr>)
         (workflow_schedules db)\<rparr>"

definition update_schedule_last_fired :: "string \<Rightarrow> string \<Rightarrow> sysdb \<Rightarrow> sysdb" where
  "update_schedule_last_fired name t db =
     db\<lparr>workflow_schedules :=
       update_where (\<lambda>r. sr_name r = name) (\<lambda>r. r\<lparr>sr_last_fired_at := Some t\<rparr>) (workflow_schedules db)\<rparr>"

definition delete_schedule_row :: "string \<Rightarrow> sysdb \<Rightarrow> sysdb" where
  "delete_schedule_row name db =
     db\<lparr>workflow_schedules := delete_where (\<lambda>r. sr_name r = name) (workflow_schedules db)\<rparr>"

subsection \<open>The contracts\<close>

lemma evolves_other_tables:
  "workflow_status db' = workflow_status db \<Longrightarrow> operation_outputs db' = operation_outputs db \<Longrightarrow>
   evolves db db' \<and> keeps_workflows db db'"
  by (simp add: evolves_def keeps_workflows_def)

lemma schema_ok_schedules:
  assumes "schema_ok db"
  shows "schema_ok (set_schedule_status name s db)"
    and "schema_ok (update_schedule_last_fired name t db)"
    and "schema_ok (delete_schedule_row name db)"
    and "schema_ok (set_latest_application_version v now db)"
  using assms
  by (auto simp: schema_defs set_schedule_status_def update_schedule_last_fired_def
      delete_schedule_row_def set_latest_application_version_def map_key_update_where)

lemma schema_ok_create_version:
  assumes "schema_ok db"
  shows "schema_ok (create_application_version v u now db)"
proof (cases "fetch av_name v (application_versions db)")
  case None
  then have "v \<notin> av_name ` set (application_versions db)" by (auto simp: fetch_None_iff)
  with assms None show ?thesis by (simp add: create_application_version_def schema_defs)
next
  case (Some r)
  with assms show ?thesis by (simp add: create_application_version_def)
qed

lemma schema_ok_create_schedule:
  assumes "schema_ok db"
  shows "schema_ok (snd (create_schedule row db))"
proof (cases "fetch sr_name (sr_name row) (workflow_schedules db) = None
    \<and> fetch sr_id (sr_id row) (workflow_schedules db) = None")
  case True
  then have "sr_name row \<notin> sr_name ` set (workflow_schedules db)"
    "sr_id row \<notin> sr_id ` set (workflow_schedules db)" by (auto simp: fetch_None_iff)
  with assms True show ?thesis by (simp add: create_schedule_def schema_defs)
next
  case False
  then have "create_schedule row db
      = (Inl (error_new ConflictingId (''schedule already exists: '' @ sr_name row)), db)"
    by (auto simp: create_schedule_def)
  with assms show ?thesis by simp
qed

interpretation create_version: keeping_op "create_application_version v u now" for v u now
  by unfold_locales
    (simp_all add: schema_ok_create_version, simp_all add: create_application_version_def evolves_other_tables)

interpretation latest_version: keeping_op "set_latest_application_version v now" for v now
  by unfold_locales
    (simp_all add: schema_ok_schedules, simp_all add: set_latest_application_version_def evolves_other_tables)

interpretation create_sched: keeping_op "\<lambda>db. snd (create_schedule row db)" for row
  by unfold_locales
    (simp_all add: schema_ok_create_schedule, simp_all add: create_schedule_def evolves_other_tables)

interpretation sched_status: keeping_op "set_schedule_status name s" for name s
  by unfold_locales
    (simp_all add: schema_ok_schedules, simp_all add: set_schedule_status_def evolves_other_tables)

interpretation sched_fired: keeping_op "update_schedule_last_fired name t" for name t
  by unfold_locales
    (simp_all add: schema_ok_schedules, simp_all add: update_schedule_last_fired_def evolves_other_tables)

interpretation sched_delete: keeping_op "delete_schedule_row name" for name
  by unfold_locales
    (simp_all add: schema_ok_schedules, simp_all add: delete_schedule_row_def evolves_other_tables)

subsection \<open>Which version is the latest\<close>

lemma latest_after_set:
  assumes "schema_ok db" "fetch av_name v (application_versions db) = Some r"
    and "\<forall>x\<in>set (application_versions db). av_timestamp x < now"
  shows "get_latest_application_version (set_latest_application_version v now db) = Some v"
proof -
  let ?rows = "application_versions (set_latest_application_version v now db)"
  let ?s = "sort_key (\<lambda>r. - av_timestamp r) ?rows"
  have r: "r \<in> set (application_versions db)" "av_name r = v" using fetch_SomeD [OF assms(2)] by auto
  have mem: "r\<lparr>av_timestamp := now\<rparr> \<in> set ?s"
    using r by (auto simp: set_latest_application_version_def set_update_where intro!: image_eqI [of _ _ r])
  then obtain x xs where s: "?s = x # xs" by (cases ?s) auto
  have "sorted (map (\<lambda>r. - av_timestamp r) (x # xs))" unfolding s [symmetric] by simp
  with mem have "- av_timestamp x \<le> - now" unfolding s by auto
  moreover have "x \<in> set ?rows" by (metis list.set_intros(1) s set_sort)
  ultimately have "av_name x = v"
    using assms(3) by (fastforce simp: set_latest_application_version_def set_update_where split: if_splits)
  with s show ?thesis by (simp add: get_latest_application_version_def)
qed

end
