(* ===== verification/Lifecycle.thy ===== *)
theory Lifecycle
  imports Store_Insert Store_Steps Store_Queue Store_Manage Store_Comms Store_Schedules
begin

text \<open>
  The system database as a state machine: one rule per operation of \<open>SystemDatabase\<close> that the
  engine, its background tasks and the management API call, in any order and from any number of
  executors.  The invariants of the reachable databases follow from the contracts of the operations.
\<close>

inductive db_step :: "sysdb \<Rightarrow> sysdb \<Rightarrow> bool" where
  insert: "db_step db (snd (insert_workflow_status input now db))"
| success: "db_step db (update_workflow_outcome i Success out err n1 n2 db)"
| failure: "db_step db (update_workflow_outcome i Error out err n1 n2 db)"
| record_op: "db_step db (snd (record_operation_result rec db))"
| dequeue: "db_step db (snd (dequeue_workflows dq clk db))"
| clear: "db_step db (snd (clear_queue_assignment i db))"
| transition: "db_step db (transition_delayed_workflows now db)"
| cancel: "db_step db (snd (cancel_workflow i now db))"
| resume: "db_step db (resume_workflow i now db)"
| delete: "db_step db (delete_workflow_row i db)"
| gc: "db_step db (snd (garbage_collect cutoff threshold db))"
| fork: "db_step db (snd (fork_workflow fk new_uuid now db))"
| send: "db_step db (snd (send_notification dest topic m ser uuid now db))"
| consume: "db_step db (snd (consume_oldest_notification dest topic db))"
| event: "db_step db (snd (set_event i k key v ser db))"
| stream: "db_step db (snd (write_stream i key val k ser db))"
| version: "db_step db (create_application_version v new_uuid now db)"
| latest: "db_step db (set_latest_application_version v now db)"
| sched_create: "db_step db (snd (create_schedule row db))"
| sched_status: "db_step db (set_schedule_status name s db)"
| sched_fired: "db_step db (update_schedule_last_fired name t db)"
| sched_delete: "db_step db (delete_schedule_row name db)"

lemma db_step_contract:
  assumes "db_step db db'" "schema_ok db"
  shows "schema_ok db' \<and> evolves db db'"
  using assms
proof (induction rule: db_step.induct)
  case insert
  then show ?case using insert_status.keeps_schema insert_status.evolution by blast
next
  case success
  then show ?case using outcome_success.keeps_schema outcome_success.evolution by blast
next
  case failure
  then show ?case using outcome_error.keeps_schema outcome_error.evolution by blast
next
  case record_op
  then show ?case using record_result.keeps_schema record_result.evolution by blast
next
  case dequeue
  then show ?case using dequeue.keeps_schema dequeue.evolution by blast
next
  case clear
  then show ?case using clear_queue.keeps_schema clear_queue.evolution by blast
next
  case transition
  then show ?case using transition_delayed.keeps_schema transition_delayed.evolution by blast
next
  case cancel
  then show ?case using cancel.keeps_schema cancel.evolution by blast
next
  case resume
  then show ?case using resume.keeps_schema resume.evolution by blast
next
  case delete
  then show ?case using delete.keeps_schema delete.evolution by blast
next
  case gc
  then show ?case using gc.keeps_schema gc.evolution by blast
next
  case fork
  then show ?case using fork.keeps_schema fork.evolution by blast
next
  case send
  then show ?case using send.keeps_schema send.evolution by blast
next
  case consume
  then show ?case using consume.keeps_schema consume.evolution by blast
next
  case event
  then show ?case using set_event.keeps_schema set_event.evolution by blast
next
  case stream
  then show ?case using write_stream.keeps_schema write_stream.evolution by blast
next
  case version
  then show ?case using create_version.keeps_schema create_version.evolution by blast
next
  case latest
  then show ?case using latest_version.keeps_schema latest_version.evolution by blast
next
  case sched_create
  then show ?case using create_sched.keeps_schema create_sched.evolution by blast
next
  case sched_status
  then show ?case using sched_status.keeps_schema sched_status.evolution by blast
next
  case sched_fired
  then show ?case using sched_fired.keeps_schema sched_fired.evolution by blast
next
  case sched_delete
  then show ?case using sched_delete.keeps_schema sched_delete.evolution by blast
qed

text \<open>A run during which a workflow is not deleted.\<close>

inductive run_keeping :: "string \<Rightarrow> sysdb \<Rightarrow> sysdb \<Rightarrow> bool" where
  start: "wf_exists db i \<Longrightarrow> run_keeping i db db"
| more: "run_keeping i db db1 \<Longrightarrow> db_step db1 db2 \<Longrightarrow> wf_exists db2 i \<Longrightarrow> run_keeping i db db2"

inductive_cases run_keepingE: "run_keeping i db db'"

lemma run_keeping_contract:
  assumes "run_keeping i db db'" "schema_ok db" "wf_row db i = Some r"
  shows "schema_ok db' \<and> (\<exists>r'. wf_row db' i = Some r' \<and> row_evolves r r')
       \<and> (\<forall>k s. op_of db i k = Some s \<longrightarrow> op_of db' i k = Some s)"
  using assms
proof (induction rule: run_keeping.induct)
  case (start db i)
  then show ?case by simp
next
  case (more i db db1 db2)
  then obtain r1 where ok: "schema_ok db1" and r1: "wf_row db1 i = Some r1" "row_evolves r r1"
    and ops: "\<forall>k s. op_of db i k = Some s \<longrightarrow> op_of db1 i k = Some s" by blast
  from db_step_contract [OF more.hyps(2) ok] have c: "schema_ok db2" "evolves db1 db2" by auto
  from more.hyps(3) obtain r2 where r2: "wf_row db2 i = Some r2" by auto
  have "row_evolves r r2"
    using r1(2) evolves_row [OF c(2) r1(1) r2] by (rule row_evolves_trans)
  moreover have "op_of db2 i k = Some s" if "op_of db i k = Some s" for k s
    by (rule evolves_op [OF c(2)]) (use r1(1) r2 ops that in auto)
  ultimately show ?case using c(1) r2 by blast
qed

subsection \<open>Correctness\<close>

text \<open>C10. Every database the engine can reach satisfies the schema: primary keys are unique, no two
  workflows hold the same queue and deduplication id, and every checkpoint, message, event and
  stream entry belongs to an existing workflow.\<close>

theorem reachable_schema:
  assumes "db_step\<^sup>*\<^sup>* empty_db db"
  shows "schema_ok db"
  using assms
proof (induction rule: rtranclp_induct)
  case base
  show ?case by (rule schema_ok_empty)
next
  case (step db1 db2)
  from db_step_contract [OF step.hyps(2) step.IH] show ?case by simp
qed

lemma reachable_schema_witness:
  "schema_ok (snd (insert_workflow_status sample_input 5 empty_db))"
  by (rule reachable_schema) (rule r_into_rtranclp, rule db_step.insert)



end
