(* ===== verification/Serialization.thy ===== *)
theory Serialization
  imports Errors "HOL-Library.List_Lexorder" "HOL-Library.Char_ord"
begin

text \<open>
  \<open>crates/dbos-core/src/serialization.rs\<close>: the two built-in serializers, the choice of encoder and
  decoder, the portable argument envelope, and the text form of errors.  The JSON text and base64
  codecs (crates \<open>serde_json\<close> and \<open>base64\<close>) are a parameter of type \<open>codec\<close>; \<open>codec_ok\<close> states what
  their documentation promises.  The typed values of the source are \<open>serde_json::Value\<close> here, so
  \<open>to_value\<close> and \<open>from_value\<close> are the identity.
\<close>

subsection \<open>The codecs\<close>

record codec =
  cd_print :: "json \<Rightarrow> string"
  cd_parse :: "string \<Rightarrow> string + json"
  cd_b64_encode :: "string \<Rightarrow> string"
  cd_b64_decode :: "string \<Rightarrow> string + string"
  cd_type_error :: "json \<Rightarrow> string"

definition NIL_MARKER :: string where "NIL_MARKER = ''__DBOS_NIL''"
definition PORTABLE_SERIALIZER_NAME :: string where "PORTABLE_SERIALIZER_NAME = ''portable_json''"
definition JSON_SERIALIZER_NAME :: string where "JSON_SERIALIZER_NAME = ''DBOS_JSON''"
definition GOB_SERIALIZER_NAME :: string where "GOB_SERIALIZER_NAME = ''DBOS_GOB''"

text \<open>
  The values that survive JSON text: integers in the range of \<open>serde_json::Number\<close>, no floating
  point, no duplicate keys.  A parsed object lists its keys in order (\<open>serde_json::Map\<close> is a
  \<open>BTreeMap\<close>), which \<open>canon\<close> writes out.
\<close>

fun plain_json :: "json \<Rightarrow> bool" where
  "plain_json (JInt i) \<longleftrightarrow> - 9223372036854775808 \<le> i \<and> i < 18446744073709551616"
| "plain_json (JFloat t) \<longleftrightarrow> False"
| "plain_json (JArray xs) \<longleftrightarrow> list_all plain_json xs"
| "plain_json (JObject kvs) \<longleftrightarrow> distinct (map fst kvs) \<and> list_all (\<lambda>(k, v). plain_json v) kvs"
| "plain_json _ \<longleftrightarrow> True"

fun canon :: "json \<Rightarrow> json" where
  "canon (JArray xs) = JArray (map canon xs)"
| "canon (JObject kvs) = JObject (sort_key fst (map (\<lambda>(k, v). (k, canon v)) kvs))"
| "canon v = v"

definition codec_ok :: "codec \<Rightarrow> bool" where
  "codec_ok c \<longleftrightarrow>
     (\<forall>v. plain_json v \<longrightarrow> cd_parse c (cd_print c v) = Inr (canon v))
     \<and> cd_print c JNull = ''null''
     \<and> (\<forall>v. plain_json v \<longrightarrow> cd_print c v = ''null'' \<longrightarrow> v = JNull)
     \<and> (\<forall>v. cd_print c v \<noteq> [])
     \<and> (\<forall>s. cd_b64_decode c (cd_b64_encode c s) = Inr s)
     \<and> (\<forall>s. CHR ''_'' \<notin> set (cd_b64_encode c s))"

subsection \<open>Errors of this layer\<close>

datatype serialize_error =
    Encode string
  | DecodeJson string
  | DecodeBase64 string
  | UnknownFormat string
  | GobUnsupported string

text \<open>Rust's \<open>{:?}\<close> of a string of printable ASCII characters.\<close>

definition debug_char :: "char \<Rightarrow> string" where
  "debug_char ch =
     (if ch = CHR 0x22 then [CHR 0x5C, CHR 0x22]
      else if ch = CHR 0x5C then [CHR 0x5C, CHR 0x5C] else [ch])"

definition debug_str :: "string \<Rightarrow> string" where
  "debug_str s = [CHR 0x22] @ concat (map debug_char s) @ [CHR 0x22]"

primrec serialize_error_text :: "serialize_error \<Rightarrow> string" where
  "serialize_error_text (Encode t) = ''failed to encode data: '' @ t"
| "serialize_error_text (DecodeJson t) = ''failed to decode json data: '' @ t"
| "serialize_error_text (DecodeBase64 t) = ''failed to decode base64 data: '' @ t"
| "serialize_error_text (UnknownFormat s) = ''unknown serialization format '' @ debug_str s"
| "serialize_error_text (GobUnsupported s) =
     ''gob serialization is not supported (format '' @ debug_str s @ '')''"

primrec serialize_error_source :: "serialize_error \<Rightarrow> err_source option" where
  "serialize_error_source (Encode t) = Some (SrcOther t None)"
| "serialize_error_source (DecodeJson t) = Some (SrcOther t None)"
| "serialize_error_source (DecodeBase64 t) = Some (SrcOther t None)"
| "serialize_error_source (UnknownFormat s) = None"
| "serialize_error_source (GobUnsupported s) = None"

definition from_serialize_error :: "serialize_error \<Rightarrow> dbos_error" where
  "from_serialize_error e =
     with_source (error_new WorkflowUnexpectedType (serialize_error_text e))
       (SrcOther (serialize_error_text e) (serialize_error_source e))"

definition map_serialize_error :: "serialize_error + 'a \<Rightarrow> 'a res" where
  "map_serialize_error r = (case r of Inl e \<Rightarrow> Inl (from_serialize_error e) | Inr v \<Rightarrow> Inr v)"

lemma map_serialize_error_simps [simp]:
  "map_serialize_error (Inl e) = Inl (from_serialize_error e)"
  "map_serialize_error (Inr v) = Inr v"
  by (simp_all add: map_serialize_error_def)

subsection \<open>Serializers\<close>

text \<open>The trait object: its name and its two operations.\<close>

record serializer =
  sz_name :: string
  sz_encode :: "json \<Rightarrow> serialize_error + string option"
  sz_decode :: "string option \<Rightarrow> serialize_error + json"

definition json_serializer :: "codec \<Rightarrow> serializer" where
  "json_serializer c =
     \<lparr>sz_name = JSON_SERIALIZER_NAME,
      sz_encode = (\<lambda>v. if is_null v then Inr (Some NIL_MARKER)
                       else Inr (Some (cd_b64_encode c (cd_print c v)))),
      sz_decode = (\<lambda>s. case s of
          None \<Rightarrow> Inr JNull
        | Some t \<Rightarrow>
            if t = NIL_MARKER then Inr JNull
            else (case cd_b64_decode c t of
                    Inl e \<Rightarrow> Inl (DecodeBase64 e)
                  | Inr bytes \<Rightarrow>
                      (case cd_parse c bytes of Inl e \<Rightarrow> Inl (DecodeJson e) | Inr v \<Rightarrow> Inr v)))\<rparr>"

definition portable_serializer :: "codec \<Rightarrow> serializer" where
  "portable_serializer c =
     \<lparr>sz_name = PORTABLE_SERIALIZER_NAME,
      sz_encode = (\<lambda>v. if is_null v then Inr (Some ''null'') else Inr (Some (cd_print c v))),
      sz_decode = (\<lambda>s. case s of
          None \<Rightarrow> Inr JNull
        | Some t \<Rightarrow>
            if t = ''null'' then Inr JNull
            else (case cd_parse c t of Inl e \<Rightarrow> Inl (DecodeJson e) | Inr v \<Rightarrow> Inr v))\<rparr>"

definition encode :: "serializer \<Rightarrow> json \<Rightarrow> string option res" where
  "encode ser v = map_serialize_error (sz_encode ser v)"

definition decode :: "serializer \<Rightarrow> string option \<Rightarrow> json res" where
  "decode ser s = map_serialize_error (sz_decode ser s)"

definition resolve_encoder :: "codec \<Rightarrow> bool \<Rightarrow> serializer option \<Rightarrow> serializer" where
  "resolve_encoder c is_portable custom =
     (if is_portable then portable_serializer c
      else case custom of Some s \<Rightarrow> s | None \<Rightarrow> json_serializer c)"

definition resolve_decoder :: "codec \<Rightarrow> string \<Rightarrow> serializer option \<Rightarrow> serialize_error + serializer" where
  "resolve_decoder c stored custom =
     (if stored = PORTABLE_SERIALIZER_NAME then Inr (portable_serializer c)
      else case custom of
        Some s \<Rightarrow>
          if sz_name s = stored then Inr s
          else if stored = [] \<or> stored = JSON_SERIALIZER_NAME then Inr (json_serializer c)
          else if stored = GOB_SERIALIZER_NAME then Inl (GobUnsupported stored)
          else Inl (UnknownFormat stored)
      | None \<Rightarrow>
          if stored = [] \<or> stored = JSON_SERIALIZER_NAME then Inr (json_serializer c)
          else if stored = GOB_SERIALIZER_NAME then Inl (GobUnsupported stored)
          else Inl (UnknownFormat stored))"

subsection \<open>The portable argument envelope\<close>

definition obj_get :: "string \<Rightarrow> (string \<times> json) list \<Rightarrow> json option" where
  "obj_get k kvs = map_of kvs k"

definition encode_portable_args :: "codec \<Rightarrow> bool \<Rightarrow> json \<Rightarrow> string option res" where
  "encode_portable_args c is_envelope data =
     encode (portable_serializer c)
       (if is_envelope then data
        else JObject [(''namedArgs'', JObject []), (''positionalArgs'', JArray [data])])"

text \<open>
  \<open>serde\<close>'s derived \<open>Deserialize\<close> of \<open>PortableWorkflowArgs\<close>: both fields default, unknown fields are
  ignored, and a sequence is read positionally.
\<close>

definition envelope_of :: "codec \<Rightarrow> json \<Rightarrow> serialize_error + json list" where
  "envelope_of c v =
     (let bad = Inl (DecodeJson (cd_type_error c v));
          fields = (\<lambda>p n.
            case p of
              Some (JArray xs) \<Rightarrow> (case n of None \<Rightarrow> Inr xs | Some (JObject _) \<Rightarrow> Inr xs | _ \<Rightarrow> bad)
            | None \<Rightarrow> (case n of None \<Rightarrow> Inr [] | Some (JObject _) \<Rightarrow> Inr [] | _ \<Rightarrow> bad)
            | _ \<Rightarrow> bad)
      in case v of
           JObject kvs \<Rightarrow> fields (obj_get ''positionalArgs'' kvs) (obj_get ''namedArgs'' kvs)
         | JArray [] \<Rightarrow> fields None None
         | JArray [p] \<Rightarrow> fields (Some p) None
         | JArray [p, n] \<Rightarrow> fields (Some p) (Some n)
         | _ \<Rightarrow> bad)"

definition decode_portable_args :: "codec \<Rightarrow> string option \<Rightarrow> json res" where
  "decode_portable_args c data =
     (case data of
        None \<Rightarrow> Inr JNull
      | Some s \<Rightarrow>
          if s = ''null'' then Inr JNull
          else map_serialize_error
            (bind_res (case cd_parse c s of Inl e \<Rightarrow> Inl (DecodeJson e) | Inr v \<Rightarrow> Inr v)
              (\<lambda>v. bind_res (envelope_of c v)
                (\<lambda>args. Inr (case args of [] \<Rightarrow> JNull | a # _ \<Rightarrow> a)))))"

subsection \<open>Errors as stored text\<close>

definition pe_to_json :: "portable_error \<Rightarrow> json" where
  "pe_to_json pe =
     JObject ([(''name'', JString (pe_name pe)), (''message'', JString (pe_message pe))]
       @ (case pe_code pe of None \<Rightarrow> [] | Some v \<Rightarrow> [(''code'', v)])
       @ (case pe_data pe of None \<Rightarrow> [] | Some v \<Rightarrow> [(''data'', v)]))"

definition opt_field :: "json option \<Rightarrow> json option" where
  "opt_field v = (case v of Some JNull \<Rightarrow> None | _ \<Rightarrow> v)"

definition pe_of_json :: "json \<Rightarrow> portable_error option" where
  "pe_of_json v =
     (case v of
        JObject kvs \<Rightarrow>
          (case (obj_get ''name'' kvs, obj_get ''message'' kvs) of
             (Some (JString n), Some (JString m)) \<Rightarrow>
               Some (PortableWorkflowError n m (opt_field (obj_get ''code'' kvs))
                       (opt_field (obj_get ''data'' kvs)))
           | _ \<Rightarrow> None)
      | JArray (JString n # JString m # rest) \<Rightarrow>
          (case rest of
             [] \<Rightarrow> Some (PortableWorkflowError n m None None)
           | [x] \<Rightarrow> Some (PortableWorkflowError n m (opt_field (Some x)) None)
           | [x, y] \<Rightarrow> Some (PortableWorkflowError n m (opt_field (Some x)) (opt_field (Some y)))
           | _ \<Rightarrow> None)
      | _ \<Rightarrow> None)"

definition portable_from_source :: "dbos_error \<Rightarrow> portable_error option" where
  "portable_from_source e =
     (case List.find (\<lambda>s. case s of SrcPortable _ \<Rightarrow> True | _ \<Rightarrow> False) (source_chain e) of
        Some (SrcPortable pe) \<Rightarrow> Some pe
      | _ \<Rightarrow> None)"

definition serialize_workflow_error :: "codec \<Rightarrow> dbos_error \<Rightarrow> string \<Rightarrow> string" where
  "serialize_workflow_error c e serialization =
     (if serialization \<noteq> PORTABLE_SERIALIZER_NAME then error_display e
      else cd_print c (pe_to_json
        (case portable_from_source e of
           Some pe \<Rightarrow> pe
         | None \<Rightarrow> PortableWorkflowError ''Portable Error'' (error_display e) None None)))"

definition plain_error :: "string \<Rightarrow> dbos_error" where
  "plain_error message = error_new WorkflowExecution message"

definition deserialize_workflow_error :: "codec \<Rightarrow> string option \<Rightarrow> string \<Rightarrow> dbos_error option" where
  "deserialize_workflow_error c err_str serialization =
     (case err_str of
        None \<Rightarrow> None
      | Some s \<Rightarrow>
          if s = [] then None
          else if serialization \<noteq> PORTABLE_SERIALIZER_NAME then Some (plain_error s)
          else (case cd_parse c s of
                  Inl _ \<Rightarrow> Some (plain_error s)
                | Inr v \<Rightarrow>
                    (case pe_of_json v of
                       None \<Rightarrow> Some (plain_error s)
                     | Some pe \<Rightarrow>
                         Some (with_source (error_new WorkflowExecution (pe_message pe)) (SrcPortable pe)))))"

end
