(* ===== verification/Sample_Codec.thy ===== *)
theory Sample_Codec
  imports Serialization
begin

text \<open>
  A concrete codec that satisfies \<open>codec_ok\<close>, so that the theorems that assume a faithful codec are
  instantiated.  Its text form is tagged and terminated, with numbers in unary; its byte encoding
  writes each character as two letters.
\<close>

subsection \<open>Printing\<close>

fun sc_str :: "string \<Rightarrow> string" where
  "sc_str [] = ''.''"
| "sc_str (ch # s) = CHR ''c'' # ch # sc_str s"

fun sc_ones :: "nat \<Rightarrow> string" where
  "sc_ones 0 = ''.''"
| "sc_ones (Suc n) = CHR ''1'' # sc_ones n"

fun sc_print :: "json \<Rightarrow> string" where
  "sc_print JNull = ''null''"
| "sc_print (JBool b) = (if b then ''t'' else ''f'')"
| "sc_print (JInt i) = (if i < 0 then ''m'' @ sc_ones (nat (- i)) else ''i'' @ sc_ones (nat i))"
| "sc_print (JFloat t) = ''x'' @ sc_str t"
| "sc_print (JString s) = ''s'' @ sc_str s"
| "sc_print (JArray xs) = ''a'' @ concat (map (\<lambda>x. CHR '','' # sc_print x) xs) @ ''.''"
| "sc_print (JObject kvs) =
     ''o'' @ concat (map (\<lambda>(k, v). CHR '','' # sc_str k @ sc_print v) kvs) @ ''.''"

subsection \<open>Parsing\<close>

fun sc_get_str :: "string \<Rightarrow> (string \<times> string) option" where
  "sc_get_str (c # s) =
     (if c = CHR ''.'' then Some ([], s)
      else case s of
             [] \<Rightarrow> None
           | ch # r \<Rightarrow> map_option (\<lambda>(t, r'). (ch # t, r')) (sc_get_str r))"
| "sc_get_str [] = None"

fun sc_get_ones :: "string \<Rightarrow> (nat \<times> string) option" where
  "sc_get_ones (c # s) =
     (if c = CHR ''.'' then Some (0, s) else map_option (\<lambda>(n, r). (Suc n, r)) (sc_get_ones s))"
| "sc_get_ones [] = None"

fun sc_val :: "nat \<Rightarrow> string \<Rightarrow> (json \<times> string) option"
and sc_arr :: "nat \<Rightarrow> string \<Rightarrow> (json list \<times> string) option"
and sc_obj :: "nat \<Rightarrow> string \<Rightarrow> ((string \<times> json) list \<times> string) option" where
  "sc_val (Suc n) (c # s) =
     (if c = CHR ''n'' then Some (JNull, drop 3 s)
      else if c = CHR ''t'' then Some (JBool True, s)
      else if c = CHR ''f'' then Some (JBool False, s)
      else if c = CHR ''m'' then map_option (\<lambda>(k, r). (JInt (- int k), r)) (sc_get_ones s)
      else if c = CHR ''i'' then map_option (\<lambda>(k, r). (JInt (int k), r)) (sc_get_ones s)
      else if c = CHR ''x'' then map_option (\<lambda>(t, r). (JFloat t, r)) (sc_get_str s)
      else if c = CHR ''s'' then map_option (\<lambda>(t, r). (JString t, r)) (sc_get_str s)
      else if c = CHR ''a'' then map_option (\<lambda>(xs, r). (JArray xs, r)) (sc_arr n s)
      else if c = CHR ''o'' then map_option (\<lambda>(xs, r). (JObject xs, r)) (sc_obj n s)
      else None)"
| "sc_val _ _ = None"
| "sc_arr (Suc n) (c # s) =
     (if c = CHR ''.'' then Some ([], s)
      else case sc_val n s of
             None \<Rightarrow> None
           | Some (x, r) \<Rightarrow> map_option (\<lambda>(xs, r'). (x # xs, r')) (sc_arr n r))"
| "sc_arr _ _ = None"
| "sc_obj (Suc n) (c # s) =
     (if c = CHR ''.'' then Some ([], s)
      else case sc_get_str s of
             None \<Rightarrow> None
           | Some (k, r) \<Rightarrow>
               (case sc_val n r of
                  None \<Rightarrow> None
                | Some (x, r') \<Rightarrow> map_option (\<lambda>(xs, r''). ((k, x) # xs, r'')) (sc_obj n r')))"
| "sc_obj _ _ = None"

lemma sc_get_str_print [simp]: "sc_get_str (sc_str s @ r) = Some (s, r)"
  by (induction s) simp_all

lemma sc_get_ones_print [simp]: "sc_get_ones (sc_ones n @ r) = Some (n, r)"
  by (induction n) simp_all

lemma sc_arr_print:
  assumes "\<And>x n r. x \<in> set xs \<Longrightarrow> length (sc_print x) \<le> n \<Longrightarrow> sc_val n (sc_print x @ r) = Some (x, r)"
    and "length (concat (map (\<lambda>x. CHR '','' # sc_print x) xs)) < n"
  shows "sc_arr n (concat (map (\<lambda>x. CHR '','' # sc_print x) xs) @ CHR ''.'' # r) = Some (xs, r)"
  using assms
proof (induction xs arbitrary: n)
  case Nil
  then show ?case by (cases n) simp_all
next
  case (Cons x xs)
  then obtain m where n: "n = Suc m" by (cases n) auto
  with Cons.prems(2) have m: "length (sc_print x) \<le> m"
    "length (concat (map (\<lambda>x. CHR '','' # sc_print x) xs)) < m" by simp_all
  have x: "sc_val m (sc_print x @ r') = Some (x, r')" for r'
    by (rule Cons.prems(1) [OF _ m(1)]) simp
  show ?case using Cons.IH [OF _ m(2)] Cons.prems(1) n x by simp
qed

lemma sc_obj_print:
  assumes "\<And>k x n r. (k, x) \<in> set kvs \<Longrightarrow> length (sc_print x) \<le> n \<Longrightarrow> sc_val n (sc_print x @ r) = Some (x, r)"
    and "length (concat (map (\<lambda>(k, v). CHR '','' # sc_str k @ sc_print v) kvs)) < n"
  shows "sc_obj n (concat (map (\<lambda>(k, v). CHR '','' # sc_str k @ sc_print v) kvs) @ CHR ''.'' # r) = Some (kvs, r)"
  using assms
proof (induction kvs arbitrary: n)
  case Nil
  then show ?case by (cases n) simp_all
next
  case (Cons kv kvs)
  obtain k x where kv: "kv = (k, x)" by fastforce
  from Cons.prems(2) obtain m where n: "n = Suc m" by (cases n) auto
  with Cons.prems(2) kv have m: "length (sc_print x) \<le> m"
    "length (concat (map (\<lambda>(k, v). CHR '','' # sc_str k @ sc_print v) kvs)) < m" by simp_all
  have x: "sc_val m (sc_print x @ r') = Some (x, r')" for r'
    by (rule Cons.prems(1) [OF _ m(1), of k]) (simp add: kv)
  have "sc_obj m (concat (map (\<lambda>(k, v). CHR '','' # sc_str k @ sc_print v) kvs) @ CHR ''.'' # r) = Some (kvs, r)"
    by (rule Cons.IH [OF _ m(2)]) (use Cons.prems(1) in auto)
  with x show ?case by (simp add: n kv)
qed

lemma sc_val_print: "length (sc_print v) \<le> n \<Longrightarrow> sc_val n (sc_print v @ r) = Some (v, r)"
proof (induction v arbitrary: n r)
  case (JArray xs)
  then obtain m where n: "n = Suc m" by (cases n) auto
  have "sc_arr m (concat (map (\<lambda>x. CHR '','' # sc_print x) xs) @ CHR ''.'' # r) = Some (xs, r)"
    by (rule sc_arr_print) (use JArray n in auto)
  with n show ?case by simp
next
  case (JObject kvs)
  then obtain m where n: "n = Suc m" by (cases n) auto
  have "sc_obj m (concat (map (\<lambda>(k, v). CHR '','' # sc_str k @ sc_print v) kvs) @ CHR ''.'' # r) = Some (kvs, r)"
  proof (rule sc_obj_print)
    fix k x n r
    assume "(k, x) \<in> set kvs" "length (sc_print x) \<le> n"
    then show "sc_val n (sc_print x @ r) = Some (x, r)"
      using JObject.IH [of "(k, x)" x] by simp
  qed (use JObject.prems n in simp)
  with n show ?case by simp
next
  case (JInt i)
  then obtain m where "n = Suc m" by (cases n) (auto split: if_splits)
  then show ?case by simp
next
  case (JBool b)
  then obtain m where "n = Suc m" by (cases n) (auto split: if_splits)
  then show ?case by simp
next
  case JNull
  then obtain m where "n = Suc m" by (cases n) auto
  then show ?case by simp
next
  case (JFloat t)
  then obtain m where "n = Suc m" by (cases n) auto
  then show ?case by simp
next
  case (JString t)
  then obtain m where "n = Suc m" by (cases n) auto
  then show ?case by simp
qed

subsection \<open>The codec\<close>

fun sc_b64_encode :: "string \<Rightarrow> string" where
  "sc_b64_encode [] = []"
| "sc_b64_encode (c # s) =
     char_of (65 + of_char c div 16 :: nat) # char_of (65 + of_char c mod 16 :: nat) # sc_b64_encode s"

fun sc_b64_decode :: "string \<Rightarrow> string" where
  "sc_b64_decode (a # b # s) =
     char_of (16 * (of_char a - 65) + (of_char b - 65) :: nat) # sc_b64_decode s"
| "sc_b64_decode _ = []"

definition sample_codec :: codec where
  "sample_codec =
     \<lparr>cd_print = sc_print,
      cd_parse = (\<lambda>s. case sc_val (length s) s of
                   Some (v, []) \<Rightarrow> Inr (canon v) | _ \<Rightarrow> Inl ''syntax error''),
      cd_b64_encode = sc_b64_encode, cd_b64_decode = (\<lambda>s. Inr (sc_b64_decode s)),
      cd_type_error = (\<lambda>_. ''invalid type'')\<rparr>"

lemma of_char_less: "(of_char c :: nat) < 256"
  using mod_less_divisor [of 256 "of_char c :: nat"] by simp

lemma of_char_div: "of_char c div 16 < (16 :: nat)"
  using of_char_less [of c] by (intro less_mult_imp_div_less) simp

lemma sc_b64_roundtrip: "sc_b64_decode (sc_b64_encode s) = s"
proof (induction s)
  case (Cons c s)
  have a: "(of_char (char_of (65 + of_char c div 16 :: nat)) :: nat) = 65 + of_char c div 16"
    using of_char_div [of c] by (simp add: of_char_of mod_less)
  have b: "(of_char (char_of (65 + of_char c mod 16 :: nat)) :: nat) = 65 + of_char c mod 16"
    by simp
  have "(16 * (of_char c div 16) + of_char c mod 16 :: nat) = of_char c" by simp
  with Cons a b show ?case by (simp del: of_char_of)
qed simp

lemma sc_b64_alphabet: "CHR ''_'' \<notin> set (sc_b64_encode s)"
proof (induction s)
  case (Cons c s)
  have "char_of (65 + d :: nat) \<noteq> CHR ''_''" if "d < 16" for d
  proof
    assume "char_of (65 + d :: nat) = CHR ''_''"
    then have "of_char (char_of (65 + d :: nat) :: char) = (of_char (CHR ''_'') :: nat)" by simp
    with that show False by simp
  qed
  moreover have "of_char c div 16 < (16 :: nat)" "of_char c mod 16 < (16 :: nat)"
    using of_char_div [of c] by simp_all
  ultimately show ?case using Cons by (metis (no_types, lifting) sc_b64_encode.simps(2) set_ConsD)
qed simp

lemma sample_codec_ok: "codec_ok sample_codec"
proof -
  have "cd_parse sample_codec (cd_print sample_codec v) = Inr (canon v)" for v
    using sc_val_print [of v "length (sc_print v)" "[]"] by (simp add: sample_codec_def)
  moreover have "sc_print v = ''null'' \<Longrightarrow> v = JNull" for v
    by (cases v) (auto split: if_splits)
  moreover have "sc_print v \<noteq> []" for v by (cases v) auto
  ultimately show ?thesis
    by (simp add: codec_ok_def sample_codec_def sc_b64_roundtrip sc_b64_alphabet)
qed

end
