(* ===== verification/Serialization_Laws.thy ===== *)
theory Serialization_Laws
  imports Sample_Codec
begin

text \<open>
  What the serialization layer promises: a value written inside a workflow is read back by the
  decoder its row selects, workflow arguments survive the portable envelope, and what is left of
  an error after it was stored.
\<close>

subsection \<open>Faithful serializers\<close>

definition faithful :: "serializer \<Rightarrow> bool" where
  "faithful ser \<longleftrightarrow>
     (\<forall>v. plain_json v \<longrightarrow> (\<exists>t. sz_encode ser v = Inr t \<and> sz_decode ser t = Inr (canon v)))"

text \<open>A custom serializer the context can be given: faithful, and not posing as the portable one.\<close>

definition custom_ok :: "serializer option \<Rightarrow> bool" where
  "custom_ok custom \<longleftrightarrow>
     (case custom of None \<Rightarrow> True | Some s \<Rightarrow> faithful s \<and> sz_name s \<noteq> PORTABLE_SERIALIZER_NAME)"

lemma codec_okD:
  assumes "codec_ok c"
  shows "plain_json v \<Longrightarrow> cd_parse c (cd_print c v) = Inr (canon v)"
    and "cd_print c JNull = ''null''"
    and "plain_json v \<Longrightarrow> v \<noteq> JNull \<Longrightarrow> cd_print c v \<noteq> ''null''"
    and "cd_print c v \<noteq> []"
    and "cd_b64_decode c (cd_b64_encode c s) = Inr s"
    and "CHR ''_'' \<notin> set (cd_b64_encode c s)"
  using assms by (auto simp: codec_ok_def)

lemma json_serializer_faithful: "codec_ok c \<Longrightarrow> faithful (json_serializer c)"
  unfolding faithful_def
proof (intro allI impI)
  fix v
  assume c: "codec_ok c" and v: "plain_json v"
  show "\<exists>t. sz_encode (json_serializer c) v = Inr t \<and> sz_decode (json_serializer c) t = Inr (canon v)"
  proof (cases "v = JNull")
    case True
    then show ?thesis by (simp add: json_serializer_def is_null_def)
  next
    case False
    have "CHR ''_'' \<in> set NIL_MARKER" by (simp add: NIL_MARKER_def)
    then have "cd_b64_encode c (cd_print c v) \<noteq> NIL_MARKER"
      using codec_okD(6) [OF c] by metis
    with False c v show ?thesis by (simp add: json_serializer_def is_null_def codec_ok_def)
  qed
qed

lemma portable_serializer_faithful: "codec_ok c \<Longrightarrow> faithful (portable_serializer c)"
  by (auto simp: faithful_def portable_serializer_def is_null_def codec_ok_def)

lemma encoder_faithful:
  "codec_ok c \<Longrightarrow> custom_ok custom \<Longrightarrow> faithful (resolve_encoder c p custom)"
  by (auto simp: resolve_encoder_def custom_ok_def json_serializer_faithful
      portable_serializer_faithful split: option.splits)

lemma decoder_matches:
  assumes "custom_ok custom"
  shows "resolve_decoder c (sz_name (resolve_encoder c p custom)) custom
       = Inr (resolve_encoder c p custom)"
proof -
  have ne: "JSON_SERIALIZER_NAME \<noteq> PORTABLE_SERIALIZER_NAME"
    by (simp add: JSON_SERIALIZER_NAME_def PORTABLE_SERIALIZER_NAME_def)
  show ?thesis
    using assms ne
    by (auto simp: resolve_encoder_def resolve_decoder_def custom_ok_def portable_serializer_def
        json_serializer_def split: option.splits)
qed

subsection \<open>Correctness\<close>

text \<open>C23. Any value a workflow writes is read back: whatever the encoder chosen for the workflow
  (portable, the context's own, or the default), encoding succeeds and the decoder selected by the
  stored serializer name returns the value (with object keys in order).\<close>

theorem stored_value_read_back:
  assumes "codec_ok c" "custom_ok custom" "plain_json v"
  shows "\<exists>t dec. encode (resolve_encoder c is_portable custom) v = Inr t
       \<and> resolve_decoder c (sz_name (resolve_encoder c is_portable custom)) custom = Inr dec
       \<and> decode dec t = Inr (canon v)"
  using encoder_faithful [OF assms(1,2), of is_portable] decoder_matches [OF assms(2)] assms(3)
  by (auto simp: faithful_def encode_def decode_def)

lemma stored_value_read_back_witness:
  "\<exists>t. encode (json_serializer sample_codec) (JArray [JInt 3, JString ''x'']) = Inr t
     \<and> decode (json_serializer sample_codec) t = Inr (JArray [JInt 3, JString ''x''])"
  using stored_value_read_back [OF sample_codec_ok, of None "JArray [JInt 3, JString ''x'']" False]
  by (auto simp: custom_ok_def resolve_encoder_def resolve_decoder_def json_serializer_def
      JSON_SERIALIZER_NAME_def PORTABLE_SERIALIZER_NAME_def)

text \<open>A context serializer named like the portable one is used to write and never to read.\<close>

lemma posing_serializer_not_used_to_read:
  "sz_name s = PORTABLE_SERIALIZER_NAME \<Longrightarrow>
   resolve_decoder c (sz_name (resolve_encoder c False (Some s))) (Some s) = Inr (portable_serializer c)"
  by (simp add: resolve_encoder_def resolve_decoder_def)

text \<open>The input of a portable workflow survives its envelope: decoding what
  \<open>encode_portable_args\<close> produced for a value gives the value back.\<close>

theorem portable_args_roundtrip:
  assumes "codec_ok c" "plain_json v" "encode_portable_args c False v = Inr t"
  shows "decode_portable_args c t = Inr (canon v)"
proof -
  let ?e = "JObject [(''namedArgs'', JObject []), (''positionalArgs'', JArray [v])]"
  have t: "t = Some (cd_print c ?e)"
    using assms(3) by (simp add: encode_portable_args_def encode_def portable_serializer_def is_null_def)
  have plain: "plain_json ?e" using assms(2) by simp
  have canon: "canon ?e = JObject [(''namedArgs'', JObject []), (''positionalArgs'', JArray [canon v])]"
    by simp
  have "cd_print c ?e \<noteq> ''null''" "cd_parse c (cd_print c ?e) = Inr (canon ?e)"
    using codec_okD(1,3) [OF assms(1) plain] by simp_all
  then show ?thesis
    by (simp add: t decode_portable_args_def canon envelope_of_def obj_get_def Let_def)
qed

lemma portable_args_roundtrip_witness:
  "decode_portable_args sample_codec
     (Some (sc_print (JObject [(''namedArgs'', JObject []), (''positionalArgs'', JArray [JInt 5])])))
   = Inr (JInt 5)"
  using portable_args_roundtrip [OF sample_codec_ok, of "JInt 5"]
  by (simp add: encode_portable_args_def encode_def portable_serializer_def is_null_def
      sample_codec_def)

subsection \<open>Stored errors\<close>

lemma portable_from_source_wrapped:
  "err_source e = Some (SrcPortable pe) \<Longrightarrow> portable_from_source e = Some pe"
  by (simp add: portable_from_source_def source_chain_unfold)

definition plain_field :: "json option \<Rightarrow> bool" where
  "plain_field x \<longleftrightarrow> (case x of None \<Rightarrow> True | Some v \<Rightarrow> plain_json v \<and> v \<noteq> JNull)"

lemma canon_not_null: "canon v = JNull \<longleftrightarrow> v = JNull"
  by (cases v) simp_all

lemma opt_field_canon: "plain_field x \<Longrightarrow> opt_field (map_option canon x) = map_option canon x"
  by (cases x) (auto simp: plain_field_def opt_field_def canon_not_null split: json.splits)

lemma map_of_sort_key:
  assumes "distinct (map fst kvs)"
  shows "map_of (sort_key fst kvs) k = map_of kvs k"
proof -
  have "distinct (map fst (sort_key fst kvs))" using assms by (simp add: distinct_map)
  then have "map_of (sort_key fst kvs) = map_of kvs"
    using assms by (subst map_of_inject_set) simp_all
  then show ?thesis by simp
qed

lemma obj_get_canon:
  assumes "distinct (map fst kvs)"
  shows "obj_get k (sort_key fst (map (\<lambda>(k, v). (k, canon v)) kvs)) = map_option canon (obj_get k kvs)"
proof -
  have d: "map fst (map (\<lambda>(k, v). (k, canon v)) kvs) = map fst kvs" by (induction kvs) auto
  have "map_of (map (\<lambda>(k, v). (k, canon v)) kvs) k = map_option canon (map_of kvs k)"
    by (induction kvs) auto
  with assms d show ?thesis by (simp only: obj_get_def map_of_sort_key)
qed

definition canon_pe :: "portable_error \<Rightarrow> portable_error" where
  "canon_pe pe =
     PortableWorkflowError (pe_name pe) (pe_message pe) (map_option canon (pe_code pe))
       (map_option canon (pe_data pe))"

definition plain_pe :: "portable_error \<Rightarrow> bool" where
  "plain_pe pe \<longleftrightarrow> plain_field (pe_code pe) \<and> plain_field (pe_data pe)"

lemma pe_json_roundtrip:
  assumes "plain_pe pe"
  shows "plain_json (pe_to_json pe)" and "pe_of_json (canon (pe_to_json pe)) = Some (canon_pe pe)"
proof -
  obtain n m co da where pe: "pe = PortableWorkflowError n m co da" by (cases pe)
  let ?kvs = "[(''name'', JString n), (''message'', JString m)]
       @ (case co of None \<Rightarrow> [] | Some v \<Rightarrow> [(''code'', v)])
       @ (case da of None \<Rightarrow> [] | Some v \<Rightarrow> [(''data'', v)])"
  have kvs: "pe_to_json pe = JObject ?kvs" by (simp add: pe pe_to_json_def)
  have d: "distinct (map fst ?kvs)" by (simp split: option.split)
  show "plain_json (pe_to_json pe)"
    using assms d unfolding kvs by (auto simp: pe plain_pe_def plain_field_def split: option.splits)
  have get: "obj_get ''name'' ?kvs = Some (JString n)" "obj_get ''message'' ?kvs = Some (JString m)"
    "obj_get ''code'' ?kvs = co" "obj_get ''data'' ?kvs = da"
    by (auto simp: obj_get_def split: option.split)
  have f: "plain_field co" "plain_field da" using assms by (simp_all add: pe plain_pe_def)
  show "pe_of_json (canon (pe_to_json pe)) = Some (canon_pe pe)"
    unfolding kvs canon.simps pe_of_json_def json.case obj_get_canon [OF d] get
    by (simp add: opt_field_canon f pe canon_pe_def)
qed

text \<open>What is left of an error after storage: a workflow that is not portable stores the text
  and reads back an error of category WorkflowExecution whose message is that whole text, whatever
  the original category was; a portable workflow reads back the name, message, code and data of the
  portable error it wrapped.\<close>

theorem stored_error_read_back:
  assumes "codec_ok c"
  shows "(ser \<noteq> PORTABLE_SERIALIZER_NAME \<longrightarrow>
           deserialize_workflow_error c (Some (serialize_workflow_error c e ser)) ser
           = Some (plain_error (error_display e))
         \<and> err_code (plain_error (error_display e)) = WorkflowExecution)
       \<and> (\<forall>pe. portable_from_source e = Some pe \<longrightarrow> plain_pe pe \<longrightarrow>
            (\<exists>e'. deserialize_workflow_error c
                    (Some (serialize_workflow_error c e PORTABLE_SERIALIZER_NAME)) PORTABLE_SERIALIZER_NAME
                  = Some e'
               \<and> err_message e' = pe_message pe \<and> portable_from_source e' = Some (canon_pe pe)))"
proof (intro conjI allI impI)
  show "deserialize_workflow_error c (Some (serialize_workflow_error c e ser)) ser
      = Some (plain_error (error_display e))" if "ser \<noteq> PORTABLE_SERIALIZER_NAME"
    using that by (simp add: deserialize_workflow_error_def serialize_workflow_error_def error_display_def)
  show "err_code (plain_error (error_display e)) = WorkflowExecution"
    by (simp add: plain_error_def)
  fix pe
  assume pe: "portable_from_source e = Some pe" "plain_pe pe"
  note rt = pe_json_roundtrip [OF pe(2)]
  let ?t = "cd_print c (pe_to_json pe)"
  have t: "serialize_workflow_error c e PORTABLE_SERIALIZER_NAME = ?t"
    by (simp add: serialize_workflow_error_def pe)
  show "\<exists>e'. deserialize_workflow_error c
                    (Some (serialize_workflow_error c e PORTABLE_SERIALIZER_NAME)) PORTABLE_SERIALIZER_NAME
                  = Some e'
               \<and> err_message e' = pe_message pe \<and> portable_from_source e' = Some (canon_pe pe)"
    unfolding t deserialize_workflow_error_def
    using codec_okD(1) [OF assms rt(1)] codec_okD(4) [OF assms] rt(2)
    by (simp add: portable_from_source_wrapped) (simp add: canon_pe_def)
qed

lemma stored_error_read_back_witness:
  "deserialize_workflow_error sample_codec
     (Some (serialize_workflow_error sample_codec (timeout_error [] [] []) ''DBOS_JSON'')) ''DBOS_JSON''
   = Some (plain_error ''DBOS Error 16: Operation timed out'')"
proof -
  have "error_display (timeout_error [] [] []) = ''DBOS Error 16: Operation timed out''"
    by (simp add: error_display_def timeout_error_def error_new_def code_display_def show_nat.simps
        digit_chars)
  then show ?thesis
    using stored_error_read_back [OF sample_codec_ok, of "''DBOS_JSON''" "timeout_error [] [] []"]
    by (simp add: PORTABLE_SERIALIZER_NAME_def)
qed

end
