(* ===== verification/Workflow_Step.thy ===== *)
theory Workflow_Step
  imports Lifecycle Serialization_Laws
begin

text \<open>
  \<open>crates/dbos-core/src/workflow/step.rs\<close>: durable steps with and without retries, and the durable
  sleep.  The engine's state holds the database, the world that step closures act on (a type
  parameter), the step counter of the running workflow (\<open>WorkflowState::step_id\<close>), and oracles
  indexed by \<open>en_reads\<close>: the clock, fresh uuids, what others do to the database during a wait, and
  whether the context is cancelled during it.  \<open>cx_duration\<close> is Rust's \<open>{:?}\<close> of a duration.
\<close>

subsection \<open>Contexts and the engine's state\<close>

record ctx =
  cx_codec :: codec
  cx_serializer :: "serializer option"
  cx_duration :: "int \<Rightarrow> string"

record wfctx =
  wc_id :: string
  wc_portable :: bool
  wc_within_step :: bool
  wc_user :: string
  wc_role :: string
  wc_roles :: "string list"

record 'w eng =
  en_db :: sysdb
  en_world :: 'w
  en_ticks :: "nat \<Rightarrow> int"
  en_reads :: nat
  en_step :: int
  en_uuids :: "nat \<Rightarrow> string"
  en_env :: "nat \<Rightarrow> sysdb \<Rightarrow> sysdb"
  en_cancel :: "nat \<Rightarrow> bool"

definition now_ms :: "'w eng \<Rightarrow> int \<times> 'w eng" where
  "now_ms e = (en_ticks e (en_reads e), e\<lparr>en_reads := Suc (en_reads e)\<rparr>)"

definition new_uuid :: "'w eng \<Rightarrow> string \<times> 'w eng" where
  "new_uuid e = (en_uuids e (en_reads e), e\<lparr>en_reads := Suc (en_reads e)\<rparr>)"

definition next_step_id :: "'w eng \<Rightarrow> int \<times> 'w eng" where
  "next_step_id e = (en_step e + 1, e\<lparr>en_step := en_step e + 1\<rparr>)"

text \<open>A step closure: the step id it sees, the world before, its result and the world after.\<close>

type_synonym 'w step_fn = "int \<Rightarrow> 'w \<Rightarrow> json res \<times> 'w"

definition call_step :: "'w step_fn \<Rightarrow> int \<Rightarrow> 'w eng \<Rightarrow> json res \<times> 'w eng" where
  "call_step f k e = (let (r, w) = f k (en_world e) in (r, e\<lparr>en_world := w\<rparr>))"

subsection \<open>Checking and recording\<close>

definition io_error :: "string \<Rightarrow> err_source" where
  "io_error t = SrcOther t None"

definition check_step ::
  "ctx \<Rightarrow> wfctx \<Rightarrow> int \<Rightarrow> string \<Rightarrow> sysdb \<Rightarrow> json res option res" where
  "check_step cx wc step_id name db =
     (case check_operation_execution (wc_id wc) step_id name db of
        Inl e \<Rightarrow> Inl e
      | Inr None \<Rightarrow> Inr None
      | Inr (Some rec) \<Rightarrow>
          (case rr_error rec of
             Some err_str \<Rightarrow>
               Inr (Some (Inl (unwrap_or
                 (deserialize_workflow_error (cx_codec cx) (Some err_str) (rr_serialization rec))
                 (step_execution (wc_id wc) name (io_error ''recorded step error'')))))
           | None \<Rightarrow>
               (case resolve_decoder (cx_codec cx) (rr_serialization rec) (cx_serializer cx) of
                  Inl se \<Rightarrow> Inl (from_serialize_error se)
                | Inr decoder \<Rightarrow>
                    (case decode decoder (rr_output rec) of
                       Inl e \<Rightarrow> Inl e
                     | Inr v \<Rightarrow> Inr (Some (Inr v))))))"

text \<open>The row \<open>record_step\<close> writes for a result; encoding the value can fail.\<close>

definition step_record ::
  "ctx \<Rightarrow> wfctx \<Rightarrow> int \<Rightarrow> string \<Rightarrow> int \<Rightarrow> int \<Rightarrow> json res \<Rightarrow> record_input res" where
  "step_record cx wc step_id name started completed result =
     (let encoder = resolve_encoder (cx_codec cx) (wc_portable wc) (cx_serializer cx);
          input = (\<lambda>out err.
            \<lparr>ri_workflow_id = wc_id wc, ri_step_id = step_id, ri_step_name = name, ri_output = out,
             ri_error = err, ri_child = None, ri_started_at_ms = started,
             ri_completed_at_ms = completed, ri_serialization = sz_name encoder\<rparr>)
      in case result of
           Inr v \<Rightarrow> bind_res (encode encoder v) (\<lambda>out. Inr (input out None))
         | Inl e \<Rightarrow>
             Inr (input None (Some (serialize_workflow_error (cx_codec cx) e (sz_name encoder)))))"

definition record_step ::
  "ctx \<Rightarrow> wfctx \<Rightarrow> int \<Rightarrow> string \<Rightarrow> int \<Rightarrow> int \<Rightarrow> json res \<Rightarrow> sysdb \<Rightarrow> unit res \<times> sysdb" where
  "record_step cx wc step_id name started completed result db =
     (case step_record cx wc step_id name started completed result of
        Inl e \<Rightarrow> (Inl e, db)
      | Inr input \<Rightarrow>
          (case record_operation_result input db of
             (Inl e, db') \<Rightarrow>
               (Inl (if is_code e ConflictingId then e
                     else step_execution_dbos (wc_id wc) name e), db')
           | (Inr _, db') \<Rightarrow> (Inr (), db')))"

subsection \<open>Steps\<close>

text \<open>The body common to \<open>run_step\<close> and \<open>run_step_opts\<close>: \<open>body\<close> runs the closure at a step id.\<close>

definition memoized ::
  "ctx \<Rightarrow> wfctx \<Rightarrow> string \<Rightarrow> (int \<Rightarrow> 'w eng \<Rightarrow> json res \<times> 'w eng) \<Rightarrow> 'w eng \<Rightarrow> json res \<times> 'w eng" where
  "memoized cx wc name body e =
     (let (step_id, e) = next_step_id e in
      case check_step cx wc step_id name (en_db e) of
        Inl err \<Rightarrow> (Inl err, e)
      | Inr (Some replayed) \<Rightarrow> (replayed, e)
      | Inr None \<Rightarrow>
          (let (started, e) = now_ms e;
               (result, e) = body step_id e;
               (completed, e) = now_ms e;
               (rec, db) = record_step cx wc step_id name started completed result (en_db e)
           in (case rec of Inl err \<Rightarrow> (Inl err, e\<lparr>en_db := db\<rparr>)
                         | Inr _ \<Rightarrow> (result, e\<lparr>en_db := db\<rparr>))))"

definition run_step :: "ctx \<Rightarrow> wfctx \<Rightarrow> string \<Rightarrow> 'w step_fn \<Rightarrow> 'w eng \<Rightarrow> json res \<times> 'w eng" where
  "run_step cx wc name f e =
     (if wc_within_step wc then call_step f (en_step e) e
      else memoized cx wc name (call_step f) e)"

record step_options =
  so_max_retries :: int
  so_retry_predicate :: "(dbos_error \<Rightarrow> bool) option"

fun join_with :: "string \<Rightarrow> string list \<Rightarrow> string" where
  "join_with sep [] = []"
| "join_with sep [x] = x"
| "join_with sep (x # y # ys) = x @ sep @ join_with sep (y # ys)"

text \<open>
  \<open>execute_with_retry\<close>.  \<open>stop n\<close> says that the context is cancelled during the wait after the
  \<open>n\<close>-th run; the length of the waits is left out, it affects no result.
\<close>

function retry_loop ::
  "wfctx \<Rightarrow> string \<Rightarrow> step_options \<Rightarrow> (int \<Rightarrow> bool) \<Rightarrow> ('w \<Rightarrow> json res \<times> 'w) \<Rightarrow>
   string list \<Rightarrow> int \<Rightarrow> 'w \<Rightarrow> json res \<times> 'w" where
  "retry_loop wc name opts stop f joined runs w =
     (let (r, w) = f w; runs = runs + 1 in
      case r of
        Inr v \<Rightarrow> (Inr v, w)
      | Inl err \<Rightarrow>
          (let joined = joined @ [error_display err] in
           if runs > so_max_retries opts
           then (if so_max_retries opts \<le> 0 then (Inl err, w)
                 else (Inl (max_step_retries_exceeded (wc_id wc) name (so_max_retries opts)
                         (io_error (join_with ''; '' joined))), w))
           else if (case so_retry_predicate opts of None \<Rightarrow> False | Some p \<Rightarrow> \<not> p err) then (Inl err, w)
           else if stop runs
           then (Inl (step_execution (wc_id wc) name (io_error ''context cancelled during retry'')), w)
           else retry_loop wc name opts stop f joined runs w))"
  by pat_completeness auto
termination
  by (relation "measure (\<lambda>(wc, name, opts, stop, f, joined, runs, w). nat (so_max_retries opts + 1 - runs))")
    auto

declare retry_loop.simps [simp del]

definition execute_with_retry ::
  "wfctx \<Rightarrow> string \<Rightarrow> step_options \<Rightarrow> (int \<Rightarrow> bool) \<Rightarrow> 'w step_fn \<Rightarrow> int \<Rightarrow> 'w eng \<Rightarrow> json res \<times> 'w eng" where
  "execute_with_retry wc name opts stop f step_id e =
     (let (r, w) = retry_loop wc name opts stop (f step_id) [] 0 (en_world e)
      in (r, e\<lparr>en_world := w\<rparr>))"

definition run_step_opts ::
  "ctx \<Rightarrow> wfctx \<Rightarrow> string \<Rightarrow> step_options \<Rightarrow> (int \<Rightarrow> bool) \<Rightarrow> 'w step_fn \<Rightarrow> 'w eng \<Rightarrow> json res \<times> 'w eng" where
  "run_step_opts cx wc name opts stop f e =
     (if wc_within_step wc then call_step f (en_step e) e
      else memoized cx wc name (execute_with_retry wc name opts stop f) e)"

subsection \<open>Sleep\<close>

definition decode_i64 :: "codec \<Rightarrow> string option \<Rightarrow> int res" where
  "decode_i64 c s =
     bind_res (decode (json_serializer c) s)
       (\<lambda>v. case v of
          JInt i \<Rightarrow> if in_i64 i then Inr i else Inl (from_serialize_error (DecodeJson (cd_type_error c v)))
        | _ \<Rightarrow> Inl (from_serialize_error (DecodeJson (cd_type_error c v))))"

text \<open>The wake-up time: recorded by this run, by another executor meanwhile, or by an earlier run.\<close>

definition durable_time :: "string \<Rightarrow> ctx \<Rightarrow> wfctx \<Rightarrow> int \<Rightarrow> int \<Rightarrow> 'w eng \<Rightarrow> int res \<times> 'w eng" where
  "durable_time missing cx wc step_id duration_ms e =
     (let c = cx_codec cx; name = ''DBOS.sleep'' in
      case check_operation_execution (wc_id wc) step_id name (en_db e) of
        Inl err \<Rightarrow> (Inl err, e)
      | Inr (Some rec) \<Rightarrow> (decode_i64 c (rr_output rec), e)
      | Inr None \<Rightarrow>
          (let (t, e) = now_ms e; end = add_i64 t (as_i64 duration_ms) in
           case encode (json_serializer c) (JInt end) of
             Inl err \<Rightarrow> (Inl err, e)
           | Inr encoded \<Rightarrow>
               (let (started, e) = now_ms e; (completed, e) = now_ms e;
                    rec = \<lparr>ri_workflow_id = wc_id wc, ri_step_id = step_id, ri_step_name = name,
                      ri_output = encoded, ri_error = None, ri_child = None,
                      ri_started_at_ms = started, ri_completed_at_ms = completed,
                      ri_serialization = sz_name (json_serializer c)\<rparr>
                in case record_operation_result rec (en_db e) of
                     (Inr _, db) \<Rightarrow> (Inr end, e\<lparr>en_db := db\<rparr>)
                   | (Inl err, db) \<Rightarrow>
                       (if is_code err ConflictingId
                        then (case check_operation_execution (wc_id wc) step_id name db of
                                Inl err \<Rightarrow> Inl err
                              | Inr None \<Rightarrow>
                                  Inl (step_execution (wc_id wc) name (io_error missing))
                              | Inr (Some rec) \<Rightarrow> decode_i64 c (rr_output rec))
                        else Inl err, e\<lparr>en_db := db\<rparr>))))"

definition sleep_end :: "ctx \<Rightarrow> wfctx \<Rightarrow> int \<Rightarrow> int \<Rightarrow> 'w eng \<Rightarrow> int res \<times> 'w eng" where
  "sleep_end = durable_time ''no recorded sleep end time''"

text \<open>\<open>sleep\<close> returns how long it slept, in milliseconds.\<close>

definition sleep :: "ctx \<Rightarrow> wfctx \<Rightarrow> int \<Rightarrow> 'w eng \<Rightarrow> int res \<times> 'w eng" where
  "sleep cx wc duration_ms e =
     (if wc_within_step wc
      then (Inl (step_execution (wc_id wc) ''DBOS.sleep'' (io_error ''cannot call Sleep within a step'')), e)
      else
        (let (step_id, e) = next_step_id e; (r, e) = sleep_end cx wc step_id duration_ms e in
         case r of
           Inl err \<Rightarrow> (Inl err, e)
         | Inr end \<Rightarrow> (let (t, e) = now_ms e in (Inr (max (sub_i64 end t) 0), e))))"

subsection \<open>Replay\<close>

text \<open>What a later run sees of a result this run recorded.\<close>

definition replayed :: "ctx \<Rightarrow> wfctx \<Rightarrow> json res \<Rightarrow> json res" where
  "replayed cx wc result =
     (case result of
        Inr v \<Rightarrow> Inr (canon v)
      | Inl e \<Rightarrow>
          (let nm = sz_name (resolve_encoder (cx_codec cx) (wc_portable wc) (cx_serializer cx))
           in Inl (unwrap_or
                (deserialize_workflow_error (cx_codec cx)
                  (Some (serialize_workflow_error (cx_codec cx) e nm)) nm) e)))"

definition ctx_ok :: "ctx \<Rightarrow> bool" where
  "ctx_ok cx \<longleftrightarrow> codec_ok (cx_codec cx) \<and> custom_ok (cx_serializer cx)"

definition plain_result :: "json res \<Rightarrow> bool" where
  "plain_result r \<longleftrightarrow> (case r of Inl _ \<Rightarrow> True | Inr v \<Rightarrow> plain_json v)"

lemma serialize_error_nonempty: "codec_ok c \<Longrightarrow> serialize_workflow_error c e nm \<noteq> []"
  by (simp add: serialize_workflow_error_def error_display_def codec_okD)

lemma deserialize_Some: "s \<noteq> [] \<Longrightarrow> \<exists>e. deserialize_workflow_error c (Some s) nm = Some e"
  by (auto simp: deserialize_workflow_error_def split: sum.splits option.splits)

lemma step_record_shape:
  assumes "step_record cx wc k name t1 t2 result = Inr input"
  defines "ser \<equiv> resolve_encoder (cx_codec cx) (wc_portable wc) (cx_serializer cx)"
  shows "ri_workflow_id input = wc_id wc \<and> ri_step_id input = k \<and> ri_step_name input = name
    \<and> ri_serialization input = sz_name ser
    \<and> (case result of
         Inr v \<Rightarrow> ri_error input = None \<and> encode ser v = Inr (ri_output input)
       | Inl e \<Rightarrow> ri_error input = Some (serialize_workflow_error (cx_codec cx) e (sz_name ser)))"
proof (cases result)
  case (Inl e)
  with assms(1) show ?thesis by (simp add: step_record_def Let_def ser_def) (drule sym, simp)
next
  case (Inr v)
  with assms(1) obtain out where o': "encode ser v = Inr out"
    by (cases "encode ser v") (simp_all add: step_record_def Let_def ser_def)
  with Inr assms(1) show ?thesis by (simp add: step_record_def Let_def ser_def) (drule sym, simp)
qed

lemma step_record_fields:
  assumes "step_record cx wc k name t1 t2 result = Inr input"
  shows "ri_workflow_id input = wc_id wc" "ri_step_id input = k" "ri_step_name input = name"
    "ri_serialization input = sz_name (resolve_encoder (cx_codec cx) (wc_portable wc) (cx_serializer cx))"
    "ri_error input = (case result of Inr _ \<Rightarrow> None | Inl e \<Rightarrow>
       Some (serialize_workflow_error (cx_codec cx) e (ri_serialization input)))"
    "result = Inr v \<Longrightarrow> encode (resolve_encoder (cx_codec cx) (wc_portable wc) (cx_serializer cx)) v
       = Inr (ri_output input)"
  using step_record_shape [OF assms] by (auto split: sum.splits)

text \<open>A recorded row answers the check with the replayed result.\<close>

lemma check_step_recorded:
  assumes cx: "ctx_ok cx" and rec: "step_record cx wc k name t1 t2 result = Inr input"
    and "plain_result result"
    and live: "live_workflow db (wc_id wc)" and row: "op_of db (wc_id wc) k = Some (recorded_row input)"
  shows "check_step cx wc k name db = Inr (Some (replayed cx wc result))"
proof -
  let ?enc = "resolve_encoder (cx_codec cx) (wc_portable wc) (cx_serializer cx)"
  note f = step_record_fields [OF rec]
  have chk: "check_operation_execution (wc_id wc) k name db
      = Inr (Some \<lparr>rr_output = ri_output input, rr_error = non_empty_opt (ri_error input),
                   rr_serialization = sz_name ?enc\<rparr>)"
    using live row f(3,4) by (auto simp: check_operation_execution_def live_workflow_def split: option.splits)
  show ?thesis
  proof (cases result)
    case (Inl e)
    let ?s = "serialize_workflow_error (cx_codec cx) e (sz_name ?enc)"
    have "?s \<noteq> []" using cx serialize_error_nonempty by (simp add: ctx_ok_def)
    then have "non_empty_opt (ri_error input) = Some ?s" using f(4,5) Inl by (simp add: opt_str_def)
    moreover obtain d where "deserialize_workflow_error (cx_codec cx) (Some ?s) (sz_name ?enc) = Some d"
      using deserialize_Some [OF \<open>?s \<noteq> []\<close>] by blast
    ultimately show ?thesis by (simp add: check_step_def chk Inl replayed_def Let_def)
  next
    case (Inr v)
    with assms(3) have "plain_json v" by (simp add: plain_result_def)
    with encoder_faithful [of "cx_codec cx" "cx_serializer cx" "wc_portable wc"] cx f(6) [OF Inr]
    have "decode ?enc (ri_output input) = Inr (canon v)"
      by (auto simp: faithful_def encode_def decode_def ctx_ok_def)
    moreover have "resolve_decoder (cx_codec cx) (sz_name ?enc) (cx_serializer cx) = Inr ?enc"
      using cx by (simp add: decoder_matches ctx_ok_def)
    ultimately show ?thesis using f(5) Inr by (simp add: check_step_def chk replayed_def)
  qed
qed

lemma record_step_ok:
  assumes "record_step cx wc k name t1 t2 result db = (Inr (), db')"
  obtains input where "step_record cx wc k name t1 t2 result = Inr input"
    "record_operation_result input db = (Inr (), db')"
    "op_of db' (wc_id wc) k = Some (recorded_row input)"
proof -
  from assms obtain input where i: "step_record cx wc k name t1 t2 result = Inr input"
    by (cases "step_record cx wc k name t1 t2 result") (simp_all add: record_step_def)
  obtain res d where rd: "record_operation_result input db = (res, d)" by fastforce
  have r: "record_operation_result input db = (Inr (), db')"
    using assms rd by (cases res) (simp_all add: record_step_def i)
  from record_ok(1) [OF r] have "op_of db' (wc_id wc) k = Some (recorded_row input)"
    unfolding step_record_fields(1,2) [OF i] .
  from that [OF i r this] show thesis .
qed

lemma memoized_replays:
  assumes "check_step cx wc (en_step e + 1) name (en_db e) = Inr (Some r)"
  shows "memoized cx wc name body e = (r, e\<lparr>en_step := en_step e + 1\<rparr>)"
  using assms by (simp add: memoized_def next_step_id_def Let_def)

lemma check_step_fresh:
  assumes "live_workflow db (wc_id wc)" "op_of db (wc_id wc) k = None"
  shows "check_step cx wc k name db = Inr None"
  using assms by (auto simp: check_step_def check_operation_execution_def live_workflow_def split: option.splits)

lemma memoized_records:
  assumes "live_workflow (en_db e) (wc_id wc)" "op_of (en_db e) (wc_id wc) (en_step e + 1) = None"
    and "memoized cx wc name body e = (r, e')"
    and "op_of (en_db e') (wc_id wc) (en_step e + 1) \<noteq> None"
    and body: "\<And>k e. en_db (snd (body k e)) = en_db e"
  obtains result e1 t1 t2 input where
    "body (en_step e + 1) (snd (now_ms (e\<lparr>en_step := en_step e + 1\<rparr>))) = (result, e1)"
    "step_record cx wc (en_step e + 1) name t1 t2 result = Inr input" "r = result"
    "op_of (en_db e') (wc_id wc) (en_step e + 1) = Some (recorded_row input)"
proof -
  let ?k = "en_step e + 1"
  obtain t1 e0 where n1: "now_ms (e\<lparr>en_step := ?k\<rparr>) = (t1, e0)" by fastforce
  obtain result e1 where b: "body ?k e0 = (result, e1)" by fastforce
  obtain t2 e2 where n2: "now_ms e1 = (t2, e2)" by fastforce
  have "en_db e0 = en_db e" using n1 by (auto simp: now_ms_def)
  then have db1: "en_db e1 = en_db e" using body [of ?k e0] b by simp
  then have db2: "en_db e2 = en_db e" using n2 by (auto simp: now_ms_def)
  obtain rc db' where rc: "record_step cx wc ?k name t1 t2 result (en_db e) = (rc, db')" by fastforce
  have m: "memoized cx wc name body e
      = (case rc of Inl err \<Rightarrow> (Inl err, e2\<lparr>en_db := db'\<rparr>) | Inr _ \<Rightarrow> (result, e2\<lparr>en_db := db'\<rparr>))"
    using check_step_fresh [OF assms(1,2)]
    by (simp add: memoized_def next_step_id_def Let_def n1 b n2 rc db2)
  have "rc = Inr ()"
  proof (cases rc)
    case (Inl err)
    then have "db' = en_db e"
      using rc by (auto simp: record_step_def record_operation_result_def split: sum.splits prod.splits if_splits)
    with Inl m assms(2,3,4) show ?thesis by auto
  qed simp
  with rc have "record_step cx wc ?k name t1 t2 result (en_db e) = (Inr (), db')" by simp
  then obtain input where i: "step_record cx wc ?k name t1 t2 result = Inr input"
    "op_of db' (wc_id wc) ?k = Some (recorded_row input)" by (rule record_step_ok)
  from m assms(3) \<open>rc = Inr ()\<close> have "r = result" "en_db e' = db'" by auto
  with i b n1 that show thesis by simp
qed

lemma run_keeping_exists: "run_keeping i a b \<Longrightarrow> wf_exists a i"
  by (induction rule: run_keeping.induct) auto

lemma recorded_step_persists:
  assumes "schema_ok db" "run_keeping i db db'" "op_of db i k = Some s"
  shows "op_of db' i k = Some s"
proof -
  from run_keeping_exists [OF assms(2)] obtain r where "wf_row db i = Some r" by auto
  from run_keeping_contract [OF assms(2,1) this] assms(3) show ?thesis by blast
qed

lemma memoized_once:
  assumes "ctx_ok cx" "live_workflow (en_db e) (wc_id wc)"
    and "op_of (en_db e) (wc_id wc) (en_step e + 1) = None"
    and "memoized cx wc name body e = (r, e1)"
    and "op_of (en_db e1) (wc_id wc) (en_step e + 1) \<noteq> None"
    and "\<And>k e. en_db (snd (body k e)) = en_db e" and "plain_result r"
    and "schema_ok (en_db e1)" "run_keeping (wc_id wc) (en_db e1) (en_db e2)"
    and "live_workflow (en_db e2) (wc_id wc)" "en_step e2 = en_step e"
  shows "memoized cx wc name body' e2 = (replayed cx wc r, e2\<lparr>en_step := en_step e + 1\<rparr>)"
proof -
  from memoized_records [OF assms(2-6)] obtain t1 t2 input where
    "step_record cx wc (en_step e + 1) name t1 t2 r = Inr input"
    "op_of (en_db e1) (wc_id wc) (en_step e + 1) = Some (recorded_row input)" by metis
  from check_step_recorded [OF assms(1) this(1) assms(7,10)
      recorded_step_persists [OF assms(8,9) this(2)]]
  show ?thesis using memoized_replays [of cx wc e2 name] assms(11) by simp
qed

lemma call_step_db: "en_db (snd (call_step f k e)) = en_db e"
  by (simp add: call_step_def split_beta Let_def)

lemma retry_db: "en_db (snd (execute_with_retry wc name opts stop f k e)) = en_db e"
  by (simp add: execute_with_retry_def split_beta Let_def)

subsection \<open>Correctness\<close>

text \<open>C2. A step whose result was recorded never runs again: when the workflow is replayed, on any
  executor, after any operations on the database that did not delete or cancel it, the same step
  returns the recorded result whatever closure it is given, and neither the world nor the database
  changes.\<close>

theorem step_runs_once:
  assumes "ctx_ok cx" "\<not> wc_within_step wc"
    and "live_workflow (en_db e) (wc_id wc)" "op_of (en_db e) (wc_id wc) (en_step e + 1) = None"
    and "run_step cx wc name f e = (r, e1)" "plain_result r"
    and "op_of (en_db e1) (wc_id wc) (en_step e + 1) \<noteq> None"
    and "schema_ok (en_db e1)" "run_keeping (wc_id wc) (en_db e1) (en_db e2)"
    and "live_workflow (en_db e2) (wc_id wc)" "en_step e2 = en_step e"
  shows "run_step cx wc name g e2 = (replayed cx wc r, e2\<lparr>en_step := en_step e + 1\<rparr>)
       \<and> run_step_opts cx wc name opts stop g e2 = (replayed cx wc r, e2\<lparr>en_step := en_step e + 1\<rparr>)"
  using memoized_once [OF assms(1,3,4) _ assms(7) call_step_db assms(6,8-11)] assms(2,5)
  by (simp add: run_step_def run_step_opts_def)

definition sample_ctx :: ctx where
  "sample_ctx = \<lparr>cx_codec = sample_codec, cx_serializer = None, cx_duration = show_int\<rparr>"

definition sample_wfctx :: wfctx where
  "sample_wfctx = \<lparr>wc_id = ''w1'', wc_portable = False, wc_within_step = False, wc_user = [], wc_role = [], wc_roles = []\<rparr>"

definition sample_eng :: "nat eng" where
  "sample_eng =
     \<lparr>en_db = sample_db, en_world = 0, en_ticks = (\<lambda>n. 2000 + int n), en_reads = 0, en_step = 0,
      en_uuids = (\<lambda>n. ''uuid-'' @ show_nat n), en_env = (\<lambda>_ db. db), en_cancel = (\<lambda>_. False)\<rparr>"

text \<open>A step that charges once: it counts its calls in the world.\<close>

definition charge :: "nat step_fn" where
  "charge k w = (Inr (JInt 7), w + 1)"

lemma sample_ctx_ok: "ctx_ok sample_ctx"
  by (simp add: ctx_ok_def sample_ctx_def sample_codec_ok custom_ok_def)

lemmas step_simps =
  run_step_def memoized_def next_step_id_def now_ms_def call_step_def check_step_def record_step_def
  step_record_def record_operation_result_def check_operation_execution_def resolve_encoder_def
  encode_def json_serializer_def is_null_def Let_def sample_ctx_def sample_wfctx_def sample_eng_def
  charge_def

lemma charge_recorded:
  "\<exists>e1. run_step sample_ctx sample_wfctx ''pay'' charge sample_eng = (Inr (JInt 7), e1)
     \<and> op_of (en_db e1) ''w1'' 1 \<noteq> None \<and> schema_ok (en_db e1) \<and> en_world e1 = 1
     \<and> live_workflow (en_db e1) ''w1''"
proof -
  let ?in = "\<lparr>ri_workflow_id = ''w1'', ri_step_id = 1, ri_step_name = ''pay'',
      ri_output = Some (cd_b64_encode sample_codec (cd_print sample_codec (JInt 7))), ri_error = None,
      ri_child = None, ri_started_at_ms = 2000, ri_completed_at_ms = 2001,
      ri_serialization = JSON_SERIALIZER_NAME\<rparr>"
  let ?db = "snd (record_operation_result ?in sample_db)"
  have fresh: "op_of sample_db ''w1'' 1 = None" by (simp add: sample_simps)
  have run: "run_step sample_ctx sample_wfctx ''pay'' charge sample_eng
      = (Inr (JInt 7), \<lparr>en_db = ?db, en_world = 1, en_ticks = (\<lambda>n. 2000 + int n), en_reads = 2,
                          en_step = 1, en_uuids = en_uuids sample_eng, en_env = en_env sample_eng,
                          en_cancel = en_cancel sample_eng\<rparr>)"
    using fresh sample_rows(1) by (simp add: step_simps) (simp add: sample_row_def)
  have "op_of ?db ''w1'' 1 \<noteq> None"
    using fresh sample_rows(1) op_of_record [where input = ?in and db = sample_db and i = "''w1''" and k = 1] by simp
  moreover have "schema_ok ?db" using record_evolution [OF sample_schema] by blast
  moreover have "live_workflow ?db ''w1''"
    using sample_rows(1) by (simp add: live_workflow_def sample_row_def)
  ultimately show ?thesis using run by simp
qed

lemma step_runs_once_witness:
  "\<exists>e1 :: nat eng. fst (run_step sample_ctx sample_wfctx ''pay'' charge sample_eng) = Inr (JInt 7)
     \<and> run_step sample_ctx sample_wfctx ''pay'' (\<lambda>k w. (Inr JNull, w + 100)) (e1\<lparr>en_step := 0\<rparr>)
       = (Inr (JInt 7), e1\<lparr>en_step := 1\<rparr>)"
proof -
  from charge_recorded obtain e1 where
    run: "run_step sample_ctx sample_wfctx ''pay'' charge sample_eng = (Inr (JInt 7), e1)" and
    e1: "op_of (en_db e1) ''w1'' 1 \<noteq> None" "schema_ok (en_db e1)" "live_workflow (en_db e1) ''w1''"
    by blast
  have keep: "run_keeping ''w1'' (en_db e1) (en_db e1)"
    using e1(3) by (intro run_keeping.start) (auto simp: live_workflow_def split: option.splits)
  have live: "live_workflow sample_db ''w1''" "op_of sample_db ''w1'' 1 = None"
    by (simp_all add: live_workflow_def sample_rows) (simp_all add: sample_simps)
  have "run_step sample_ctx sample_wfctx ''pay'' (\<lambda>k w. (Inr JNull, w + 100)) (e1\<lparr>en_step := 0\<rparr>)
      = (replayed sample_ctx sample_wfctx (Inr (JInt 7)), (e1\<lparr>en_step := 0\<rparr>)\<lparr>en_step := 0 + 1\<rparr>)"
    using step_runs_once [OF sample_ctx_ok _ _ _ run, of "e1\<lparr>en_step := 0\<rparr>"] e1 keep live
    by (simp add: sample_wfctx_def sample_eng_def plain_result_def)
  with run show ?thesis by (simp add: replayed_def) blast
qed

text \<open>The runs of a closure under retry: the world after \<open>n\<close> runs and the result of the next one.\<close>

definition world_after :: "('w \<Rightarrow> json res \<times> 'w) \<Rightarrow> nat \<Rightarrow> 'w \<Rightarrow> 'w" where
  "world_after f n w = ((\<lambda>w. snd (f w)) ^^ n) w"

definition result_of :: "('w \<Rightarrow> json res \<times> 'w) \<Rightarrow> nat \<Rightarrow> 'w \<Rightarrow> json res" where
  "result_of f n w = fst (f (world_after f n w))"

definition retry_allowed :: "step_options \<Rightarrow> (int \<Rightarrow> bool) \<Rightarrow> nat \<Rightarrow> dbos_error \<Rightarrow> bool" where
  "retry_allowed opts stop n err \<longleftrightarrow>
     (case so_retry_predicate opts of None \<Rightarrow> True | Some p \<Rightarrow> p err) \<and> \<not> stop (int n)"

lemma world_after_Suc: "world_after f (Suc n) w = world_after f n (snd (f w))"
  by (simp add: world_after_def funpow_Suc_right del: funpow.simps)

lemma result_of_Suc: "result_of f (Suc n) w = result_of f n (snd (f w))"
  by (simp add: result_of_def world_after_Suc)

text \<open>Runs that fail and may be retried are skipped, one message each.\<close>

lemma retry_loop_skip:
  assumes "\<forall>i<n. \<exists>err. result_of f i w = Inl err \<and> retry_allowed opts stop (runs + i + 1) err"
    and "int (runs + n) \<le> so_max_retries opts"
  shows "retry_loop wc name opts stop f joined (int runs) w
       = retry_loop wc name opts stop f
           (joined @ map (\<lambda>i. error_display (projl (result_of f i w))) [0..<n]) (int (runs + n))
           (world_after f n w)"
  using assms
proof (induction n arbitrary: joined runs w)
  case 0
  then show ?case by (simp add: world_after_def)
next
  case (Suc n)
  obtain r w1 where fw: "f w = (r, w1)" by fastforce
  from Suc.prems(1) obtain err where err: "r = Inl err" "retry_allowed opts stop (runs + 1) err"
    using fw by (auto simp: result_of_def world_after_def dest!: spec [of _ 0])
  have rest: "\<forall>i<n. \<exists>err. result_of f i w1 = Inl err \<and> retry_allowed opts stop (Suc runs + i + 1) err"
  proof (intro allI impI)
    fix i
    assume "i < n"
    with Suc.prems(1) have "\<exists>err. result_of f (Suc i) w = Inl err
        \<and> retry_allowed opts stop (runs + Suc i + 1) err" by (meson Suc_less_eq)
    then show "\<exists>err. result_of f i w1 = Inl err \<and> retry_allowed opts stop (Suc runs + i + 1) err"
      using fw by (simp add: result_of_Suc)
  qed
  have step: "retry_loop wc name opts stop f joined (int runs) w
      = retry_loop wc name opts stop f (joined @ [error_display err]) (int (Suc runs)) w1"
    using err Suc.prems(2) fw
    by (subst retry_loop.simps) (auto simp: Let_def retry_allowed_def add.commute split: option.splits)
  have msgs: "map (\<lambda>i. error_display (projl (result_of f i w))) [0..<Suc n]
      = error_display err # map (\<lambda>i. error_display (projl (result_of f i w1))) [0..<n]"
    using fw err(1)
    by (simp add: upt_conv_Cons map_Suc_upt [symmetric] result_of_Suc comp_def del: upt_Suc)
      (simp add: result_of_def world_after_def)
  from Suc.IH [OF rest, of "joined @ [error_display err]"] Suc.prems(2) show ?case
    unfolding step msgs world_after_Suc by (simp add: fw)
qed

lemma retry_loop_stops:
  assumes "result_of f n w = r" "int n \<le> max 0 (so_max_retries opts)"
    and "\<forall>i<n. \<exists>err. result_of f i w = Inl err \<and> retry_allowed opts stop (i + 1) err"
  shows "retry_loop wc name opts stop f [] 0 w
       = retry_loop wc name opts stop f
           (map (\<lambda>i. error_display (projl (result_of f i w))) [0..<n]) (int n) (world_after f n w)"
proof (cases "n = 0")
  case True
  then show ?thesis by (simp add: world_after_def)
next
  case False
  with assms(2) have "int (0 + n) \<le> so_max_retries opts" by simp
  from retry_loop_skip [OF _ this, of f w stop wc name "[]"] assms(3) show ?thesis by simp
qed


definition flaky :: "nat \<Rightarrow> json res \<times> nat" where
  "flaky w = (if w < 2 then Inl no_application_versions else Inr (JInt 1), w + 1)"


subsection \<open>Durable sleep\<close>

lemma decode_i64_encoded:
  assumes "codec_ok c" "in_i64 i" "encode (json_serializer c) (JInt i) = Inr t"
  shows "decode_i64 c t = Inr i"
proof -
  have "plain_json (JInt i)" using assms(2) by (simp add: in_i64_def)
  with json_serializer_faithful [OF assms(1)] have "\<exists>t'. sz_encode (json_serializer c) (JInt i) = Inr t'
      \<and> sz_decode (json_serializer c) t' = Inr (canon (JInt i))" unfolding faithful_def by blast
  then obtain t' where
    "sz_encode (json_serializer c) (JInt i) = Inr t'" "sz_decode (json_serializer c) t' = Inr (JInt i)"
    by auto
  with assms(2,3) show ?thesis by (simp add: decode_i64_def encode_def decode_def)
qed

lemma sleep_recorded:
  assumes "codec_ok (cx_codec cx)" "in_i64 end" "live_workflow (en_db e) (wc_id wc)" "\<not> wc_within_step wc"
    and "encode (json_serializer (cx_codec cx)) (JInt end) = Inr t"
    and "op_of (en_db e) (wc_id wc) (en_step e + 1) = Some r"
    and "op_function_name r = ''DBOS.sleep''" "op_output r = t"
  shows "sleep cx wc d e
       = (Inr (max (sub_i64 end (en_ticks e (en_reads e))) 0),
          e\<lparr>en_step := en_step e + 1, en_reads := Suc (en_reads e)\<rparr>)"
  using assms(3,4,6-8) decode_i64_encoded [OF assms(1,2,5)]
  by (auto simp: sleep_def sleep_end_def durable_time_def next_step_id_def now_ms_def check_operation_execution_def
      live_workflow_def Let_def split: option.splits)

lemma sleep_fresh:
  assumes "live_workflow (en_db e) (wc_id wc)" "\<not> wc_within_step wc"
    and "op_of (en_db e) (wc_id wc) (en_step e + 1) = None"
    and "end = add_i64 (en_ticks e (en_reads e)) (as_i64 d)"
    and "sleep cx wc d e = (Inr s, e1)"
  obtains t r where "encode (json_serializer (cx_codec cx)) (JInt end) = Inr t"
    "op_of (en_db e1) (wc_id wc) (en_step e + 1) = Some r"
    "op_function_name r = ''DBOS.sleep''" "op_output r = t"
    "s = max (sub_i64 end (en_ticks e (Suc (Suc (Suc (en_reads e)))))) 0"
proof -
  let ?c = "cx_codec cx"
  have chk: "check_operation_execution (wc_id wc) (en_step e + 1) ''DBOS.sleep'' (en_db e) = Inr None"
    using assms(1,3) by (auto simp: check_operation_execution_def live_workflow_def split: option.splits)
  obtain t where t: "encode (json_serializer ?c) (JInt end) = Inr t"
    by (simp add: encode_def json_serializer_def is_null_def)
  let ?rec = "\<lparr>ri_workflow_id = wc_id wc, ri_step_id = en_step e + 1, ri_step_name = ''DBOS.sleep'',
      ri_output = t, ri_error = None, ri_child = None, ri_started_at_ms = en_ticks e (Suc (en_reads e)),
      ri_completed_at_ms = en_ticks e (Suc (Suc (en_reads e))),
      ri_serialization = sz_name (json_serializer ?c)\<rparr>"
  have "wf_exists (en_db e) (wc_id wc)" using assms(1) by (auto simp: live_workflow_def split: option.splits)
  then obtain db1 where r: "record_operation_result ?rec (en_db e) = (Inr (), db1)"
    using assms(3) by (simp add: record_operation_result_def)
  let ?e0 = "e\<lparr>en_step := en_step e + 1\<rparr>"
  let ?e3 = "e\<lparr>en_step := en_step e + 1, en_reads := Suc (Suc (Suc (en_reads e)))\<rparr>"
  have clocks: "now_ms ?e0 = (en_ticks e (en_reads e), ?e0\<lparr>en_reads := Suc (en_reads e)\<rparr>)"
    "now_ms (?e0\<lparr>en_reads := Suc (en_reads e)\<rparr>)
      = (en_ticks e (Suc (en_reads e)), ?e0\<lparr>en_reads := Suc (Suc (en_reads e))\<rparr>)"
    "now_ms (?e0\<lparr>en_reads := Suc (Suc (en_reads e))\<rparr>) = (en_ticks e (Suc (Suc (en_reads e))), ?e3)"
    by (simp_all add: now_ms_def)
  have se: "sleep_end cx wc (en_step e + 1) d ?e0 = (Inr end, ?e3\<lparr>en_db := db1\<rparr>)"
    by (simp add: sleep_end_def durable_time_def Let_def chk clocks assms(4) [symmetric] t r)
  have "sleep cx wc d e = (Inr (max (sub_i64 end (en_ticks e (Suc (Suc (Suc (en_reads e)))))) 0),
      e\<lparr>en_step := en_step e + 1, en_reads := Suc (Suc (Suc (Suc (en_reads e)))), en_db := db1\<rparr>)"
    using assms(2) se by (simp add: sleep_def next_step_id_def now_ms_def Let_def)
  moreover note assms(5)
  moreover have "op_of db1 (wc_id wc) (en_step e + 1) = Some (recorded_row ?rec)"
    using record_ok(1) [OF r] by simp
  ultimately show thesis using that [OF t, of "recorded_row ?rec"] by simp
qed

text \<open>C16. A durable sleep keeps its wake-up time over crashes: the time is fixed by the first run, and
  every later run of the same step only sleeps what is left of it, not at all once it has passed,
  whatever duration it is called with, and writes nothing.\<close>

theorem sleep_keeps_wake_time:
  assumes "codec_ok (cx_codec cx)" "\<not> wc_within_step wc"
    and "live_workflow (en_db e) (wc_id wc)" "op_of (en_db e) (wc_id wc) (en_step e + 1) = None"
    and "wake = add_i64 (en_ticks e (en_reads e)) (as_i64 d)"
    and "sleep cx wc d e = (Inr s, e1)"
    and "schema_ok (en_db e1)" "run_keeping (wc_id wc) (en_db e1) (en_db e2)"
    and "live_workflow (en_db e2) (wc_id wc)" "en_step e2 = en_step e"
  shows "sleep cx wc d' e2
       = (Inr (max (sub_i64 wake (en_ticks e2 (en_reads e2))) 0),
          e2\<lparr>en_step := en_step e + 1, en_reads := Suc (en_reads e2)\<rparr>)"
proof -
  obtain t r where
    t: "encode (json_serializer (cx_codec cx)) (JInt wake) = Inr t" and
    r: "op_of (en_db e1) (wc_id wc) (en_step e + 1) = Some r"
      "op_function_name r = ''DBOS.sleep''" "op_output r = t" by (rule sleep_fresh [OF assms(3,2,4,5,6)])
  have i: "in_i64 wake" unfolding assms(5) add_i64_def by (rule as_i64_range)
  have "op_of (en_db e2) (wc_id wc) (en_step e2 + 1) = Some r"
    using recorded_step_persists [OF assms(7,8) r(1)] assms(10) by simp
  from sleep_recorded [OF assms(1) i assms(9,2) t this r(2,3)] assms(10) show ?thesis by simp
qed

lemma record_db_contract:
  assumes "record_operation_result rec db = (r, db')" "schema_ok db"
  shows "schema_ok db'" "wf_row db' i = wf_row db i"
  using record_evolution [OF assms(2), of db' rec] record_wf_row [where input = rec and db = db and i = i]
    assms(1) by auto

lemma sleep_contract:
  assumes "schema_ok (en_db e)"
  shows "schema_ok (en_db (snd (sleep cx wc d e)))"
    and "wf_row (en_db (snd (sleep cx wc d e))) i = wf_row (en_db e) i"
  using assms record_db_contract
  by (auto simp: sleep_def sleep_end_def durable_time_def next_step_id_def now_ms_def Let_def
      split: sum.splits option.splits prod.splits if_splits)

lemma sleep_keeps_wake_time_witness:
  "\<exists>e1 :: nat eng. sleep sample_ctx sample_wfctx 500 sample_eng = (Inr 497, e1)
     \<and> fst (sleep sample_ctx sample_wfctx 500 (e1\<lparr>en_step := 0, en_ticks := (\<lambda>n. 2300)\<rparr>)) = Inr 200
     \<and> fst (sleep sample_ctx sample_wfctx 9 (e1\<lparr>en_step := 0, en_ticks := (\<lambda>n. 9300)\<rparr>)) = Inr 0"
proof -
  obtain r e1 where run: "sleep sample_ctx sample_wfctx 500 sample_eng = (r, e1)" by fastforce
  have wake: "add_i64 (en_ticks sample_eng (en_reads sample_eng)) (as_i64 500) = 2500"
    by (simp add: sample_eng_def add_i64_exact as_i64_id in_i64_def)
  have live: "live_workflow sample_db ''w1''" "op_of sample_db ''w1'' 1 = None"
    by (simp_all add: live_workflow_def sample_rows) (simp_all add: sample_simps)
  have r: "r = Inr 497"
    using run live(2) sample_rows(1) wake
    by (simp add: sleep_def sleep_end_def durable_time_def step_simps sample_row_def sub_i64_exact in_i64_def)
  have e1: "schema_ok (en_db e1)" "wf_row (en_db e1) ''w1'' = Some (sample_row ''w1'' Pending None)"
    using sleep_contract [where e = sample_eng and cx = sample_ctx and wc = sample_wfctx and d = 500]
      sample_schema sample_rows(1) run
    by (simp_all add: sample_eng_def)
  have again: "sleep sample_ctx sample_wfctx d' (e1\<lparr>en_step := 0, en_ticks := t\<rparr>)
      = (Inr (max (sub_i64 2500 (t (en_reads e1))) 0),
         (e1\<lparr>en_step := 0, en_ticks := t\<rparr>)\<lparr>en_step := 1, en_reads := Suc (en_reads e1)\<rparr>)" for d' t
  proof -
    have "run_keeping ''w1'' (en_db e1) (en_db e1)" using e1 by (intro run_keeping.start) simp
    with sleep_keeps_wake_time [where cx = sample_ctx and wc = sample_wfctx and e = sample_eng
        and wake = 2500 and d = 500 and s = 497 and ?e1.0 = e1
        and ?e2.0 = "e1\<lparr>en_step := 0, en_ticks := t\<rparr>" and d' = d'] run r wake live e1
    show ?thesis
      by (simp add: sample_ctx_def sample_wfctx_def sample_codec_ok sample_eng_def live_workflow_def
          sample_row_def)
  qed
  show ?thesis
    using run r again [of 500 "\<lambda>n. 2300"] again [of 9 "\<lambda>n. 9300"]
    by (intro exI [of _ e1]) (simp add: sub_i64_exact in_i64_def)
qed

text \<open>
  A replayed step that failed does not return the error the first run saw: it returns an error of
  category WorkflowExecution whose message is the text of that error, so code that branches on the
  category takes another branch on replay.
\<close>

lemma replayed_error_changes_category:
  assumes "\<not> wc_portable wc" "cx_serializer cx = None"
  shows "replayed cx wc (Inl e) = Inl (plain_error (error_display e))"
    and "is_code (plain_error (error_display e)) c \<longleftrightarrow> c = WorkflowExecution"
  using assms
  by (auto simp: replayed_def resolve_encoder_def Let_def deserialize_workflow_error_def
      serialize_workflow_error_def json_serializer_def JSON_SERIALIZER_NAME_def
      PORTABLE_SERIALIZER_NAME_def error_display_def plain_error_def is_code_no_source)

end
