(* ===== verification/Workflow_Comms.thy ===== *)
theory Workflow_Comms
  imports Workflow_Step
begin

text \<open>
  \<open>crates/dbos-core/src/workflow/comms.rs\<close>: sending and receiving messages, events and streams as
  durable operations of a workflow, and their counterparts outside a workflow.  Waiting polls the
  database; between two polls the environment may change it (\<open>en_env\<close>).  The number of polls is
  bounded by fuel, and \<open>None\<close> means that it ran out.
\<close>

subsection \<open>Shared pieces\<close>

definition DBOS_NULL_TOPIC :: string where "DBOS_NULL_TOPIC = ''__null__topic__''"

definition resolve_topic :: "string \<Rightarrow> string" where
  "resolve_topic topic = (if topic = [] then DBOS_NULL_TOPIC else topic)"

definition wf_encoder :: "ctx \<Rightarrow> wfctx \<Rightarrow> serializer" where
  "wf_encoder cx wc = resolve_encoder (cx_codec cx) (wc_portable wc) (cx_serializer cx)"

definition decode_stored :: "ctx \<Rightarrow> string \<Rightarrow> string option \<Rightarrow> json res" where
  "decode_stored cx ser v =
     (case resolve_decoder (cx_codec cx) ser (cx_serializer cx) of
        Inl se \<Rightarrow> Inl (from_serialize_error se)
      | Inr decoder \<Rightarrow> decode decoder v)"

definition replay_message :: "ctx \<Rightarrow> recorded_result \<Rightarrow> json res" where
  "replay_message cx rec =
     (case rr_error rec of
        Some err_str \<Rightarrow>
          Inl (unwrap_or (deserialize_workflow_error (cx_codec cx) (Some err_str) (rr_serialization rec))
                 (error_new Timeout err_str))
      | None \<Rightarrow> decode_stored cx (rr_serialization rec) (rr_output rec))"

definition within_step :: "wfctx \<Rightarrow> string \<Rightarrow> string \<Rightarrow> dbos_error" where
  "within_step wc name text = step_execution (wc_id wc) name (io_error text)"

text \<open>The checkpoint row of a communication step; it reads the clock twice.\<close>

definition comms_record ::
  "wfctx \<Rightarrow> int \<Rightarrow> string \<Rightarrow> string option \<Rightarrow> string option \<Rightarrow> string \<Rightarrow> 'w eng \<Rightarrow> unit res \<times> 'w eng" where
  "comms_record wc step_id name out err ser e =
     (let (started, e) = now_ms e; (completed, e) = now_ms e;
          (r, db) = record_operation_result
            \<lparr>ri_workflow_id = wc_id wc, ri_step_id = step_id, ri_step_name = name, ri_output = out,
             ri_error = err, ri_child = None, ri_started_at_ms = started,
             ri_completed_at_ms = completed, ri_serialization = ser\<rparr> (en_db e)
      in (r, e\<lparr>en_db := db\<rparr>))"

definition durable_deadline_ms :: "ctx \<Rightarrow> wfctx \<Rightarrow> int \<Rightarrow> int \<Rightarrow> 'w eng \<Rightarrow> int res \<times> 'w eng" where
  "durable_deadline_ms = durable_time ''no recorded deadline''"

text \<open>A nap: the environment acts, and the context may be cancelled.\<close>

definition nap :: "'w eng \<Rightarrow> bool \<times> 'w eng" where
  "nap e = (en_cancel e (en_reads e), e\<lparr>en_db := en_env e (en_reads e) (en_db e)\<rparr>)"

fun wait_until :: "nat \<Rightarrow> int \<Rightarrow> (sysdb \<Rightarrow> bool) \<Rightarrow> 'w eng \<Rightarrow> 'w eng option" where
  "wait_until 0 deadline ready e = None"
| "wait_until (Suc n) deadline ready e =
     (if ready (en_db e) then Some e
      else
        (let (t, e) = now_ms e in
         if sub_i64 deadline t \<le> 0 then Some e
         else (let (cancelled, e) = nap e in
               if cancelled then Some e else wait_until n deadline ready e)))"

subsection \<open>Messages\<close>

text \<open>The closure of \<open>send\<close>: it delivers the message through the database.\<close>

definition send_body :: "string \<Rightarrow> string \<Rightarrow> string option \<Rightarrow> string \<Rightarrow> int \<Rightarrow> 'w eng \<Rightarrow> json res \<times> 'w eng" where
  "send_body dest topic encoded ser step_id e =
     (let (uuid, e) = new_uuid e; (t, e) = now_ms e;
          (r, db) = send_notification dest (resolve_topic topic) encoded ser uuid t (en_db e)
      in (map_ok (\<lambda>_. JNull) r, e\<lparr>en_db := db\<rparr>))"

definition send :: "ctx \<Rightarrow> wfctx \<Rightarrow> string \<Rightarrow> json \<Rightarrow> string \<Rightarrow> 'w eng \<Rightarrow> json res \<times> 'w eng" where
  "send cx wc dest msg topic e =
     (if wc_within_step wc
      then (Inl (within_step wc ''DBOS.send'' ''cannot call Send within a step''), e)
      else case encode (wf_encoder cx wc) msg of
             Inl err \<Rightarrow> (Inl err, e)
           | Inr encoded \<Rightarrow>
               memoized cx wc ''DBOS.send''
                 (send_body dest topic encoded (sz_name (wf_encoder cx wc))) e)"

text \<open>What follows the wait in \<open>recv\<close>.\<close>

definition recv_finish ::
  "ctx \<Rightarrow> wfctx \<Rightarrow> int \<Rightarrow> string \<Rightarrow> int \<Rightarrow> 'w eng \<Rightarrow> json res \<times> 'w eng" where
  "recv_finish cx wc step_id topic timeout_ms e =
     (let (consumed, db) = consume_oldest_notification (wc_id wc) topic (en_db e);
          e = e\<lparr>en_db := db\<rparr>;
          receiver_ser = sz_name (wf_encoder cx wc)
      in case consumed of
           Some (message, ser) \<Rightarrow>
             (case comms_record wc step_id ''DBOS.recv'' message None ser e of
                (Inl err, e) \<Rightarrow> (Inl err, e)
              | (Inr _, e) \<Rightarrow> (decode_stored cx ser message, e))
         | None \<Rightarrow>
             (let err = timeout_error (wc_id wc) ''DBOS.recv''
                    (''no message received within '' @ cx_duration cx timeout_ms)
              in case comms_record wc step_id ''DBOS.recv'' None
                        (Some (serialize_workflow_error (cx_codec cx) err receiver_ser)) receiver_ser e of
                   (Inl err', e) \<Rightarrow> (Inl err', e)
                 | (Inr _, e) \<Rightarrow> (Inl err, e)))"

definition recv ::
  "ctx \<Rightarrow> wfctx \<Rightarrow> nat \<Rightarrow> string \<Rightarrow> int \<Rightarrow> 'w eng \<Rightarrow> (json res \<times> 'w eng) option" where
  "recv cx wc fuel topic timeout_ms e =
     (if wc_within_step wc
      then Some (Inl (within_step wc ''DBOS.recv'' ''cannot call Recv within a step''), e)
      else
        (let (step_id, e) = next_step_id e; (sleep_step_id, e) = next_step_id e;
             topic = resolve_topic topic
         in case check_operation_execution (wc_id wc) step_id ''DBOS.recv'' (en_db e) of
              Inl err \<Rightarrow> Some (Inl err, e)
            | Inr (Some rec) \<Rightarrow> Some (replay_message cx rec, e)
            | Inr None \<Rightarrow>
                (case durable_deadline_ms cx wc sleep_step_id timeout_ms e of
                   (Inl err, e) \<Rightarrow> Some (Inl err, e)
                 | (Inr deadline, e) \<Rightarrow>
                     map_option (recv_finish cx wc step_id topic timeout_ms)
                       (wait_until fuel deadline (has_unconsumed_notification (wc_id wc) topic) e))))"

subsection \<open>Events\<close>

definition set_event_op :: "ctx \<Rightarrow> wfctx \<Rightarrow> string \<Rightarrow> json \<Rightarrow> 'w eng \<Rightarrow> unit res \<times> 'w eng" where
  "set_event_op cx wc key v e =
     (if wc_within_step wc
      then (Inl (within_step wc ''DBOS.setEvent'' ''cannot call SetEvent within a step''), e)
      else
        (let (step_id, e) = next_step_id e; ser = wf_encoder cx wc in
         case check_operation_execution (wc_id wc) step_id ''DBOS.setEvent'' (en_db e) of
           Inl err \<Rightarrow> (Inl err, e)
         | Inr (Some rec) \<Rightarrow> (Inr (), e)
         | Inr None \<Rightarrow>
             (case encode ser v of
                Inl err \<Rightarrow> (Inl err, e)
              | Inr encoded \<Rightarrow>
                  (case set_event (wc_id wc) step_id key encoded (sz_name ser) (en_db e) of
                     (Inl err, db) \<Rightarrow> (Inl err, e\<lparr>en_db := db\<rparr>)
                   | (Inr _, db) \<Rightarrow>
                       comms_record wc step_id ''DBOS.setEvent'' None None (sz_name ser) (e\<lparr>en_db := db\<rparr>)))))"

definition get_event_finish ::
  "ctx \<Rightarrow> wfctx \<Rightarrow> int \<Rightarrow> string \<Rightarrow> string \<Rightarrow> 'w eng \<Rightarrow> json res \<times> 'w eng" where
  "get_event_finish cx wc step_id target key e =
     (let receiver_ser = sz_name (wf_encoder cx wc);
          (v, ser) = (case get_event target key (en_db e) of Some (v, ser) \<Rightarrow> (v, ser) | None \<Rightarrow> (None, receiver_ser))
      in case comms_record wc step_id ''DBOS.getEvent'' v None ser e of
           (Inl err, e) \<Rightarrow> (Inl err, e)
         | (Inr _, e) \<Rightarrow> (decode_stored cx ser v, e))"

definition get_event_op ::
  "ctx \<Rightarrow> wfctx \<Rightarrow> nat \<Rightarrow> string \<Rightarrow> string \<Rightarrow> int \<Rightarrow> 'w eng \<Rightarrow> (json res \<times> 'w eng) option" where
  "get_event_op cx wc fuel target key timeout_ms e =
     (if wc_within_step wc
      then Some (Inl (within_step wc ''DBOS.getEvent'' ''cannot call GetEvent within a step''), e)
      else
        (let (step_id, e) = next_step_id e; (sleep_step_id, e) = next_step_id e in
         case check_operation_execution (wc_id wc) step_id ''DBOS.getEvent'' (en_db e) of
           Inl err \<Rightarrow> Some (Inl err, e)
         | Inr (Some rec) \<Rightarrow> Some (replay_message cx rec, e)
         | Inr None \<Rightarrow>
             (case durable_deadline_ms cx wc sleep_step_id timeout_ms e of
                (Inl err, e) \<Rightarrow> Some (Inl err, e)
              | (Inr deadline, e) \<Rightarrow>
                  map_option (get_event_finish cx wc step_id target key)
                    (wait_until fuel deadline (\<lambda>db. get_event target key db \<noteq> None) e))))"

subsection \<open>Streams\<close>

definition close_stream :: "ctx \<Rightarrow> wfctx \<Rightarrow> string \<Rightarrow> 'w eng \<Rightarrow> unit res \<times> 'w eng" where
  "close_stream cx wc key e =
     (if wc_within_step wc
      then (Inl (within_step wc ''DBOS.closeStream'' ''cannot call CloseStream within a step''), e)
      else
        (let (step_id, e) = next_step_id e in
         case check_operation_execution (wc_id wc) step_id ''DBOS.closeStream'' (en_db e) of
           Inl err \<Rightarrow> (Inl err, e)
         | Inr (Some rec) \<Rightarrow> (Inr (), e)
         | Inr None \<Rightarrow>
             (case write_stream (wc_id wc) key DBOS_STREAM_CLOSED_SENTINEL step_id JSON_SERIALIZER_NAME (en_db e) of
                (Inl err, db) \<Rightarrow> (Inl err, e\<lparr>en_db := db\<rparr>)
              | (Inr _, db) \<Rightarrow>
                  comms_record wc step_id ''DBOS.closeStream'' None None JSON_SERIALIZER_NAME (e\<lparr>en_db := db\<rparr>))))"

definition write_stream_raw :: "ctx \<Rightarrow> wfctx \<Rightarrow> string \<Rightarrow> json \<Rightarrow> string \<Rightarrow> 'w eng \<Rightarrow> unit res \<times> 'w eng" where
  "write_stream_raw cx wc key v step_name e =
     (if wc_within_step wc
      then (Inl (within_step wc step_name ''cannot write to a stream within a step''), e)
      else
        (let (step_id, e) = next_step_id e; ser = wf_encoder cx wc in
         case check_operation_execution (wc_id wc) step_id step_name (en_db e) of
           Inl err \<Rightarrow> (Inl err, e)
         | Inr (Some rec) \<Rightarrow> (Inr (), e)
         | Inr None \<Rightarrow>
             (case encode ser v of
                Inl err \<Rightarrow> (Inl err, e)
              | Inr encoded \<Rightarrow>
                  (case write_stream (wc_id wc) key (unwrap_or_default encoded) step_id (sz_name ser) (en_db e) of
                     (Inl err, db) \<Rightarrow> (Inl err, e\<lparr>en_db := db\<rparr>)
                   | (Inr _, db) \<Rightarrow>
                       comms_record wc step_id step_name None None JSON_SERIALIZER_NAME (e\<lparr>en_db := db\<rparr>)))))"

definition write_stream_op :: "ctx \<Rightarrow> wfctx \<Rightarrow> string \<Rightarrow> json \<Rightarrow> 'w eng \<Rightarrow> unit res \<times> 'w eng" where
  "write_stream_op cx wc key v e = write_stream_raw cx wc key v ''DBOS.writeStream'' e"

fun decode_entries :: "ctx \<Rightarrow> (string \<times> int \<times> string) list \<Rightarrow> json list res" where
  "decode_entries cx [] = Inr []"
| "decode_entries cx ((v, k, ser) # es) =
     bind_res (decode_stored cx ser (Some v)) (\<lambda>x. map_ok (\<lambda>xs. x # xs) (decode_entries cx es))"

definition read_stream_values :: "ctx \<Rightarrow> string \<Rightarrow> string \<Rightarrow> sysdb \<Rightarrow> (json list \<times> bool) res" where
  "read_stream_values cx i key db =
     (let (entries, closed) = read_stream i key 0 db
      in map_ok (\<lambda>vs. (vs, closed)) (decode_entries cx entries))"

subsection \<open>Outside a workflow\<close>

definition send_outside :: "ctx \<Rightarrow> string \<Rightarrow> json \<Rightarrow> string \<Rightarrow> 'w eng \<Rightarrow> unit res \<times> 'w eng" where
  "send_outside cx dest msg topic e =
     (let ser = resolve_encoder (cx_codec cx) False (cx_serializer cx) in
      case encode ser msg of
        Inl err \<Rightarrow> (Inl err, e)
      | Inr encoded \<Rightarrow>
          (let (uuid, e) = new_uuid e; (t, e) = now_ms e;
               (r, db) = send_notification dest (resolve_topic topic) encoded (sz_name ser) uuid t (en_db e)
           in (r, e\<lparr>en_db := db\<rparr>)))"

fun get_event_loop :: "ctx \<Rightarrow> nat \<Rightarrow> int \<Rightarrow> string \<Rightarrow> string \<Rightarrow> 'w eng \<Rightarrow> (json option res \<times> 'w eng) option" where
  "get_event_loop cx 0 deadline target key e = None"
| "get_event_loop cx (Suc n) deadline target key e =
     (case get_event target key (en_db e) of
        Some (v, ser) \<Rightarrow> Some (map_ok Some (decode_stored cx ser v), e)
      | None \<Rightarrow>
          (let (t, e) = now_ms e in
           if sub_i64 deadline t \<le> 0 then Some (Inr None, e)
           else (let (cancelled, e) = nap e in
                 if cancelled then Some (Inr None, e) else get_event_loop cx n deadline target key e)))"

definition get_event_outside ::
  "ctx \<Rightarrow> nat \<Rightarrow> string \<Rightarrow> string \<Rightarrow> int \<Rightarrow> 'w eng \<Rightarrow> (json option res \<times> 'w eng) option" where
  "get_event_outside cx fuel target key timeout_ms e =
     (let (t, e) = now_ms e in
      get_event_loop cx fuel (add_i64 t (as_i64 timeout_ms)) target key e)"

subsection \<open>Waiting ends\<close>

lemma wait_until_step:
  "wait_until (Suc n) deadline ready e =
     (if ready (en_db e) then Some e
      else if sub_i64 deadline (en_ticks e (en_reads e)) \<le> 0 then Some (e\<lparr>en_reads := Suc (en_reads e)\<rparr>)
      else if en_cancel e (Suc (en_reads e))
      then Some (e\<lparr>en_reads := Suc (en_reads e), en_db := en_env e (Suc (en_reads e)) (en_db e)\<rparr>)
      else wait_until n deadline ready
             (e\<lparr>en_reads := Suc (en_reads e), en_db := en_env e (Suc (en_reads e)) (en_db e)\<rparr>))"
  by (simp add: now_ms_def nap_def Let_def)

lemma wait_until_returns:
  assumes "sub_i64 deadline (en_ticks e (en_reads e + k)) \<le> 0" "k < n"
  shows "\<exists>e'. wait_until n deadline ready e = Some e'"
  using assms
proof (induction n arbitrary: e k)
  case (Suc n)
  show ?case
  proof (cases "ready (en_db e) \<or> sub_i64 deadline (en_ticks e (en_reads e)) \<le> 0")
    case True
    then show ?thesis by (auto simp: now_ms_def)
  next
    case False
    then obtain k' where k: "k = Suc k'" using Suc.prems(1) by (cases k) auto
    let ?e1 = "e\<lparr>en_reads := Suc (en_reads e)\<rparr>"
    let ?e2 = "?e1\<lparr>en_db := en_env e (Suc (en_reads e)) (en_db e)\<rparr>"
    have "\<exists>e'. wait_until n deadline ready ?e2 = Some e'"
      by (rule Suc.IH [of _ k']) (use Suc.prems k in simp_all)
    with False show ?thesis by (simp add: now_ms_def nap_def Let_def)
  qed
qed simp

text \<open>When the wait is over, what was waited for is there, or the time has passed, or the context
  was cancelled.\<close>

lemma wait_until_result:
  assumes "wait_until n deadline ready e = Some e'"
  shows "(ready (en_db e') \<or> (\<exists>j. sub_i64 deadline (en_ticks e j) \<le> 0) \<or> (\<exists>j. en_cancel e j))
       \<and> en_ticks e' = en_ticks e \<and> en_step e' = en_step e \<and> en_world e' = en_world e"
  using assms
proof (induction n arbitrary: e)
  case (Suc n)
  let ?e2 = "e\<lparr>en_reads := Suc (en_reads e), en_db := en_env e (Suc (en_reads e)) (en_db e)\<rparr>"
  note step = Suc.prems [unfolded wait_until_step]
  show ?case
  proof (cases "ready (en_db e) \<or> sub_i64 deadline (en_ticks e (en_reads e)) \<le> 0
      \<or> en_cancel e (Suc (en_reads e))")
    case True
    with step show ?thesis by (auto split: if_splits)
  next
    case False
    with step have "wait_until n deadline ready ?e2 = Some e'" by simp
    from Suc.IH [OF this] show ?thesis by simp
  qed
qed simp

subsection \<open>Replay of communication steps\<close>

lemma check_recorded_row:
  assumes "live_workflow db i" "op_of db i k = Some r" "op_function_name r = n"
  shows "check_operation_execution i k n db
       = Inr (Some \<lparr>rr_output = op_output r, rr_error = non_empty_opt (op_error r),
                    rr_serialization = unwrap_or_default (op_serialization r)\<rparr>)"
  using assms by (auto simp: check_operation_execution_def live_workflow_def split: option.splits)

lemma recv_replays:
  assumes "\<not> wc_within_step wc" "live_workflow (en_db e) (wc_id wc)"
    and "op_of (en_db e) (wc_id wc) (en_step e + 1) = Some r" "op_function_name r = ''DBOS.recv''"
  shows "recv cx wc fuel topic timeout e
       = Some (replay_message cx \<lparr>rr_output = op_output r, rr_error = non_empty_opt (op_error r),
                                 rr_serialization = unwrap_or_default (op_serialization r)\<rparr>,
               e\<lparr>en_step := en_step e + 2\<rparr>)"
  using assms(1) check_recorded_row [OF assms(2-4)]
  by (simp add: recv_def next_step_id_def Let_def)

lemma comms_record_db:
  assumes "comms_record wc k name out err ser e = (Inr (), e')"
  obtains r where "op_of (en_db e') (wc_id wc) k = Some r" "op_function_name r = name"
    "op_output r = out" "op_error r = err" "op_serialization r = Some ser"
proof -
  obtain res db where rd: "record_operation_result
      \<lparr>ri_workflow_id = wc_id wc, ri_step_id = k, ri_step_name = name, ri_output = out, ri_error = err,
       ri_child = None, ri_started_at_ms = en_ticks e (en_reads e),
       ri_completed_at_ms = en_ticks e (Suc (en_reads e)), ri_serialization = ser\<rparr> (en_db e) = (res, db)"
    by fastforce
  with assms have eq: "res = Inr ()" "en_db e' = db"
    by (auto simp: comms_record_def now_ms_def Let_def)
  from record_ok(1) [OF rd [unfolded eq(1)]] eq(2) that show thesis by simp
qed

lemma recv_finish_message:
  assumes "recv_finish cx wc k topic timeout e = (Inr v, e')"
  obtains r message ser where "op_of (en_db e') (wc_id wc) k = Some r" "op_function_name r = ''DBOS.recv''"
    "op_output r = message" "op_error r = None" "op_serialization r = Some ser"
    "decode_stored cx ser message = Inr v"
proof -
  obtain consumed db where c: "consume_oldest_notification (wc_id wc) topic (en_db e) = (consumed, db)"
    by fastforce
  from assms c obtain message ser where m: "consumed = Some (message, ser)"
    by (cases consumed) (auto simp: recv_finish_def Let_def split: prod.splits sum.splits)
  obtain res e'' where rec: "comms_record wc k ''DBOS.recv'' message None ser (e\<lparr>en_db := db\<rparr>) = (res, e'')"
    by fastforce
  have "res = Inr ()" "decode_stored cx ser message = Inr v" "e' = e''"
    using assms rec by (cases res; simp add: recv_finish_def Let_def c m)+
  with rec have ok: "comms_record wc k ''DBOS.recv'' message None ser (e\<lparr>en_db := db\<rparr>) = (Inr (), e')"
    by simp
  show thesis
    by (rule comms_record_db [OF ok], rule that) (use \<open>decode_stored cx ser message = Inr v\<close> in auto)
qed

text \<open>C17. A message is received once: when \<open>recv\<close> returned a message, replaying it (on any executor,
  after any operations that did not delete or cancel the workflow) returns the same message without
  waiting and without consuming another one.\<close>

theorem recv_replays_message:
  assumes "\<not> wc_within_step wc" "recv cx wc fuel topic timeout e = Some (Inr v, e1)"
    and "check_operation_execution (wc_id wc) (en_step e + 1) ''DBOS.recv'' (en_db e) = Inr None"
    and "schema_ok (en_db e1)" "run_keeping (wc_id wc) (en_db e1) (en_db e2)"
    and "live_workflow (en_db e2) (wc_id wc)" "en_step e2 = en_step e"
  shows "recv cx wc fuel' topic timeout' e2 = Some (Inr v, e2\<lparr>en_step := en_step e + 2\<rparr>)"
proof -
  let ?e0 = "e\<lparr>en_step := en_step e + 2\<rparr>"
  obtain dl ed where dl: "durable_deadline_ms cx wc (en_step e + 2) timeout ?e0 = (dl, ed)" by fastforce
  have "\<exists>ew. recv_finish cx wc (en_step e + 1) (resolve_topic topic) timeout ew = (Inr v, e1)"
    using assms(1-3) dl
    by (cases dl) (auto simp: recv_def next_step_id_def Let_def algebra_simps split: option.splits)
  then obtain r message ser where r: "op_of (en_db e1) (wc_id wc) (en_step e + 1) = Some r"
    "op_function_name r = ''DBOS.recv''" "op_output r = message" "op_error r = None"
    "op_serialization r = Some ser" and v: "decode_stored cx ser message = Inr v"
    by (elim exE recv_finish_message)
  have "op_of (en_db e2) (wc_id wc) (en_step e2 + 1) = Some r"
    using recorded_step_persists [OF assms(4,5) r(1)] assms(7) by simp
  from recv_replays [OF assms(1,6) this r(2)] r(3-5) v assms(7)
  show ?thesis by (simp add: replay_message_def)
qed

lemma durable_time_contract:
  assumes "schema_ok (en_db e)"
  shows "schema_ok (en_db (snd (durable_time m cx wc k d e)))"
  using assms record_db_contract
  by (auto simp: durable_time_def now_ms_def Let_def split: sum.splits option.splits prod.splits if_splits)

lemma comms_record_contract:
  "schema_ok (en_db e) \<Longrightarrow> schema_ok (en_db (snd (comms_record wc k name out err ser e)))"
  using record_db_contract by (auto simp: comms_record_def now_ms_def Let_def split: prod.splits)

lemma recv_finish_contract:
  assumes "schema_ok (en_db e)"
  shows "schema_ok (en_db (snd (recv_finish cx wc k topic timeout e)))"
proof -
  obtain consumed db where c: "consume_oldest_notification (wc_id wc) topic (en_db e) = (consumed, db)"
    by fastforce
  have "schema_ok db" using schema_ok_consume [OF assms, of "wc_id wc" topic] c by simp
  then have ok: "schema_ok (en_db e')"
    if "comms_record wc k name out err ser (e\<lparr>en_db := db\<rparr>) = (res, e')" for name out err ser res e'
    using comms_record_contract [of "e\<lparr>en_db := db\<rparr>" wc k name out err ser] that by simp
  then show ?thesis
    by (auto simp: recv_finish_def c Let_def split: option.splits prod.splits sum.splits)
qed

text \<open>The first run of a communication step, on a workflow that has not recorded it.\<close>

lemma comms_record_fresh:
  assumes "wf_exists (en_db e) (wc_id wc)" "op_of (en_db e) (wc_id wc) k = None"
  obtains rec where "comms_record wc k name out err ser e
      = (Inr (), e\<lparr>en_reads := en_reads e + 2, en_db := snd (record_operation_result rec (en_db e))\<rparr>)"
    "ri_workflow_id rec = wc_id wc" "ri_step_id rec = k"
  using assms by (simp add: comms_record_def now_ms_def Let_def record_operation_result_def)

lemma durable_time_fresh:
  assumes "live_workflow (en_db e) (wc_id wc)" "op_of (en_db e) (wc_id wc) k = None"
    and "encode (json_serializer (cx_codec cx)) (JInt (add_i64 (en_ticks e (en_reads e)) (as_i64 d))) = Inr t"
  obtains rec where "durable_time m cx wc k d e
      = (Inr (add_i64 (en_ticks e (en_reads e)) (as_i64 d)),
         e\<lparr>en_reads := en_reads e + 3, en_db := snd (record_operation_result rec (en_db e))\<rparr>)"
    "ri_workflow_id rec = wc_id wc" "ri_step_id rec = k"
  using assms
  by (auto simp: durable_time_def now_ms_def Let_def record_operation_result_def check_operation_execution_def
      live_workflow_def eval_nat_numeral split: option.splits)

definition mailbox_db :: sysdb where
  "mailbox_db =
     sample_db\<lparr>notifications :=
       [\<lparr>nt_uuid = ''m'', nt_destination = ''w1'', nt_topic = DBOS_NULL_TOPIC, nt_message = NIL_MARKER,
         nt_created_at = 1, nt_serialization = ''DBOS_JSON'', nt_consumed = False\<rparr>]\<rparr>"

lemma mailbox_ok: "schema_ok mailbox_db"
  using sample_schema by (simp add: mailbox_db_def schema_defs) (simp add: sample_simps)

lemma mailbox_recv:
  obtains e1 :: "nat eng" where
    "recv sample_ctx sample_wfctx 1 [] 1000 (sample_eng\<lparr>en_db := mailbox_db\<rparr>) = Some (Inr JNull, e1)"
    "schema_ok (en_db e1)" "live_workflow (en_db e1) ''w1''"
proof -
  let ?e = "sample_eng\<lparr>en_db := mailbox_db\<rparr>"
  let ?e2 = "?e\<lparr>en_step := 2\<rparr>"
  have live: "live_workflow mailbox_db ''w1''" "wf_exists mailbox_db ''w1''"
    "op_of mailbox_db ''w1'' 1 = None" "op_of mailbox_db ''w1'' 2 = None"
    using sample_rows(1) by (simp_all add: mailbox_db_def live_workflow_def) (simp_all add: sample_simps)
  have s0: "en_step sample_eng = 0" by (simp add: sample_eng_def)
  have chk: "check_operation_execution ''w1'' 1 ''DBOS.recv'' mailbox_db = Inr None"
    using live by (auto simp: check_operation_execution_def live_workflow_def split: option.splits)
  obtain t where t: "encode (json_serializer sample_codec) (JInt (add_i64 2000 (as_i64 1000))) = Inr t"
    by (simp add: encode_def json_serializer_def is_null_def)
  obtain rec where dl: "durable_deadline_ms sample_ctx sample_wfctx 2 1000 ?e2
      = (Inr (add_i64 2000 (as_i64 1000)),
         ?e2\<lparr>en_reads := 3, en_db := snd (record_operation_result rec mailbox_db)\<rparr>)"
    and rec: "ri_workflow_id rec = ''w1''" "ri_step_id rec = 2"
    by (rule durable_time_fresh [where e = ?e2 and wc = sample_wfctx and k = 2 and cx = sample_ctx and d = 1000
          and t = t and m = "''no recorded deadline''"])
      (use live t in \<open>simp_all add: sample_wfctx_def sample_ctx_def sample_eng_def durable_deadline_ms_def\<close>)
  let ?db = "snd (record_operation_result rec mailbox_db)"
  let ?e3 = "?e2\<lparr>en_reads := 3, en_db := ?db\<rparr>"
  have nts: "notifications ?db = notifications mailbox_db" by (simp add: record_operation_result_def)
  obtain db2 where c: "consume_oldest_notification ''w1'' DBOS_NULL_TOPIC ?db = (Some (Some NIL_MARKER, ''DBOS_JSON''), db2)"
    by (simp add: consume_oldest_notification_def nts) (simp add: mailbox_db_def waiting_def)
  then have db2_eq: "db2 = snd (consume_oldest_notification ''w1'' DBOS_NULL_TOPIC ?db)" by simp
  note w1 = sample_wfctx_def [THEN arg_cong [where f = wc_id], simplified]
    sample_wfctx_def [THEN arg_cong [where f = wc_within_step], simplified]
  have wait: "wait_until 1 dl (has_unconsumed_notification ''w1'' DBOS_NULL_TOPIC) ?e3 = Some ?e3" for dl
    by (simp add: has_unconsumed_notification_def nts) (simp add: mailbox_db_def waiting_def)
  have db2: "wf_row db2 ''w1'' = wf_row mailbox_db ''w1''" "op_of db2 ''w1'' 1 = None"
    using live rec by (auto simp: db2_eq consume_oldest_notification_def op_of_record record_wf_row split: list.splits)
  obtain rec' where cr: "comms_record sample_wfctx 1 ''DBOS.recv'' (Some NIL_MARKER) None ''DBOS_JSON'' (?e3\<lparr>en_db := db2\<rparr>)
      = (Inr (), ?e3\<lparr>en_reads := 5, en_db := snd (record_operation_result rec' db2)\<rparr>)"
    by (rule comms_record_fresh [where e = "?e3\<lparr>en_db := db2\<rparr>" and wc = sample_wfctx and k = 1
          and name = "''DBOS.recv''" and out = "Some NIL_MARKER" and err = None and ser = "''DBOS_JSON''"])
      (use db2 live in \<open>simp_all add: sample_wfctx_def\<close>)
  let ?e4 = "?e3\<lparr>en_reads := 5, en_db := snd (record_operation_result rec' db2)\<rparr>"
  have dec: "decode_stored sample_ctx ''DBOS_JSON'' (Some NIL_MARKER) = Inr JNull"
    by (simp add: decode_stored_def resolve_decoder_def JSON_SERIALIZER_NAME_def PORTABLE_SERIALIZER_NAME_def
        decode_def json_serializer_def sample_ctx_def)
  have fin: "recv_finish sample_ctx sample_wfctx 1 DBOS_NULL_TOPIC 1000 ?e3 = (Inr JNull, ?e4)"
    using c cr dec by (simp add: recv_finish_def Let_def w1)
  have "recv sample_ctx sample_wfctx 1 [] 1000 ?e = Some (Inr JNull, ?e4)"
    using chk dl wait [of "add_i64 2000 (as_i64 1000)"] fin
    by (simp add: recv_def next_step_id_def Let_def resolve_topic_def w1 s0 del: wait_until.simps One_nat_def)
  moreover have "schema_ok ?db" using mailbox_ok record_db_contract(1) by (metis prod.collapse)
  then have "schema_ok db2" unfolding db2_eq by (rule schema_ok_consume)
  then have "schema_ok (en_db ?e4)" using record_db_contract(1) by (simp) (metis prod.collapse)
  moreover have "live_workflow (en_db ?e4) ''w1''"
    using live db2 by (simp add: live_workflow_def record_wf_row)
  ultimately show thesis by (rule that)
qed

lemma recv_replays_message_witness:
  "\<exists>e1 :: nat eng. recv sample_ctx sample_wfctx 1 [] 1000 (sample_eng\<lparr>en_db := mailbox_db\<rparr>) = Some (Inr JNull, e1)
     \<and> recv sample_ctx sample_wfctx 0 [] 5 (e1\<lparr>en_step := 0\<rparr>) = Some (Inr JNull, e1\<lparr>en_step := 2\<rparr>)"
proof -
  let ?e = "sample_eng\<lparr>en_db := mailbox_db\<rparr>"
  obtain e1 where run: "recv sample_ctx sample_wfctx 1 [] 1000 ?e = Some (Inr JNull, e1)"
    and e1: "schema_ok (en_db e1)" "live_workflow (en_db e1) ''w1''" by (rule mailbox_recv)
  have "run_keeping ''w1'' (en_db e1) (en_db e1)"
    using e1 by (intro run_keeping.start) (auto simp: live_workflow_def split: option.splits)
  moreover have "wf_row mailbox_db ''w1'' = Some (sample_row ''w1'' Pending None)"
    "op_of mailbox_db ''w1'' 1 = None"
    using sample_rows(1) by (simp_all add: mailbox_db_def) (simp_all add: sample_simps)
  then have "check_operation_execution ''w1'' 1 ''DBOS.recv'' mailbox_db = Inr None"
    by (simp add: check_operation_execution_def sample_row_def)
  ultimately have "recv sample_ctx sample_wfctx 0 [] 5 (e1\<lparr>en_step := 0\<rparr>)
      = Some (Inr JNull, (e1\<lparr>en_step := 0\<rparr>)\<lparr>en_step := 0 + 2\<rparr>)"
    using recv_replays_message [OF _ run, of "e1\<lparr>en_step := 0\<rparr>" 0 5] e1
    by (simp add: sample_wfctx_def sample_eng_def)
  with run show ?thesis by auto
qed

end
