(* ===== verification/Executor.thy ===== *)
theory Executor
  imports Workflow_Comms "HOL-Library.AList"
begin

text \<open>
  The executor's own state: \<open>context/mod.rs\<close> (\<open>DbosContext\<close>), the workflow registry of
  \<open>workflow/mod.rs\<close> and the queue registry of \<open>queue/mod.rs\<close>.  The registries are association lists
  keyed by name (their iteration order is that of a hash map, hence arbitrary).  What changes while
  workflows run is \<open>'w rt\<close>: the engine of \<open>Workflow_Step\<close>, the active workflows, and the tasks that
  were spawned and have not run.  A workflow body is a function of the run-time state; \<open>None\<close> is a
  body that does not finish.
\<close>

subsection \<open>Run-time state\<close>

record active_entry =
  ae_queue_name :: string
  ae_partition_key :: string

text \<open>What the spawned task of \<open>run_workflow_erased\<close> captured.\<close>

record task =
  tk_name :: string
  tk_wc :: wfctx
  tk_input :: "string option"
  tk_serialization :: string
  tk_deadline :: "int option"

record 'w rt =
  rt_eng :: "'w eng"
  rt_active :: "(string \<times> active_entry) list"
  rt_tasks :: "task list"

definition lift_eng :: "('w eng \<Rightarrow> 'a \<times> 'w eng) \<Rightarrow> 'w rt \<Rightarrow> 'a \<times> 'w rt" where
  "lift_eng f rt = (let (x, e) = f (rt_eng rt) in (x, rt\<lparr>rt_eng := e\<rparr>))"

definition lift_db :: "(sysdb \<Rightarrow> 'a \<times> sysdb) \<Rightarrow> 'w rt \<Rightarrow> 'a \<times> 'w rt" where
  "lift_db f = lift_eng (\<lambda>e. let (x, db) = f (en_db e) in (x, e\<lparr>en_db := db\<rparr>))"

abbreviation rt_db :: "'w rt \<Rightarrow> sysdb" where "rt_db rt \<equiv> en_db (rt_eng rt)"

subsection \<open>The registries\<close>

type_synonym 'w erased =
  "wfctx \<Rightarrow> string option \<Rightarrow> string \<Rightarrow> 'w rt \<Rightarrow> (string option res \<times> 'w rt) option"

datatype body_result = Returned "json res" | Panicked

type_synonym 'w body = "wfctx \<Rightarrow> json \<Rightarrow> 'w rt \<Rightarrow> (body_result \<times> 'w rt) option"

record 'w workflow_entry =
  we_erased :: "'w erased"
  we_max_retries :: int
  we_name :: string
  we_class_name :: string
  we_config_name :: "string option"
  we_cron :: "string option"

record rate_limiter =
  rl_limit :: int
  rl_period :: int

record workflow_queue =
  wq_name :: string
  wq_worker_concurrency :: "int option"
  wq_global_concurrency :: "int option"
  wq_priority_enabled :: bool
  wq_rate_limit :: "rate_limiter option"
  wq_max_tasks :: int

record 'w executor =
  ex_ctx :: ctx
  ex_registry :: "(string \<times> 'w workflow_entry) list"
  ex_queues :: "(string \<times> workflow_queue) list"
  ex_launched :: bool
  ex_version :: string
  ex_executor_id :: string
  ex_application_id :: string

subsection \<open>Registering workflows\<close>

record register_options =
  ro_max_retries :: int
  ro_schedule :: "string option"
  ro_custom_name :: "string option"

definition DEFAULT_MAX_RECOVERY_ATTEMPTS :: int where "DEFAULT_MAX_RECOVERY_ATTEMPTS = 100"

definition register_default :: register_options where
  "register_default =
     \<lparr>ro_max_retries = DEFAULT_MAX_RECOVERY_ATTEMPTS, ro_schedule = None, ro_custom_name = None\<rparr>"

text \<open>The type-erased closure: decode the input, run the body, turn a panic into an error, encode
  the output.\<close>

definition decode_input :: "ctx \<Rightarrow> string option \<Rightarrow> string \<Rightarrow> json res" where
  "decode_input cx input input_ser =
     (if input_ser = PORTABLE_SERIALIZER_NAME then decode_portable_args (cx_codec cx) input
      else case resolve_decoder (cx_codec cx) input_ser (cx_serializer cx) of
             Inl se \<Rightarrow> Inl (from_serialize_error se)
           | Inr decoder \<Rightarrow> decode decoder input)"

definition panic_error :: "string \<Rightarrow> dbos_error" where
  "panic_error i = error_new WorkflowExecution (''Workflow '' @ i @ '' execution error: workflow panicked'')"

definition erase :: "ctx \<Rightarrow> 'w body \<Rightarrow> 'w erased" where
  "erase cx f wc input input_ser rt =
     (case decode_input cx input input_ser of
        Inl e \<Rightarrow> Some (Inl e, rt)
      | Inr p \<Rightarrow>
          (case f wc p rt of
             None \<Rightarrow> None
           | Some (Returned (Inr r), rt) \<Rightarrow> Some (encode (wf_encoder cx wc) r, rt)
           | Some (Returned (Inl e), rt) \<Rightarrow> Some (Inl e, rt)
           | Some (Panicked, rt) \<Rightarrow> Some (Inl (panic_error (wc_id wc)), rt)))"

definition register_workflow_opts ::
  "string \<Rightarrow> 'w body \<Rightarrow> register_options \<Rightarrow> 'w executor \<Rightarrow> unit res \<times> 'w executor" where
  "register_workflow_opts name f opts ex =
     (if ex_launched ex
      then (Inl (initialization ''cannot register a workflow after the context has been launched''), ex)
      else
        let key = unwrap_or (ro_custom_name opts) name;
            entry = \<lparr>we_erased = erase (ex_ctx ex) f, we_max_retries = ro_max_retries opts,
                     we_name = key, we_class_name = [], we_config_name = None,
                     we_cron = ro_schedule opts\<rparr>
        in if map_of (ex_registry ex) key \<noteq> None then (Inl (conflicting_registration key), ex)
           else (Inr (), ex\<lparr>ex_registry := AList.update key entry (ex_registry ex)\<rparr>))"

definition register_workflow :: "string \<Rightarrow> 'w body \<Rightarrow> 'w executor \<Rightarrow> unit res \<times> 'w executor" where
  "register_workflow name f = register_workflow_opts name f register_default"

subsection \<open>Registering queues\<close>

record queue_options =
  qo_worker_concurrency :: "int option"
  qo_global_concurrency :: "int option"
  qo_priority_enabled :: bool
  qo_rate_limit :: "rate_limiter option"
  qo_max_tasks :: "int option"

definition register_queue :: "string \<Rightarrow> queue_options \<Rightarrow> 'w executor \<Rightarrow> unit res \<times> 'w executor" where
  "register_queue name opts ex =
     (if ex_launched ex
      then (Inl (initialization ''cannot register a queue after the context has been launched''), ex)
      else
        let queue = \<lparr>wq_name = name, wq_worker_concurrency = qo_worker_concurrency opts,
                     wq_global_concurrency = qo_global_concurrency opts,
                     wq_priority_enabled = qo_priority_enabled opts,
                     wq_rate_limit = qo_rate_limit opts,
                     wq_max_tasks = unwrap_or (qo_max_tasks opts) 100\<rparr>
        in if map_of (ex_queues ex) name \<noteq> None then (Inl (conflicting_registration name), ex)
           else (Inr (), ex\<lparr>ex_queues := AList.update name queue (ex_queues ex)\<rparr>))"

definition internal_queue :: workflow_queue where
  "internal_queue =
     \<lparr>wq_name = DBOS_INTERNAL_QUEUE_NAME, wq_worker_concurrency = None, wq_global_concurrency = None,
      wq_priority_enabled = False, wq_rate_limit = None, wq_max_tasks = 100\<rparr>"

definition register_internal_queue :: "'w executor \<Rightarrow> 'w executor" where
  "register_internal_queue ex =
     (if map_of (ex_queues ex) DBOS_INTERNAL_QUEUE_NAME \<noteq> None then ex
      else ex\<lparr>ex_queues := AList.update DBOS_INTERNAL_QUEUE_NAME internal_queue (ex_queues ex)\<rparr>)"

definition clear_registries :: "'w executor \<Rightarrow> 'w executor" where
  "clear_registries ex = ex\<lparr>ex_registry := []\<rparr>"

definition list_registered_queues :: "'w executor \<Rightarrow> workflow_queue list" where
  "list_registered_queues ex = map snd (ex_queues ex)"

text \<open>The invariant of the registries: a key is the name of its entry, and no key occurs twice.\<close>

definition registries_ok :: "'w executor \<Rightarrow> bool" where
  "registries_ok ex \<longleftrightarrow>
     distinct (map fst (ex_registry ex)) \<and> (\<forall>(k, w)\<in>set (ex_registry ex). we_name w = k)
     \<and> distinct (map fst (ex_queues ex)) \<and> (\<forall>(k, q)\<in>set (ex_queues ex). wq_name q = k)"

lemma alist_update_fresh: "map_of xs k = None \<Longrightarrow> AList.update k v xs = xs @ [(k, v)]"
  by (induction xs) (auto split: if_splits)

lemma map_of_fresh_keys: "map_of xs k = None \<longleftrightarrow> k \<notin> fst ` set xs"
  by (rule map_of_eq_None_iff)

lemma registries_ok_register:
  assumes "registries_ok ex"
  shows "registries_ok (snd (register_workflow_opts name f wo ex))"
    "registries_ok (snd (register_queue name qo ex))" "registries_ok (register_internal_queue ex)"
  using assms
  by (auto simp: registries_ok_def register_workflow_opts_def register_queue_def
      register_internal_queue_def internal_queue_def alist_update_fresh map_of_fresh_keys Let_def)

lemma registered_entry:
  assumes "register_workflow_opts name f opts ex = (Inr (), ex')"
  shows "map_of (ex_registry ex') (unwrap_or (ro_custom_name opts) name)
       = Some \<lparr>we_erased = erase (ex_ctx ex) f, we_max_retries = ro_max_retries opts,
               we_name = unwrap_or (ro_custom_name opts) name, we_class_name = [],
               we_config_name = None, we_cron = ro_schedule opts\<rparr>"
    and "k \<noteq> unwrap_or (ro_custom_name opts) name \<Longrightarrow> map_of (ex_registry ex') k = map_of (ex_registry ex) k"
  using assms by (auto simp: register_workflow_opts_def Let_def update_conv split: if_splits)

end
