(* ===== verification/Workflow_Run.thy ===== *)
theory Workflow_Run
  imports Executor
begin

text \<open>
  \<open>workflow/run.rs\<close> and \<open>workflow/handle.rs\<close>: starting a workflow, the task that runs its body and
  writes the outcome, child workflows, and the handles that read a result.  A start appends its task
  to \<open>rt_tasks\<close>; \<open>run_task\<close> is what the spawned task does, at any later moment, and
  \<open>deadline_watch\<close> what its watcher does when the timer fires.  Waiting takes fuel, one unit per poll.
\<close>

subsection \<open>Options\<close>

datatype deduplication_policy = Reject | ReturnExisting

text \<open>Durations are in whole milliseconds, as \<open>as_millis\<close> gives them (128 bits wide).\<close>

record run_options =
  op_workflow_id :: "string option"
  op_queue :: "string option"
  op_version :: "string option"
  op_dedup_id :: "string option"
  op_dedup_policy :: deduplication_policy
  op_priority :: int
  op_partition_key :: "string option"
  op_delay :: "int option"
  op_user :: "string option"
  op_role :: "string option"
  op_roles :: "string list"
  op_portable :: bool
  op_timeout :: "int option"

definition op_default :: run_options where
  "op_default =
     \<lparr>op_workflow_id = None, op_queue = None, op_version = None, op_dedup_id = None,
      op_dedup_policy = Reject, op_priority = 0, op_partition_key = None, op_delay = None,
      op_user = None, op_role = None, op_roles = [], op_portable = False, op_timeout = None\<rparr>"

record run_flags =
  fl_recovery :: bool
  fl_dequeue :: bool

definition fl_default :: run_flags where "fl_default = \<lparr>fl_recovery = False, fl_dequeue = False\<rparr>"

record child_spawn =
  cs_parent :: string
  cs_step_id :: int

datatype erased_handle = Channel (handle_id: string) | Polling (handle_id: string)

definition exec_err :: "string \<Rightarrow> string \<Rightarrow> dbos_error" where
  "exec_err i msg =
     (let e = error_new WorkflowExecution msg in if i = [] then e else set_workflow_id i e)"

subsection \<open>Starting a workflow\<close>

text \<open>The validation of the options; the first failing check is reported.\<close>

definition option_error :: "run_options \<Rightarrow> dbos_error option" where
  "option_error opts =
     (let queue = unwrap_or_default (op_queue opts); key = unwrap_or_default (op_partition_key opts);
          dedup = unwrap_or_default (op_dedup_id opts)
      in if op_delay opts \<noteq> None \<and> queue = []
         then Some (exec_err [] ''delay provided but queue name is missing'')
         else if key \<noteq> [] \<and> queue = []
         then Some (exec_err [] ''partition key provided but queue name is missing'')
         else if key \<noteq> [] \<and> dedup \<noteq> []
         then Some (exec_err [] ''partition key and deduplication ID cannot be used together'')
         else if op_dedup_policy opts \<noteq> Reject \<and> dedup = []
         then Some (exec_err [] ''a deduplication policy requires a deduplication ID'')
         else if op_dedup_policy opts \<noteq> Reject \<and> queue = []
         then Some (exec_err [] ''a deduplication policy requires a queue name'')
         else None)"

definition start_status :: "run_options \<Rightarrow> workflow_status_type" where
  "start_status opts =
     (if unwrap_or_default (op_queue opts) \<noteq> []
      then (if op_delay opts \<noteq> None then Delayed else Enqueued)
      else Pending)"

definition choose_id :: "run_options \<Rightarrow> child_spawn option \<Rightarrow> 'w eng \<Rightarrow> string \<times> 'w eng" where
  "choose_id opts child e =
     (case op_workflow_id opts of
        Some i \<Rightarrow> (i, e)
      | None \<Rightarrow>
          (case child of
             Some c \<Rightarrow> (cs_parent c @ ''-'' @ show_int (cs_step_id c), e)
           | None \<Rightarrow> new_uuid e))"

text \<open>A time in the future, when one is asked for.\<close>

definition deadline_in :: "int option \<Rightarrow> 'w eng \<Rightarrow> int option \<times> 'w eng" where
  "deadline_in d e =
     (case d of
        None \<Rightarrow> (None, e)
      | Some ms \<Rightarrow> (let (t, e) = now_ms e in (Some (add_i64 t (as_i64 ms)), e)))"

definition new_status ::
  "'w executor \<Rightarrow> 'w workflow_entry \<Rightarrow> string option \<Rightarrow> string \<Rightarrow> run_options \<Rightarrow> child_spawn option \<Rightarrow>
   string \<Rightarrow> int option \<Rightarrow> int option \<Rightarrow> int \<Rightarrow> new_workflow_status" where
  "new_status ex entry input ser opts child i delay_until deadline created =
     \<lparr>nw_id = i, nw_status = Some (start_status opts), nw_name = we_name entry,
      nw_class_name = we_class_name entry, nw_config_name = we_config_name entry,
      nw_application_version = unwrap_or (op_version opts) (ex_version ex),
      nw_application_id = ex_application_id ex, nw_executor_id = ex_executor_id ex,
      nw_created_at_ms = created, nw_updated_at_ms = None, nw_deadline_ms = deadline,
      nw_timeout_ms = map_option as_i64 (op_timeout opts), nw_input = input,
      nw_queue_name = unwrap_or_default (op_queue opts),
      nw_deduplication_id = unwrap_or_default (op_dedup_id opts), nw_priority = op_priority opts,
      nw_authenticated_user = unwrap_or_default (op_user opts),
      nw_assumed_role = unwrap_or_default (op_role opts), nw_authenticated_roles = op_roles opts,
      nw_queue_partition_key = unwrap_or_default (op_partition_key opts),
      nw_parent_workflow_id = (case child of None \<Rightarrow> [] | Some c \<Rightarrow> cs_parent c),
      nw_delay_until_ms = delay_until, nw_serialization = ser\<rparr>"

definition child_record_of :: "'w workflow_entry \<Rightarrow> string \<Rightarrow> child_spawn \<Rightarrow> child_record" where
  "child_record_of entry i c =
     \<lparr>cr_parent = cs_parent c, cr_step_id = cs_step_id c, cr_step_name = we_name entry, cr_child = i\<rparr>"

text \<open>What the start writes: the id it chose, its owner xid and the outcome of the insert.\<close>

definition insert_start ::
  "'w executor \<Rightarrow> 'w workflow_entry \<Rightarrow> string option \<Rightarrow> string \<Rightarrow> run_options \<Rightarrow> run_flags \<Rightarrow>
   child_spawn option \<Rightarrow> 'w eng \<Rightarrow> (string \<times> string \<times> insert_result res) \<times> 'w eng" where
  "insert_start ex entry input ser opts flags child e =
     (let (i, e) = choose_id opts child e;
          (delay_until, e) = deadline_in (op_delay opts) e;
          (deadline, e) =
            (if unwrap_or_default (op_queue opts) = [] then deadline_in (op_timeout opts) e else (None, e));
          (created, e) = now_ms e;
          (owner, e) = new_uuid e;
          (now, e) = now_ms e;
          (r, db) = insert_workflow_status
            \<lparr>in_status = new_status ex entry input ser opts child i delay_until deadline created,
             in_max_retries = we_max_retries entry, in_owner_xid = owner,
             in_increment_attempts = fl_dequeue flags \<or> fl_recovery flags,
             in_record_child = map_option (child_record_of entry i) child\<rparr> now (en_db e)
      in ((i, owner, r), e\<lparr>en_db := db\<rparr>))"

text \<open>Whether the started workflow runs here.\<close>

definition should_skip ::
  "run_options \<Rightarrow> run_flags \<Rightarrow> insert_result \<Rightarrow> string \<Rightarrow> bool \<Rightarrow> bool" where
  "should_skip opts flags res owner already_active \<longleftrightarrow>
     unwrap_or_default (op_queue opts) \<noteq> [] \<or> ir_status res = Success \<or> ir_status res = Error
     \<or> (\<not> fl_dequeue flags \<and> \<not> fl_recovery flags \<and> ir_owner_xid res \<noteq> owner) \<or> already_active"

definition task_of :: "string \<Rightarrow> string option \<Rightarrow> string \<Rightarrow> run_options \<Rightarrow> insert_result \<Rightarrow> string \<Rightarrow> task" where
  "task_of name input ser opts res i =
     \<lparr>tk_name = name,
      tk_wc = \<lparr>wc_id = i, wc_portable = op_portable opts, wc_within_step = False,
               wc_user = unwrap_or_default (op_user opts), wc_role = unwrap_or_default (op_role opts),
               wc_roles = op_roles opts\<rparr>,
      tk_input = input, tk_serialization = ser, tk_deadline = ir_deadline_ms res\<rparr>"

definition active_of :: "insert_result \<Rightarrow> active_entry" where
  "active_of res =
     \<lparr>ae_queue_name = unwrap_or_default (ir_queue_name res),
      ae_partition_key = unwrap_or_default (ir_queue_partition_key res)\<rparr>"

definition run_workflow_erased ::
  "'w executor \<Rightarrow> string \<Rightarrow> string option \<Rightarrow> string \<Rightarrow> run_options \<Rightarrow> run_flags \<Rightarrow> child_spawn option \<Rightarrow>
   'w rt \<Rightarrow> erased_handle res \<times> 'w rt" where
  "run_workflow_erased ex name input ser opts flags child rt =
     (case map_of (ex_registry ex) name of
        None \<Rightarrow> (Inl (non_existent_workflow name), rt)
      | Some entry \<Rightarrow>
          (case option_error opts of
             Some err \<Rightarrow> (Inl err, rt)
           | None \<Rightarrow>
               (let ((i, owner, r), rt) = lift_eng (insert_start ex entry input ser opts flags child) rt in
                case r of
                  Inl err \<Rightarrow> (Inl err, rt)
                | Inr res \<Rightarrow>
                    if should_skip opts flags res owner (map_of (rt_active rt) i \<noteq> None)
                    then (Inr (Polling i), rt)
                    else (Inr (Channel i),
                          rt\<lparr>rt_active := AList.update i (active_of res) (rt_active rt),
                             rt_tasks := rt_tasks rt @ [task_of name input ser opts res i]\<rparr>))))"

text \<open>The encoding of the input, common to a start and a child start.\<close>

definition encode_input :: "ctx \<Rightarrow> run_options \<Rightarrow> bool \<Rightarrow> json \<Rightarrow> (string option \<times> string) res" where
  "encode_input cx opts is_args input =
     (if op_portable opts
      then map_ok (\<lambda>t. (t, PORTABLE_SERIALIZER_NAME)) (encode_portable_args (cx_codec cx) is_args input)
      else let encoder = resolve_encoder (cx_codec cx) False (cx_serializer cx)
           in map_ok (\<lambda>t. (t, sz_name encoder)) (encode encoder input))"

definition run_workflow ::
  "'w executor \<Rightarrow> string \<Rightarrow> bool \<Rightarrow> json \<Rightarrow> run_options \<Rightarrow> 'w rt \<Rightarrow> erased_handle res \<times> 'w rt" where
  "run_workflow ex name is_args input opts rt =
     (case encode_input (ex_ctx ex) opts is_args input of
        Inl err \<Rightarrow> (Inl err, rt)
      | Inr (encoded, ser) \<Rightarrow> run_workflow_erased ex name encoded ser opts fl_default None rt)"

text \<open>A child inherits the identity of its parent where the caller gave none.\<close>

definition inherit_identity :: "wfctx \<Rightarrow> run_options \<Rightarrow> run_options" where
  "inherit_identity wc opts =
     opts\<lparr>op_user := (case op_user opts of None \<Rightarrow> Some (wc_user wc) | Some u \<Rightarrow> Some u),
          op_role := (case op_role opts of None \<Rightarrow> Some (wc_role wc) | Some r \<Rightarrow> Some r),
          op_roles := (if op_roles opts = [] then wc_roles wc else op_roles opts)\<rparr>"

definition run_child_workflow ::
  "'w executor \<Rightarrow> wfctx \<Rightarrow> string \<Rightarrow> bool \<Rightarrow> json \<Rightarrow> run_options \<Rightarrow> 'w rt \<Rightarrow> erased_handle res \<times> 'w rt" where
  "run_child_workflow ex wc name is_args input opts rt =
     (if wc_within_step wc
      then (Inl (step_execution (wc_id wc) name
                  (io_error ''cannot spawn child workflow from within a step'')), rt)
      else
        (let (step_id, rt) = lift_eng next_step_id rt; opts = inherit_identity wc opts in
         case check_child_workflow (wc_id wc) step_id (rt_db rt) of
           Some child_id \<Rightarrow> (Inr (Polling child_id), rt)
         | None \<Rightarrow>
             (case encode_input (ex_ctx ex) opts is_args input of
                Inl err \<Rightarrow> (Inl err, rt)
              | Inr (encoded, ser) \<Rightarrow>
                  run_workflow_erased ex name encoded ser opts fl_default
                    (Some \<lparr>cs_parent = wc_id wc, cs_step_id = step_id\<rparr>) rt)))"

subsection \<open>The task\<close>

text \<open>Waiting for another execution's outcome; the environment acts between the polls.\<close>

fun await_outcome :: "nat \<Rightarrow> string \<Rightarrow> 'w eng \<Rightarrow> (await_result res \<times> 'w eng) option" where
  "await_outcome 0 i e = None"
| "await_outcome (Suc n) i e =
     (case await_poll i (en_db e) of
        Some r \<Rightarrow> Some (r, e)
      | None \<Rightarrow>
          await_outcome n i
            (e\<lparr>en_db := en_env e (en_reads e) (en_db e), en_reads := Suc (en_reads e)\<rparr>))"

type_synonym encoded_outcome = "string option \<times> string"

definition write_outcome ::
  "string \<Rightarrow> workflow_status_type \<Rightarrow> string option \<Rightarrow> string \<Rightarrow> 'w rt \<Rightarrow> 'w rt" where
  "write_outcome i status out err rt =
     (let (t1, e) = now_ms (rt_eng rt); (t2, e) = now_ms e
      in rt\<lparr>rt_eng := e\<lparr>en_db := update_workflow_outcome i status out err t1 t2 (en_db e)\<rparr>\<rparr>)"

text \<open>The outcome of an execution that lost its id to another one.\<close>

definition adopt_outcome :: "ctx \<Rightarrow> dbos_error \<Rightarrow> await_result res \<Rightarrow> encoded_outcome res" where
  "adopt_outcome cx err awaited =
     (case awaited of
        Inl await_err \<Rightarrow> Inl await_err
      | Inr ar \<Rightarrow>
          (case aw_error ar of
             Some es \<Rightarrow>
               Inl (unwrap_or (deserialize_workflow_error (cx_codec cx) (Some es) (aw_serialization ar)) err)
           | None \<Rightarrow> Inr (aw_output ar, aw_serialization ar)))"

definition finish_task ::
  "ctx \<Rightarrow> nat \<Rightarrow> task \<Rightarrow> string option res \<Rightarrow> 'w rt \<Rightarrow> (encoded_outcome res \<times> 'w rt) option" where
  "finish_task cx fuel t result rt =
     (let i = wc_id (tk_wc t); ser = tk_serialization t in
      case result of
        Inr output \<Rightarrow> Some (Inr (output, ser), write_outcome i Success output [] rt)
      | Inl err \<Rightarrow>
          if is_code err ConflictingId
          then map_option (\<lambda>(awaited, e). (adopt_outcome cx err awaited, rt\<lparr>rt_eng := e\<rparr>))
                 (await_outcome fuel i (rt_eng rt))
          else Some (Inl err,
                 write_outcome i Error None (serialize_workflow_error (cx_codec cx) err ser) rt))"

definition deactivate :: "string \<Rightarrow> 'w rt \<Rightarrow> 'w rt" where
  "deactivate i rt = rt\<lparr>rt_active := AList.delete i (rt_active rt)\<rparr>"

definition run_task ::
  "'w executor \<Rightarrow> nat \<Rightarrow> task \<Rightarrow> 'w rt \<Rightarrow> (encoded_outcome res \<times> 'w rt) option" where
  "run_task ex fuel t rt =
     (case map_of (ex_registry ex) (tk_name t) of
        None \<Rightarrow> None
      | Some entry \<Rightarrow>
          (case we_erased entry (tk_wc t) (tk_input t) (tk_serialization t)
                  (rt\<lparr>rt_eng := (rt_eng rt)\<lparr>en_step := - 1\<rparr>\<rparr>) of
             None \<Rightarrow> None
           | Some (result, rt) \<Rightarrow>
               map_option (\<lambda>(outcome, rt). (outcome, deactivate (wc_id (tk_wc t)) rt))
                 (finish_task (ex_ctx ex) fuel t result rt)))"

text \<open>The deadline watcher: how long it waits, and what it does when neither the task nor the engine
  has stopped it by then.\<close>

definition watch_remaining :: "int \<Rightarrow> int \<Rightarrow> int" where
  "watch_remaining deadline t = max (sub_i64 deadline t) 0"

definition deadline_watch :: "task \<Rightarrow> bool \<Rightarrow> 'w rt \<Rightarrow> 'w rt" where
  "deadline_watch t stopped rt =
     (if tk_deadline t = None \<or> stopped then rt
      else let (now, e) = now_ms (rt_eng rt)
           in rt\<lparr>rt_eng := e\<lparr>en_db := snd (cancel_workflow (wc_id (tk_wc t)) now (en_db e))\<rparr>\<rparr>)"

subsection \<open>Handles\<close>

definition poll_result :: "ctx \<Rightarrow> nat \<Rightarrow> string \<Rightarrow> 'w eng \<Rightarrow> (json res \<times> 'w eng) option" where
  "poll_result cx fuel i e =
     (case await_outcome fuel i e of
        None \<Rightarrow> None
      | Some (Inl err, e) \<Rightarrow> Some (Inl err, e)
      | Some (Inr ar, e) \<Rightarrow>
          (case (case aw_error ar of
                   None \<Rightarrow> None
                 | Some es \<Rightarrow> deserialize_workflow_error (cx_codec cx) (Some es) (aw_serialization ar)) of
             Some err \<Rightarrow> Some (Inl err, e)
           | None \<Rightarrow> Some (decode_stored cx (aw_serialization ar) (aw_output ar), e)))"

text \<open>
  \<open>ChannelHandle::get_result\<close>: \<open>rx\<close> is \<open>None\<close> once it has been taken, \<open>Some None\<close> when the sender was
  dropped, \<open>Some (Some outcome)\<close> when the task sent its outcome.  The handle's next \<open>rx\<close> is \<open>None\<close>.
\<close>

definition channel_get_result ::
  "ctx \<Rightarrow> nat \<Rightarrow> string \<Rightarrow> encoded_outcome res option option \<Rightarrow> 'w eng \<Rightarrow> (json res \<times> 'w eng) option" where
  "channel_get_result cx fuel i rx e =
     (case rx of
        Some (Some (Inr (output, ser))) \<Rightarrow> Some (decode_stored cx ser output, e)
      | Some (Some (Inl err)) \<Rightarrow> Some (Inl err, e)
      | _ \<Rightarrow> poll_result cx fuel i e)"

definition get_status :: "string \<Rightarrow> sysdb \<Rightarrow> workflow_status_view res" where
  "get_status i db =
     (case get_workflow_status i db of None \<Rightarrow> Inl (non_existent_workflow i) | Some s \<Rightarrow> Inr s)"

end
