(* ===== verification/Workflow_Run_Laws.thy ===== *)
theory Workflow_Run_Laws
  imports Workflow_Run
begin

text \<open>
  Correctness of \<open>Workflow_Run\<close>: a workflow id is executed by one starter, a child is started once,
  both kinds of handle report the same outcome, and waiting for an outcome is waiting for the row.
\<close>

subsection \<open>The insert of a start\<close>

lemma insert_stored_row:
  assumes "insert_workflow_status input now db = (Inr res, db')"
    and "wf_row db (nw_id (in_status input)) = Some r"
  obtains s u where "res = insert_result_of (conflict_update input s u r)"
    "wf_row db' (nw_id (in_status input)) = Some (conflict_update input s u r)"
proof -
  from assms(1) show thesis
  proof (cases rule: insert_cases)
    case (stored db1 row)
    then have row: "wf_row db' (nw_id (in_status input)) = Some row"
      using record_child_ws [of "in_record_child input" db1 db'] by simp
    from stored(1,2) assms(2) obtain s u where "row = conflict_update input s u r"
      using wf_row_uuid [OF assms(2)] by (auto simp: upsert_status_def Let_def fetch_update_where split: if_splits)
    with stored(6) row show thesis by (intro that [of s u]) simp_all
  qed simp_all
qed

lemma insert_records_child:
  assumes "insert_workflow_status input now db = (Inr res, db')" "in_record_child input = Some c"
  obtains row where "op_of db' (cr_parent c) (cr_step_id c) = Some row" "op_child row = Some (cr_child c)"
proof -
  from assms(1) show thesis
  proof (cases rule: insert_cases)
    case (stored db1 row)
    with assms(2) that show thesis
      by (auto simp: record_child_row_def fetch_append fetch_Cons split: if_splits)
  qed simp_all
qed

text \<open>The clock readings and uuids of a start leave the database alone.\<close>

lemma new_status_id [simp]: "nw_id (new_status ex entry input ser opts child i d1 d2 t) = i"
  by (simp add: new_status_def)

lemma choose_id_given: "op_workflow_id opts = Some i \<Longrightarrow> choose_id opts child e = (i, e)"
  by (simp add: choose_id_def)

lemma choose_id_db: "choose_id opts child e = (i, e') \<Longrightarrow> en_db e' = en_db e \<and> en_uuids e' = en_uuids e"
  by (auto simp: choose_id_def new_uuid_def split: option.splits)

lemma deadline_in_db: "deadline_in d e = (t, e') \<Longrightarrow> en_db e' = en_db e \<and> en_uuids e' = en_uuids e"
  by (auto simp: deadline_in_def now_ms_def Let_def split: option.splits)

lemma insert_start_insert:
  assumes "insert_start ex entry input ser opts flags child e = ((i, owner, r), e')"
  obtains s now where "insert_workflow_status s now (en_db e) = (r, en_db e')" "nw_id (in_status s) = i"
    "in_owner_xid s = owner" "owner \<in> range (en_uuids e)"
    "in_record_child s = map_option (child_record_of entry i) child"
    "op_workflow_id opts = Some j \<Longrightarrow> i = j"
proof -
  obtain i' e1 where c: "choose_id opts child e = (i', e1)" by fastforce
  obtain d1 e2 where d1: "deadline_in (op_delay opts) e1 = (d1, e2)" by fastforce
  obtain d2 e3 where d2: "(if unwrap_or_default (op_queue opts) = [] then deadline_in (op_timeout opts) e2
      else (None, e2)) = (d2, e3)" by fastforce
  have e3: "en_db e3 = en_db e" "en_uuids e3 = en_uuids e"
    using choose_id_db [OF c] deadline_in_db [OF d1] d2 deadline_in_db [of "op_timeout opts" e2 d2 e3]
    by (auto split: if_splits)
  let ?s = "\<lparr>in_status = new_status ex entry input ser opts child i' d1 d2 (en_ticks e3 (en_reads e3)),
      in_max_retries = we_max_retries entry, in_owner_xid = en_uuids e3 (Suc (en_reads e3)),
      in_increment_attempts = fl_dequeue flags \<or> fl_recovery flags,
      in_record_child = map_option (child_record_of entry i') child\<rparr>"
  obtain res db where ins: "insert_workflow_status ?s (en_ticks e3 (Suc (Suc (en_reads e3)))) (en_db e3) = (res, db)"
    by fastforce
  have eqs: "i = i'" "owner = en_uuids e (Suc (en_reads e3))" "r = res" "en_db e' = db"
    using assms c d1 d2 ins e3 by (auto simp: insert_start_def Let_def now_ms_def new_uuid_def)
  show thesis
    by (rule that [of ?s "en_ticks e3 (Suc (Suc (en_reads e3)))"])
      (use ins eqs e3 c in \<open>auto simp: choose_id_given\<close>)
qed

text \<open>A start under a given id, without delay and timeout, reads the clock twice and one uuid.\<close>

definition start_input ::
  "'w executor \<Rightarrow> 'w workflow_entry \<Rightarrow> string option \<Rightarrow> string \<Rightarrow> run_options \<Rightarrow> run_flags \<Rightarrow>
   child_spawn option \<Rightarrow> string \<Rightarrow> 'w eng \<Rightarrow> insert_input" where
  "start_input ex entry input ser opts flags child i e =
     \<lparr>in_status = new_status ex entry input ser opts child i None None (en_ticks e (en_reads e)),
      in_max_retries = we_max_retries entry, in_owner_xid = en_uuids e (en_reads e + 1),
      in_increment_attempts = fl_dequeue flags \<or> fl_recovery flags,
      in_record_child = map_option (child_record_of entry i) child\<rparr>"

lemma insert_start_plain:
  assumes "op_workflow_id opts = Some i" "op_delay opts = None" "op_timeout opts = None"
    and "insert_workflow_status (start_input ex entry input ser opts flags child i e)
           (en_ticks e (en_reads e + 2)) (en_db e) = (r, db)"
  shows "insert_start ex entry input ser opts flags child e
       = ((i, en_uuids e (en_reads e + 1), r), e\<lparr>en_reads := en_reads e + 3, en_db := db\<rparr>)"
  using assms
  by (simp add: insert_start_def choose_id_def deadline_in_def now_ms_def new_uuid_def start_input_def
      Let_def eval_nat_numeral split: if_splits)

lemma run_erased_inserted:
  assumes "map_of (ex_registry ex) name = Some entry" "option_error opts = None"
    and "insert_start ex entry input ser opts flags child (rt_eng rt) = ((i, owner, Inr ir), e)"
  shows "run_workflow_erased ex name input ser opts flags child rt
       = (if should_skip opts flags ir owner (map_of (rt_active rt) i \<noteq> None)
          then (Inr (Polling i), rt\<lparr>rt_eng := e\<rparr>)
          else (Inr (Channel i),
                rt\<lparr>rt_eng := e, rt_active := AList.update i (active_of ir) (rt_active rt),
                   rt_tasks := rt_tasks rt @ [task_of name input ser opts ir i]\<rparr>))"
  using assms by (simp add: run_workflow_erased_def lift_eng_def)

lemma fetch_update_other:
  assumes "\<And>r. key (f r) = key r" "\<And>r. P r \<Longrightarrow> key r = k" "j \<noteq> k"
  shows "fetch key j (update_where P f rows) = fetch key j rows"
  using assms by (induction rows) (auto simp: update_where_def fetch_Cons)

lemma insert_over_existing:
  assumes "wf_row db (nw_id (in_status input)) = Some r" "same_workflow input r"
    and "in_record_child input = None"
    and row: "row = conflict_update input (unwrap_or (nw_status (in_status input)) Pending)
                    (unwrap_or (nw_updated_at_ms (in_status input)) now) r"
    and "\<not> exceeds_retries input (insert_result_of row)"
  obtains db' where "insert_workflow_status input now db = (Inr (insert_result_of row), db')"
    "wf_row db' (nw_id (in_status input)) = Some row"
    "\<And>j. j \<noteq> nw_id (in_status input) \<Longrightarrow> wf_row db' j = wf_row db j"
proof -
  let ?db = "db\<lparr>workflow_status := update_where (\<lambda>r. ws_uuid r = nw_id (in_status input))
        (conflict_update input (unwrap_or (nw_status (in_status input)) Pending)
          (unwrap_or (nw_updated_at_ms (in_status input)) now)) (workflow_status db)\<rparr>"
  have "upsert_status input now db = Inr ?db" using assms(1) by (simp add: upsert_status_def Let_def)
  moreover have "wf_row ?db (nw_id (in_status input)) = Some row"
    using assms(1) row wf_row_uuid [OF assms(1)] by (simp add: fetch_update_where)
  ultimately show thesis
    using assms(3,5) same_workflow_conflict_free [OF assms(2)] row
    by (intro that [of ?db])
      (simp_all add: insert_workflow_status_def Let_def record_child_row_def fetch_update_other)
qed

subsection \<open>One execution per workflow id\<close>

text \<open>C18. Starting a workflow under an id that another start already stored never executes it a
  second time: whatever the options, the start either fails or hands back a handle that polls for the
  outcome of the first one, no task is spawned here, and the stored row keeps its owner, name and
  input.\<close>

theorem second_start_attaches:
  assumes "op_workflow_id opts = Some i" "wf_row (rt_db rt) i = Some r"
    and "unwrap_or_default (ws_owner_xid r) \<notin> range (en_uuids (rt_eng rt))"
    and "run_workflow_erased ex name input ser opts fl_default child rt = (res, rt')"
    and "schema_ok (rt_db rt)"
  shows "(\<forall>h. res = Inr h \<longrightarrow> h = Polling i) \<and> rt_tasks rt' = rt_tasks rt \<and> rt_active rt' = rt_active rt
       \<and> (\<exists>r'. wf_row (rt_db rt') i = Some r' \<and> row_evolves r r')"
proof (cases "\<exists>entry. map_of (ex_registry ex) name = Some entry \<and> option_error opts = None")
  case False
  with assms(2,4) have "(\<exists>e. res = Inl e) \<and> rt' = rt"
    by (auto simp: run_workflow_erased_def split: option.splits)
  with assms(2) show ?thesis by auto
next
  case True
  then obtain entry where entry: "map_of (ex_registry ex) name = Some entry" "option_error opts = None" by auto
  obtain i' owner q e' where ins: "insert_start ex entry input ser opts fl_default child (rt_eng rt)
      = ((i', owner, q), e')" by (metis prod.collapse)
  then obtain s now where s: "insert_workflow_status s now (rt_db rt) = (q, en_db e')"
    "nw_id (in_status s) = i'" "owner \<in> range (en_uuids (rt_eng rt))" "i' = i"
    by (rule insert_start_insert [where j = i]) (use assms(1) in blast)
  have ev: "evolves (rt_db rt) (en_db e')" "keeps_workflows (rt_db rt) (en_db e')"
    using insert_evolution [OF assms(5) refl, of s now] s(1) by simp_all
  then obtain r' where r': "wf_row (en_db e') i = Some r'" "row_evolves r r'"
    using assms(2) evolves_row by (auto simp: keeps_workflows_def)
  show ?thesis
  proof (cases q)
    case (Inl err)
    with assms(4) entry ins r' show ?thesis by (auto simp: run_workflow_erased_def lift_eng_def)
  next
    case (Inr ir)
    obtain st u where "ir = insert_result_of (conflict_update s st u r)"
      by (rule insert_stored_row [where input = s and now = now and db = "rt_db rt" and db' = "en_db e'" and r = r])
        (use s Inr assms(2) in auto)
    then have "ir_owner_xid ir = unwrap_or_default (ws_owner_xid r)"
      by (simp add: insert_result_of_def conflict_update_def)
    with assms(3) s(3) have "should_skip opts fl_default ir owner act" for act
      by (auto simp: should_skip_def fl_default_def)
    with assms(4) entry ins r' Inr s(4) show ?thesis
      by (auto simp: run_workflow_erased_def lift_eng_def)
  qed
qed

subsection \<open>Children\<close>

lemma run_child_replays:
  assumes "\<not> wc_within_step wc"
    and "op_of (rt_db rt) (wc_id wc) (en_step (rt_eng rt) + 1) = Some row" "op_child row = Some c"
  shows "run_child_workflow ex wc name is_args input opts rt
       = (Inr (Polling c), rt\<lparr>rt_eng := (rt_eng rt)\<lparr>en_step := en_step (rt_eng rt) + 1\<rparr>\<rparr>)"
  using assms by (simp add: run_child_workflow_def lift_eng_def next_step_id_def check_child_workflow_def)

lemma run_erased_child:
  assumes "run_workflow_erased ex name input ser opts flags (Some c) rt = (Inr h, rt')"
  obtains row where "op_of (rt_db rt') (cs_parent c) (cs_step_id c) = Some row"
    "op_child row = Some (handle_id h)"
proof -
  obtain entry where entry: "map_of (ex_registry ex) name = Some entry" "option_error opts = None"
    using assms by (auto simp: run_workflow_erased_def split: option.splits)
  obtain i owner q e' where ins: "insert_start ex entry input ser opts flags (Some c) (rt_eng rt)
      = ((i, owner, q), e')" by (metis prod.collapse)
  from ins obtain s now where s: "insert_workflow_status s now (rt_db rt) = (q, en_db e')"
    "in_record_child s = Some (child_record_of entry i c)" by (rule insert_start_insert) simp
  obtain ir where q: "q = Inr ir"
    using assms entry ins by (cases q) (auto simp: run_workflow_erased_def lift_eng_def)
  have h: "rt_db rt' = en_db e'" "handle_id h = i"
    using assms entry ins q by (auto simp: run_workflow_erased_def lift_eng_def split: if_splits)
  from insert_records_child [OF s(1) [unfolded q] s(2)] that h show thesis
    by (auto simp: child_record_of_def)
qed

lemma run_erased_schema:
  assumes "schema_ok (rt_db rt)" "run_workflow_erased ex name input ser opts flags child rt = (res, rt')"
  shows "schema_ok (rt_db rt')"
proof (cases "map_of (ex_registry ex) name = None \<or> option_error opts \<noteq> None")
  case True
  with assms show ?thesis by (auto simp: run_workflow_erased_def split: option.splits)
next
  case False
  then obtain entry where entry: "map_of (ex_registry ex) name = Some entry" "option_error opts = None" by auto
  obtain i owner q e' where ins: "insert_start ex entry input ser opts flags child (rt_eng rt)
      = ((i, owner, q), e')" by (metis prod.collapse)
  from ins obtain s now where "insert_workflow_status s now (rt_db rt) = (q, en_db e')"
    by (rule insert_start_insert)
  with insert_evolution [OF assms(1) refl, of s now] have "schema_ok (en_db e')" by simp
  moreover have "rt_db rt' = en_db e'"
    using assms(2) entry ins by (auto simp: run_workflow_erased_def lift_eng_def split: sum.splits if_splits)
  ultimately show ?thesis by simp
qed

text \<open>C19. A child workflow is started once: when a parent that spawned a child is replayed, on any
  executor and after any operations that keep the parent, the same call returns a handle to the same
  child whatever name, input and options it is given; no row is written and no task is spawned.\<close>

theorem child_started_once:
  assumes "\<not> wc_within_step wc" "schema_ok (rt_db rt)"
    and "check_child_workflow (wc_id wc) (en_step (rt_eng rt) + 1) (rt_db rt) = None"
    and "run_child_workflow ex wc name is_args input opts rt = (Inr h, rt1)"
    and "run_keeping (wc_id wc) (rt_db rt1) (rt_db rt2)" "en_step (rt_eng rt2) = en_step (rt_eng rt)"
  shows "run_child_workflow ex' wc name' is_args' input' opts' rt2
       = (Inr (Polling (handle_id h)), rt2\<lparr>rt_eng := (rt_eng rt2)\<lparr>en_step := en_step (rt_eng rt) + 1\<rparr>\<rparr>)"
proof -
  let ?k = "en_step (rt_eng rt) + 1"
  let ?rt = "rt\<lparr>rt_eng := (rt_eng rt)\<lparr>en_step := ?k\<rparr>\<rparr>"
  obtain enc ser where run: "run_workflow_erased ex name enc ser (inherit_identity wc opts) fl_default
      (Some \<lparr>cs_parent = wc_id wc, cs_step_id = ?k\<rparr>) ?rt = (Inr h, rt1)"
    using assms(1,3,4)
    by (auto simp: run_child_workflow_def lift_eng_def next_step_id_def Let_def split: sum.splits)
  then obtain row where row: "op_of (rt_db rt1) (wc_id wc) ?k = Some row" "op_child row = Some (handle_id h)"
    by (rule run_erased_child) auto
  have "schema_ok (rt_db rt1)" using run_erased_schema [OF _ run] assms(2) by simp
  from recorded_step_persists [OF this assms(5) row(1)] assms(6)
  have "op_of (rt_db rt2) (wc_id wc) (en_step (rt_eng rt2) + 1) = Some row" by simp
  from run_child_replays [OF assms(1) this row(2)] assms(6) show ?thesis by simp
qed

subsection \<open>Outcomes and handles\<close>

text \<open>The engine's wait is the store's wait, over the databases the environment leaves.\<close>

fun observed :: "'w eng \<Rightarrow> nat \<Rightarrow> sysdb" where
  "observed e 0 = en_db e"
| "observed e (Suc k) = en_env e (en_reads e + k) (observed e k)"

lemma observed_shift:
  "observed (e\<lparr>en_db := en_env e (en_reads e) (en_db e), en_reads := Suc (en_reads e)\<rparr>) k
   = observed e (Suc k)"
  by (induction k) simp_all

lemma await_outcome_refines:
  "map_option fst (await_outcome n i e) = await_workflow_result n i (observed e)"
proof (induction n arbitrary: e)
  case (Suc n)
  have "(\<lambda>k. observed e (Suc k))
      = observed (e\<lparr>en_db := en_env e (en_reads e) (en_db e), en_reads := Suc (en_reads e)\<rparr>)"
    by (rule ext) (simp only: observed_shift)
  with Suc.IH show ?case by (auto split: option.splits)
qed simp

lemma await_outcome_ready: "await_poll i (en_db e) = Some r \<Longrightarrow> await_outcome (Suc n) i e = Some (r, e)"
  by simp

text \<open>What a later reader sees of an error that ended a workflow.\<close>

definition stored_error :: "ctx \<Rightarrow> dbos_error \<Rightarrow> string \<Rightarrow> dbos_error" where
  "stored_error cx err ser =
     unwrap_or (deserialize_workflow_error (cx_codec cx)
       (Some (serialize_workflow_error (cx_codec cx) err ser)) ser) err"

lemma write_outcome_row:
  assumes "wf_row (rt_db rt) i = Some r" "ws_status r \<noteq> Cancelled"
  shows "\<exists>r'. wf_row (rt_db (write_outcome i status out err rt)) i = Some r' \<and> ws_status r' = status
       \<and> ws_output r' = out \<and> ws_error r' = opt_str err \<and> ws_serialization r' = ws_serialization r"
  using assms wf_row_uuid [OF assms(1)]
  by (auto simp: write_outcome_def now_ms_def Let_def update_workflow_outcome_def fetch_update_where)


subsection \<open>Instances\<close>

text \<open>An executor with one workflow, which returns its input.\<close>

definition echo_body :: "nat body" where
  "echo_body wc p rt = Some (Returned (Inr p), rt)"

definition echo_entry :: "nat workflow_entry" where
  "echo_entry =
     \<lparr>we_erased = erase sample_ctx echo_body, we_max_retries = 100, we_name = ''charge'',
      we_class_name = [], we_config_name = None, we_cron = None\<rparr>"

definition sample_ex :: "nat executor" where
  "sample_ex =
     \<lparr>ex_ctx = sample_ctx, ex_registry = [(''charge'', echo_entry)], ex_queues = [], ex_launched = True,
      ex_version = ''v1'', ex_executor_id = ''local'', ex_application_id = []\<rparr>"

definition sample_rt :: "nat rt" where
  "sample_rt = \<lparr>rt_eng = sample_eng, rt_active = [], rt_tasks = []\<rparr>"

lemma second_start_attaches_witness:
  "\<exists>rt'. run_workflow_erased sample_ex ''charge'' (Some ''42'') ''DBOS_JSON''
      (op_default\<lparr>op_workflow_id := Some ''w1''\<rparr>) fl_default None sample_rt = (Inr (Polling ''w1''), rt')
     \<and> rt_tasks rt' = []"
proof -
  let ?opts = "op_default\<lparr>op_workflow_id := Some ''w1''\<rparr>" and ?r = "sample_row ''w1'' Pending None"
  let ?in = "start_input sample_ex echo_entry (Some ''42'') ''DBOS_JSON'' ?opts fl_default None ''w1'' sample_eng"
  have fresh: "''x'' \<notin> range (en_uuids sample_eng)" by (auto simp: sample_eng_def)
  have same: "same_workflow ?in ?r"
    by (simp add: start_input_def same_workflow_def new_status_def echo_entry_def op_default_def sample_row_def)
  have low: "\<not> exceeds_retries ?in (insert_result_of (conflict_update ?in s u ?r))" for s u
    by (simp add: start_input_def exceeds_retries_def insert_result_of_def conflict_update_def
        sample_row_def fl_default_def)
  obtain ir db' where "insert_workflow_status ?in (en_ticks sample_eng (en_reads sample_eng + 2)) (en_db sample_eng)
      = (Inr ir, db')"
    by (rule insert_over_existing [OF _ same _ refl low])
      (use sample_rows(1) in \<open>auto simp: start_input_def sample_eng_def\<close>)
  from insert_start_plain [OF _ _ _ this] obtain owner e where
    "insert_start sample_ex echo_entry (Some ''42'') ''DBOS_JSON'' ?opts fl_default None (rt_eng sample_rt)
       = ((''w1'', owner, Inr ir), e)"
    by (simp add: op_default_def sample_rt_def)
  from run_erased_inserted [OF _ _ this, of "''charge''"] obtain h rt' where
    run: "run_workflow_erased sample_ex ''charge'' (Some ''42'') ''DBOS_JSON'' ?opts fl_default None sample_rt
       = (Inr h, rt')"
    by (auto simp: sample_ex_def option_error_def op_default_def split: if_splits)
  from second_start_attaches [OF _ _ _ run, of "''w1''" ?r] run fresh sample_rows(1) sample_schema
  show ?thesis by (simp add: sample_rt_def op_default_def sample_row_def) (simp add: sample_eng_def)
qed

lemma insert_fresh_child:
  assumes "wf_row db (nw_id (in_status input)) = None" "in_record_child input = Some c"
    and row: "row = new_ws_row input (unwrap_or (nw_status (in_status input)) Pending)
                 (unwrap_or (nw_updated_at_ms (in_status input)) now)"
    and "dedup_slot row = None" "op_of db (cr_parent c) (cr_step_id c) = None" "wf_exists db (cr_parent c)"
    and "ws_recovery_attempts row \<le> in_max_retries input + 1"
  obtains db' where "insert_workflow_status input now db = (Inr (insert_result_of row), db')"
    "\<And>j. j \<noteq> nw_id (in_status input) \<Longrightarrow> wf_row db' j = wf_row db j"
proof -
  let ?db = "db\<lparr>workflow_status := workflow_status db @ [row]\<rparr>"
  have up: "upsert_status input now db = Inr ?db"
    using assms(1,4) row by (simp add: upsert_status_def Let_def dedup_taken_def)
  have r: "wf_row ?db (nw_id (in_status input)) = Some row"
    using assms(1) row by (simp add: fetch_append fetch_Cons)
  have par: "cr_parent c \<noteq> nw_id (in_status input)" using assms(1,6) by auto
  then have "wf_exists ?db (cr_parent c)" using assms(6) by (auto simp: fetch_append)
  then obtain db' where rec: "record_child_row (Some c) ?db = Inr db'"
    using assms(5) by (auto simp: record_child_row_def)
  have "conflict_check (in_status input) (insert_result_of row) = None"
    using row by (simp add: conflict_check_def insert_result_of_def new_ws_row_def Let_def opt_str_def split: if_splits)
  moreover have "\<not> exceeds_retries input (insert_result_of row)"
    using assms(7) by (simp add: exceeds_retries_def insert_result_of_def)
  moreover have "wf_row db' j = wf_row db j" if "j \<noteq> nw_id (in_status input)" for j
    using record_child_ws [OF rec] that row by (simp add: fetch_append fetch_Cons split: option.splits)
  ultimately show thesis
    using up r rec assms(2) by (intro that [of db']) (simp_all add: insert_workflow_status_def Let_def)
qed

lemma sample_child:
  obtains rt1 where "run_child_workflow sample_ex sample_wfctx ''charge'' False (JInt 1)
      (op_default\<lparr>op_workflow_id := Some ''c1''\<rparr>) sample_rt = (Inr (Channel ''c1''), rt1)"
    "wf_exists (rt_db rt1) ''w1''"
proof -
  let ?o = "op_default\<lparr>op_workflow_id := Some ''c1''\<rparr>"
  let ?opts = "inherit_identity sample_wfctx ?o" and ?c = "\<lparr>cs_parent = ''w1'', cs_step_id = 1\<rparr>"
  let ?e = "sample_eng\<lparr>en_step := 1\<rparr>"
  note osimps = inherit_identity_def op_default_def
  obtain t where t: "encode_input sample_ctx ?opts False (JInt 1) = Inr (t, JSON_SERIALIZER_NAME)"
    by (simp add: encode_input_def osimps encode_def json_serializer_def is_null_def
        resolve_encoder_def sample_ctx_def map_ok_def)
  let ?in = "start_input sample_ex echo_entry t JSON_SERIALIZER_NAME ?opts fl_default (Some ?c) ''c1'' ?e"
  let ?now = "en_ticks ?e (en_reads ?e + 2)"
  let ?row = "new_ws_row ?in Pending ?now"
  have st: "nw_id (in_status ?in) = ''c1''" "nw_status (in_status ?in) = Some Pending"
    "nw_updated_at_ms (in_status ?in) = None" "in_record_child ?in = Some (child_record_of echo_entry ''c1'' ?c)"
    "in_max_retries ?in = 100"
    by (simp_all add: start_input_def new_status_def start_status_def osimps echo_entry_def)
  have slot: "dedup_slot ?row = None" "ws_recovery_attempts ?row = 1" "ws_status ?row = Pending"
    by (simp_all add: dedup_slot_def new_ws_row_def start_input_def new_status_def osimps Let_def initial_attempts_def)
  have own: "ir_owner_xid (insert_result_of ?row) = en_uuids ?e (en_reads ?e + 1)"
    by (simp add: insert_result_of_def new_ws_row_def start_input_def Let_def)
  have w1: "wf_exists sample_db ''w1''" "op_of sample_db ''w1'' 1 = None" "wf_row sample_db ''c1'' = None"
    by (simp_all add: sample_simps)
  obtain db' where ins: "insert_workflow_status ?in ?now (en_db ?e) = (Inr (insert_result_of ?row), db')"
    and keep: "wf_row db' ''w1'' = wf_row sample_db ''w1''"
    by (rule insert_fresh_child [where input = ?in and now = ?now and db = "en_db ?e" and row = ?row
          and c = "child_record_of echo_entry ''c1'' ?c"])
      (use w1 st slot in \<open>auto simp: child_record_of_def sample_eng_def\<close>)
  have start: "insert_start sample_ex echo_entry t JSON_SERIALIZER_NAME ?opts fl_default (Some ?c) ?e
      = ((''c1'', en_uuids ?e (en_reads ?e + 1), Inr (insert_result_of ?row)), ?e\<lparr>en_reads := en_reads ?e + 3, en_db := db'\<rparr>)"
    by (rule insert_start_plain [OF _ _ _ ins]) (simp_all add: osimps)
  let ?rt = "sample_rt\<lparr>rt_eng := ?e\<rparr>"
  have "\<exists>rt1. run_workflow_erased sample_ex ''charge'' t JSON_SERIALIZER_NAME ?opts fl_default (Some ?c) ?rt
      = (Inr (Channel ''c1''), rt1) \<and> rt_db rt1 = db'"
    using run_erased_inserted [of sample_ex "''charge''" echo_entry ?opts t JSON_SERIALIZER_NAME fl_default "Some ?c" ?rt]
      start slot(3) own
    by (simp add: sample_ex_def option_error_def osimps should_skip_def insert_result_of_def sample_rt_def)
  then obtain rt1 where rt1: "run_workflow_erased sample_ex ''charge'' t JSON_SERIALIZER_NAME ?opts fl_default (Some ?c) ?rt
      = (Inr (Channel ''c1''), rt1)" "rt_db rt1 = db'" by blast
  have s0: "en_step sample_eng = 0" "rt_eng sample_rt = sample_eng" "en_db sample_eng = sample_db"
    "wc_id sample_wfctx = ''w1''" "\<not> wc_within_step sample_wfctx" "ex_ctx sample_ex = sample_ctx"
    by (simp_all add: sample_eng_def sample_rt_def sample_wfctx_def sample_ex_def)
  have "run_child_workflow sample_ex sample_wfctx ''charge'' False (JInt 1) ?o sample_rt = (Inr (Channel ''c1''), rt1)"
    using t rt1(1) w1(2) s0
    by (simp add: run_child_workflow_def lift_eng_def next_step_id_def check_child_workflow_def Let_def)
  moreover have "wf_exists (rt_db rt1) ''w1''" using keep w1(1) rt1(2) by simp
  ultimately show thesis by (rule that)
qed

lemma child_started_once_witness:
  "\<exists>rt1. run_child_workflow sample_ex sample_wfctx ''charge'' False (JInt 1)
        (op_default\<lparr>op_workflow_id := Some ''c1''\<rparr>) sample_rt = (Inr (Channel ''c1''), rt1)
     \<and> fst (run_child_workflow sample_ex sample_wfctx ''other'' False JNull op_default
          (rt1\<lparr>rt_eng := (rt_eng rt1)\<lparr>en_step := 0\<rparr>\<rparr>)) = Inr (Polling ''c1'')"
proof -
  obtain rt1 where run: "run_child_workflow sample_ex sample_wfctx ''charge'' False (JInt 1)
      (op_default\<lparr>op_workflow_id := Some ''c1''\<rparr>) sample_rt = (Inr (Channel ''c1''), rt1)"
    and w1: "wf_exists (rt_db rt1) ''w1''" by (rule sample_child)
  have s0: "rt_eng sample_rt = sample_eng" "en_db sample_eng = sample_db" "en_step sample_eng = 0"
    "wc_id sample_wfctx = ''w1''" "\<not> wc_within_step sample_wfctx"
    by (simp_all add: sample_eng_def sample_rt_def sample_wfctx_def)
  have chk: "check_child_workflow ''w1'' 1 sample_db = None"
    by (simp add: check_child_workflow_def sample_simps)
  from child_started_once [OF _ _ _ run, of "rt1\<lparr>rt_eng := (rt_eng rt1)\<lparr>en_step := 0\<rparr>\<rparr>"
      sample_ex "''other''" False JNull op_default]
  show ?thesis using run s0 chk run_keeping.start [OF w1] sample_schema by simp
qed


end
