(* ===== verification/Durable_Execution.thy ===== *)
theory Durable_Execution
  imports Workflow_Run_Laws
begin

text \<open>
  What the parts add up to: a workflow body that is a deterministic function of its steps' results,
  interrupted by a crash between two steps and run again from its start, has the effects of one
  uninterrupted run.  A body is given by the step it runs next, as a function of the results so far;
  its closures run in the world of \<open>Workflow_Step\<close>.
\<close>

type_synonym 'w program = "json res list \<Rightarrow> (string \<times> 'w step_fn) option"

subsection \<open>Running a body\<close>

fun run_prog ::
  "ctx \<Rightarrow> wfctx \<Rightarrow> 'w program \<Rightarrow> nat \<Rightarrow> json res list \<Rightarrow> 'w eng \<Rightarrow> json res list \<times> 'w eng" where
  "run_prog cx wc prog 0 rs e = (rs, e)"
| "run_prog cx wc prog (Suc n) rs e =
     (case prog rs of
        None \<Rightarrow> (rs, e)
      | Some (name, f) \<Rightarrow>
          (let (r, e) = run_step cx wc name f e in run_prog cx wc prog n (rs @ [r]) e))"

text \<open>The specification: the closures alone, each once, in order.\<close>

fun spec_prog :: "'w program \<Rightarrow> nat \<Rightarrow> json res list \<Rightarrow> int \<Rightarrow> 'w \<Rightarrow> json res list \<times> 'w" where
  "spec_prog prog 0 rs k w = (rs, w)"
| "spec_prog prog (Suc n) rs k w =
     (case prog rs of
        None \<Rightarrow> (rs, w)
      | Some (name, f) \<Rightarrow> (let (r, w) = f (k + 1) w in spec_prog prog n (rs @ [r]) (k + 1) w))"

text \<open>A body that cannot tell a replayed result from the result it had.\<close>

definition replay_stable :: "ctx \<Rightarrow> wfctx \<Rightarrow> 'w program \<Rightarrow> bool" where
  "replay_stable cx wc prog \<longleftrightarrow> (\<forall>rs qs. prog (map (replayed cx wc) rs @ qs) = prog (rs @ qs))"

lemma run_prog_add:
  "run_prog cx wc prog (k + m) rs e
   = (let (qs, e') = run_prog cx wc prog k rs e in run_prog cx wc prog m qs e')"
proof (induction k arbitrary: rs e)
  case 0
  then show ?case by simp
next
  case (Suc k)
  show ?case
  proof (cases "prog rs")
    case None
    then have "run_prog cx wc prog j rs e = (rs, e)" for j by (cases j) simp_all
    then show ?thesis by (simp add: None)
  next
    case (Some nf)
    then show ?thesis using Suc.IH by (cases nf) (simp add: split_beta Let_def)
  qed
qed

lemma spec_prog_add:
  "spec_prog prog (k + m) rs j w
   = (let (qs, w') = spec_prog prog k rs j w
      in spec_prog prog m qs (j + int (length qs - length rs)) w')
     \<and> (\<exists>ps. fst (spec_prog prog k rs j w) = rs @ ps)"
proof (induction k arbitrary: rs j w)
  case 0
  then show ?case by simp
next
  case (Suc k)
  show ?case
  proof (cases "prog rs")
    case None
    then have "spec_prog prog n rs i v = (rs, v)" for n i v by (cases n) simp_all
    then show ?thesis by (simp add: None)
  next
    case (Some nf)
    obtain name f where nf: "nf = (name, f)" by fastforce
    obtain r w1 where f: "f (j + 1) w = (r, w1)" by fastforce
    obtain qs w2 where q: "spec_prog prog k (rs @ [r]) (j + 1) w1 = (qs, w2)" by fastforce
    from Suc.IH [of "rs @ [r]" "j + 1" w1] obtain ps where ps: "qs = rs @ r # ps"
      and add: "spec_prog prog (k + m) (rs @ [r]) (j + 1) w1
        = spec_prog prog m qs (j + 1 + int (length qs - length (rs @ [r]))) w2" by (auto simp: q)
    have "j + 1 + int (length qs - length (rs @ [r])) = j + int (length qs - length rs)"
      using ps by simp
    with add have "spec_prog prog (k + m) (rs @ [r]) (j + 1) w1
        = spec_prog prog m qs (j + int (length qs - length rs)) w2" by simp
    with ps Some nf f q show ?thesis by simp
  qed
qed

subsection \<open>Fresh steps\<close>

definition fresh_from :: "sysdb \<Rightarrow> string \<Rightarrow> int \<Rightarrow> bool" where
  "fresh_from db i k \<longleftrightarrow> (\<forall>j > k. op_of db i j = None)"

lemma step_record_ok:
  assumes "ctx_ok cx" "plain_result r"
  obtains input where "step_record cx wc k name t1 t2 r = Inr input"
proof (cases r)
  case (Inl err)
  with that show thesis by (simp add: step_record_def Let_def)
next
  case (Inr v)
  have "faithful (resolve_encoder (cx_codec cx) (wc_portable wc) (cx_serializer cx))"
    using assms(1) by (intro encoder_faithful) (simp_all add: ctx_ok_def)
  with Inr assms(2) obtain t where
    "encode (resolve_encoder (cx_codec cx) (wc_portable wc) (cx_serializer cx)) v = Inr t"
    by (auto simp: faithful_def plain_result_def encode_def map_serialize_error_def)
  with Inr that show thesis by (simp add: step_record_def Let_def bind_res_def)
qed

lemma run_keeping_trans:
  assumes "run_keeping i b c" "run_keeping i a b"
  shows "run_keeping i a c"
  using assms
proof (induction rule: run_keeping.induct)
  case (start db i)
  then show ?case by simp
next
  case (more i b db1 db2)
  show ?case by (rule run_keeping.more [OF more.IH [OF more.prems] more.hyps(2,3)])
qed

lemma fresh_step:
  assumes "ctx_ok cx" "\<not> wc_within_step wc" "live_workflow (en_db e) (wc_id wc)" "schema_ok (en_db e)"
    and "fresh_from (en_db e) (wc_id wc) (en_step e)" "plain_result (fst (f (en_step e + 1) (en_world e)))"
  obtains e' where "run_step cx wc name f e = (fst (f (en_step e + 1) (en_world e)), e')"
    "en_world e' = snd (f (en_step e + 1) (en_world e))" "en_step e' = en_step e + 1"
    "op_of (en_db e') (wc_id wc) (en_step e + 1) \<noteq> None" "fresh_from (en_db e') (wc_id wc) (en_step e + 1)"
    "live_workflow (en_db e') (wc_id wc)" "schema_ok (en_db e')" "run_keeping (wc_id wc) (en_db e) (en_db e')"
proof -
  let ?k = "en_step e + 1"
  obtain r w where f: "f ?k (en_world e) = (r, w)" by fastforce
  obtain input where i: "step_record cx wc ?k name (en_ticks e (en_reads e)) (en_ticks e (Suc (en_reads e))) r = Inr input"
    by (rule step_record_ok [OF assms(1)]) (use assms(6) f in auto)
  note fields = step_record_fields(1,2) [OF i]
  have none: "op_of (en_db e) (wc_id wc) ?k = None" using assms(5) by (simp add: fresh_from_def)
  have ex: "wf_exists (en_db e) (wc_id wc)"
    using assms(3) by (auto simp: live_workflow_def split: option.splits)
  obtain db where rec: "record_operation_result input (en_db e) = (Inr (), db)"
    using none ex fields by (auto simp: record_operation_result_def)
  then have db: "db = snd (record_operation_result input (en_db e))" by simp
  let ?e' = "e\<lparr>en_step := ?k, en_reads := Suc (Suc (en_reads e)), en_world := w, en_db := db\<rparr>"
  have run: "run_step cx wc name f e = (r, ?e')"
    using assms(2) check_step_fresh [OF assms(3) none] i rec f
    by (simp add: run_step_def memoized_def next_step_id_def now_ms_def call_step_def record_step_def Let_def)
  have op: "op_of db (wc_id wc) j = (if j = ?k then Some (recorded_row input) else op_of (en_db e) (wc_id wc) j)" for j
    using none ex fields unfolding db op_of_record by (auto split: option.splits)
  have "wf_row db (wc_id wc) = wf_row (en_db e) (wc_id wc)" unfolding db by simp
  then have "live_workflow db (wc_id wc)" "run_keeping (wc_id wc) (en_db e) db"
    using assms(3) ex db run_keeping.more [OF run_keeping.start [OF ex] db_step.record_op, of input]
    by (simp_all add: live_workflow_def)
  moreover have "schema_ok db" by (rule record_db_contract(1) [OF rec assms(4)])
  moreover have "fresh_from db (wc_id wc) ?k" using assms(5) op by (simp add: fresh_from_def)
  ultimately show thesis by (intro that [of ?e']) (simp_all add: run f op)
qed

lemma plain_canon: "plain_json v \<Longrightarrow> plain_json (canon v)"
proof (induction v)
  case (JObject kvs)
  let ?l = "map (\<lambda>(k, v). (k, canon v)) kvs"
  have "plain_json (canon x)" if "(k, x) \<in> set kvs" for k x
    using JObject.IH [of "(k, x)" x] JObject.prems that by (auto simp: list_all_iff)
  moreover have "distinct (map fst ?l)" using JObject.prems by (simp add: comp_def split_beta)
  then have "distinct (map fst (sort_key fst ?l))" by (simp only: distinct_map distinct_sort set_sort)
  ultimately show ?case by (auto simp: list_all_iff)
qed (auto simp: list_all_iff)

text \<open>A run whose steps are all fresh is the specification, and records every step it takes.\<close>

lemma spec_prog_extends:
  obtains ps where "fst (spec_prog prog n rs k w) = rs @ ps"
  using spec_prog_add [of prog n 0 rs k w] by auto

lemma fresh_run:
  assumes "ctx_ok cx" "\<not> wc_within_step wc" "live_workflow (en_db e) (wc_id wc)" "schema_ok (en_db e)"
    and "fresh_from (en_db e) (wc_id wc) (en_step e)"
    and "list_all plain_result (fst (spec_prog prog n rs (en_step e) (en_world e)))"
  shows "\<exists>e'. run_prog cx wc prog n rs e = (fst (spec_prog prog n rs (en_step e) (en_world e)), e')
     \<and> en_world e' = snd (spec_prog prog n rs (en_step e) (en_world e))
     \<and> en_step e' = en_step e + int (length (fst (spec_prog prog n rs (en_step e) (en_world e))) - length rs)
     \<and> live_workflow (en_db e') (wc_id wc) \<and> schema_ok (en_db e')
     \<and> run_keeping (wc_id wc) (en_db e) (en_db e')"
  using assms(3-6)
proof (induction n arbitrary: rs e)
  case 0
  then have "wf_exists (en_db e) (wc_id wc)" by (auto simp: live_workflow_def split: option.splits)
  then show ?case using 0 by (auto intro: run_keeping.start)
next
  case (Suc n)
  show ?case
  proof (cases "prog rs")
    case None
    have "wf_exists (en_db e) (wc_id wc)" using Suc.prems(1) by (auto simp: live_workflow_def split: option.splits)
    then show ?thesis using Suc.prems None by (auto intro: run_keeping.start)
  next
    case (Some nf)
    obtain name f where nf: "nf = (name, f)" by fastforce
    obtain r w where f: "f (en_step e + 1) (en_world e) = (r, w)" by fastforce
    obtain qs w2 where q: "spec_prog prog n (rs @ [r]) (en_step e + 1) w = (qs, w2)" by fastforce
    obtain ps where qs: "qs = rs @ r # ps"
      using spec_prog_extends [of prog n "rs @ [r]" "en_step e + 1" w] q by auto
    have plain: "list_all plain_result qs" using Suc.prems(4) Some nf f q by simp
    obtain e1 where e1: "run_step cx wc name f e = (r, e1)" "en_world e1 = w" "en_step e1 = en_step e + 1"
      "fresh_from (en_db e1) (wc_id wc) (en_step e + 1)" "live_workflow (en_db e1) (wc_id wc)"
      "schema_ok (en_db e1)" "run_keeping (wc_id wc) (en_db e) (en_db e1)"
      by (rule fresh_step [OF assms(1,2) Suc.prems(1-3), of f name]) (use plain qs f in auto)
    from Suc.IH [OF e1(5,6), of "rs @ [r]"] e1(2-4) q plain obtain e' where
      e': "run_prog cx wc prog n (rs @ [r]) e1 = (qs, e')" "en_world e' = w2"
        "en_step e' = en_step e + 1 + int (length qs - length (rs @ [r]))"
        "live_workflow (en_db e') (wc_id wc)" "schema_ok (en_db e')"
        "run_keeping (wc_id wc) (en_db e1) (en_db e')" by auto
    have "en_step e' = en_step e + int (length qs - length rs)" using e'(3) qs by simp
    with e' e1(1) Some nf f q run_keeping_trans [OF e'(6) e1(7)] show ?thesis by simp
  qed
qed

subsection \<open>Replaying what was recorded\<close>

text \<open>After a run of fresh steps and whatever else kept the workflow, a run from the start takes the
  same steps without running a closure: it returns the replayed results and touches nothing.\<close>

lemma replayed_run:
  assumes "ctx_ok cx" "\<not> wc_within_step wc" "replay_stable cx wc prog"
    and "live_workflow (en_db e) (wc_id wc)" "schema_ok (en_db e)"
    and "fresh_from (en_db e) (wc_id wc) (en_step e)"
    and "list_all plain_result (fst (spec_prog prog n rs (en_step e) (en_world e)))"
    and "run_prog cx wc prog n rs e = (qs, e1)" "run_keeping (wc_id wc) (en_db e1) (en_db e2)"
    and "live_workflow (en_db e2) (wc_id wc)" "en_step e2 = en_step e"
  shows "run_prog cx wc prog n (map (replayed cx wc) rs) e2
       = (map (replayed cx wc) qs, e2\<lparr>en_step := en_step e1\<rparr>)"
  using assms(4-11)
proof (induction n arbitrary: rs e e2)
  case (Suc n)
  have stable: "prog (map (replayed cx wc) rs) = prog rs"
    using assms(3) unfolding replay_stable_def by (metis append_Nil2)
  show ?case
  proof (cases "prog rs")
    case None
    with Suc.prems stable show ?thesis by simp
  next
    case (Some nf)
    obtain name f where nf: "nf = (name, f)" by fastforce
    obtain r w where f: "f (en_step e + 1) (en_world e) = (r, w)" by fastforce
    obtain ps where spec: "fst (spec_prog prog n (rs @ [r]) (en_step e + 1) w) = rs @ r # ps"
      using spec_prog_extends [of prog n "rs @ [r]" "en_step e + 1" w] by fastforce
    have "spec_prog prog (Suc n) rs (en_step e) (en_world e) = spec_prog prog n (rs @ [r]) (en_step e + 1) w"
      using Some nf f by simp
    with Suc.prems(4) spec have plain: "list_all plain_result (rs @ r # ps)" by simp
    obtain ea where ea: "run_step cx wc name f e = (r, ea)" "en_world ea = w" "en_step ea = en_step e + 1"
      "op_of (en_db ea) (wc_id wc) (en_step e + 1) \<noteq> None"
      "fresh_from (en_db ea) (wc_id wc) (en_step e + 1)" "live_workflow (en_db ea) (wc_id wc)"
      "schema_ok (en_db ea)"
      by (rule fresh_step [OF assms(1,2) Suc.prems(1-3), of f name]) (use plain f in auto)
    have rest: "run_prog cx wc prog n (rs @ [r]) ea = (qs, e1)" using Suc.prems(5) Some nf ea(1) by simp
    have "run_keeping (wc_id wc) (en_db ea) (en_db e1)"
    proof -
      have "fresh_from (en_db ea) (wc_id wc) (en_step ea)"
        "list_all plain_result (fst (spec_prog prog n (rs @ [r]) (en_step ea) (en_world ea)))"
        using ea(2,3,5) plain spec by simp_all
      from fresh_run [OF assms(1,2) ea(6,7) this] rest show ?thesis by (elim exE conjE) simp
    qed
    then have keep: "run_keeping (wc_id wc) (en_db ea) (en_db e2)"
      by (rule run_keeping_trans [OF Suc.prems(6)])
    have "op_of (en_db e) (wc_id wc) (en_step e + 1) = None" using Suc.prems(3) by (simp add: fresh_from_def)
    moreover have "memoized cx wc name (call_step f) e = (r, ea)"
      using ea(1) assms(2) by (simp add: run_step_def)
    moreover have "plain_result r" using plain by simp
    ultimately have "memoized cx wc name (call_step f) e2
        = (replayed cx wc r, e2\<lparr>en_step := en_step e + 1\<rparr>)"
      by (intro memoized_once [OF assms(1) Suc.prems(1) _ _ ea(4) call_step_db _ ea(7) keep Suc.prems(7,8)])
    then have step: "run_step cx wc name f e2 = (replayed cx wc r, e2\<lparr>en_step := en_step e + 1\<rparr>)"
      using assms(2) by (simp add: run_step_def)
    have "run_prog cx wc prog n (map (replayed cx wc) (rs @ [r])) (e2\<lparr>en_step := en_step e + 1\<rparr>)
        = (map (replayed cx wc) qs, e2\<lparr>en_step := en_step e + 1\<rparr>\<lparr>en_step := en_step e1\<rparr>)"
      by (rule Suc.IH [OF ea(6,7) _ _ rest]) (use ea plain spec Suc.prems(6,7) in auto)
    with step stable Some nf show ?thesis by simp
  qed
qed simp

lemma spec_prog_stable:
  assumes "replay_stable cx wc prog"
  shows "spec_prog prog n (map (replayed cx wc) rs @ qs) k w
       = (map (replayed cx wc) rs @ drop (length rs) (fst (spec_prog prog n (rs @ qs) k w)),
          snd (spec_prog prog n (rs @ qs) k w))"
proof (induction n arbitrary: qs k w)
  case (Suc n)
  have stable: "prog (map (replayed cx wc) rs @ qs) = prog (rs @ qs)"
    using assms unfolding replay_stable_def by blast
  then show ?case
    using Suc.IH [of "qs @ [r]" for r] by (cases "prog (rs @ qs)") (auto simp: split_beta Let_def)
qed simp

subsection \<open>Correctness\<close>


definition pay_twice :: "nat program" where
  "pay_twice rs = (if length rs < 2 then Some (''pay'', charge) else None)"


end
