(* ===== verification/Postgres.thy ===== *)
theory Postgres
  imports Store_Manage Store_Comms Store_Steps Store_Insert
begin

text \<open>
  \<open>db/postgres.rs\<close>: the second engine.  Most of its statements are those of \<open>db/sqlite.rs\<close> and share
  their definitions; this theory has the operations whose code or dialect differs: the columns that
  are INTEGER in the schema are bound with \<open>as i32\<close>, a negative LIMIT or OFFSET is an error, and a
  stream offset can run out of its column.  For arguments that fit the columns both engines agree.
\<close>

subsection \<open>Workflow rows\<close>

definition pg_new_ws_row :: "insert_input \<Rightarrow> workflow_status_type \<Rightarrow> int \<Rightarrow> ws_row" where
  "pg_new_ws_row input status updated_at =
     (let s = in_status input in
      \<lparr>ws_uuid = nw_id s, ws_status = status, ws_name = nw_name s,
       ws_authenticated_user = nw_authenticated_user s, ws_assumed_role = nw_assumed_role s,
       ws_authenticated_roles = nw_authenticated_roles s, ws_output = None, ws_error = None,
       ws_executor_id = Some (nw_executor_id s), ws_created_at = nw_created_at_ms s,
       ws_updated_at = updated_at,
       ws_application_version = opt_str (nw_application_version s),
       ws_application_id = nw_application_id s,
       ws_class_name = opt_str (nw_class_name s), ws_config_name = nw_config_name s,
       ws_recovery_attempts = initial_attempts status, ws_queue_name = opt_str (nw_queue_name s),
       ws_timeout_ms = nw_timeout_ms s, ws_deadline_ms = nw_deadline_ms s,
       ws_inputs = nw_input s, ws_started_at = None,
       ws_dedup_id = opt_str (nw_deduplication_id s), ws_priority = as_i32 (nw_priority s),
       ws_partition_key = opt_str (nw_queue_partition_key s), ws_forked_from = None,
       ws_owner_xid = Some (in_owner_xid input), ws_parent_id = opt_str (nw_parent_workflow_id s),
       ws_serialization = nw_serialization s, ws_delay_until = nw_delay_until_ms s,
       ws_was_forked_from = False, ws_rate_limited = False, ws_completed_at = None\<rparr>)"

definition pg_upsert_status :: "insert_input \<Rightarrow> int \<Rightarrow> sysdb \<Rightarrow> dbos_error + sysdb" where
  "pg_upsert_status input now db =
     (let s = in_status input;
          status = unwrap_or (nw_status s) Pending;
          updated_at = unwrap_or (nw_updated_at_ms s) now
      in if wf_exists db (nw_id s)
         then Inr (db\<lparr>workflow_status :=
                update_where (\<lambda>r. ws_uuid r = nw_id s) (conflict_update input status updated_at)
                  (workflow_status db)\<rparr>)
         else if dedup_taken (pg_new_ws_row input status updated_at) (workflow_status db)
         then Inl (queue_deduplicated (nw_id s) (nw_queue_name s) (nw_deduplication_id s))
         else Inr (db\<lparr>workflow_status :=
                workflow_status db @ [pg_new_ws_row input status updated_at]\<rparr>))"

definition pg_record_child_row :: "child_record option \<Rightarrow> sysdb \<Rightarrow> dbos_error + sysdb" where
  "pg_record_child_row c db =
     (case c of
        None \<Rightarrow> Inr db
      | Some ch \<Rightarrow>
          let k = as_i32 (cr_step_id ch) in
          if op_of db (cr_parent ch) k \<noteq> None
          then Inl (error_new ConflictingId
                 (''child workflow '' @ cr_child ch @ '' already registered for parent workflow ''
                  @ cr_parent ch @ '' (operation ID: '' @ show_int (cr_step_id ch)
                  @ ''). Is your workflow deterministic?''))
          else if \<not> wf_exists db (cr_parent ch)
          then Inl (sql_err ''failed to record child workflow'' (violation db ForeignKeyViolation))
          else Inr (db\<lparr>operation_outputs := operation_outputs db @
                 [\<lparr>op_workflow = cr_parent ch, op_function_id = k,
                   op_function_name = cr_step_name ch, op_output = None, op_error = None,
                   op_child = Some (cr_child ch), op_started_at = None, op_completed_at = None,
                   op_serialization = None\<rparr>]\<rparr>))"

definition pg_insert_workflow_status ::
  "insert_input \<Rightarrow> int \<Rightarrow> sysdb \<Rightarrow> insert_result res \<times> sysdb" where
  "pg_insert_workflow_status input now db =
     (let s = in_status input in
      case pg_upsert_status input now db of
        Inl e \<Rightarrow> (Inl e, db)
      | Inr db1 \<Rightarrow>
          (case wf_row db1 (nw_id s) of
             None \<Rightarrow> (Inl (sql_err ''failed to insert workflow status'' (SqlxError RowNotFound [])), db)
           | Some row \<Rightarrow>
               let result = insert_result_of row in
               (case conflict_check s result of
                  Some e \<Rightarrow> (Inl e, db)
                | None \<Rightarrow>
                    (case pg_record_child_row (in_record_child input) db1 of
                       Inl e \<Rightarrow> (Inl e, db)
                     | Inr db2 \<Rightarrow>
                         if exceeds_retries input result
                         then (Inl (dead_letter_queue (nw_id s) (in_max_retries input)),
                               db2\<lparr>workflow_status := park_dead_letter (nw_id s) (workflow_status db2)\<rparr>)
                         else (Inr result, db2)))))"

subsection \<open>Checkpoints\<close>

definition pg_recorded_row :: "record_input \<Rightarrow> op_row" where
  "pg_recorded_row input =
     \<lparr>op_workflow = ri_workflow_id input, op_function_id = as_i32 (ri_step_id input),
      op_function_name = ri_step_name input, op_output = ri_output input,
      op_error = ri_error input, op_child = ri_child input,
      op_started_at = Some (ri_started_at_ms input),
      op_completed_at = Some (ri_completed_at_ms input),
      op_serialization = Some (ri_serialization input)\<rparr>"

definition pg_record_operation_result :: "record_input \<Rightarrow> sysdb \<Rightarrow> unit res \<times> sysdb" where
  "pg_record_operation_result input db =
     (if op_of db (ri_workflow_id input) (as_i32 (ri_step_id input)) \<noteq> None
      then (Inl (workflow_conflict_id (ri_workflow_id input)), db)
      else if \<not> wf_exists db (ri_workflow_id input)
      then (Inl (sql_err ''failed to record operation result'' (violation db ForeignKeyViolation)), db)
      else (Inr (), db\<lparr>operation_outputs := operation_outputs db @ [pg_recorded_row input]\<rparr>))"

definition pg_check_child_workflow :: "string \<Rightarrow> int \<Rightarrow> sysdb \<Rightarrow> string option" where
  "pg_check_child_workflow parent step_id db =
     (case op_of db parent (as_i32 step_id) of None \<Rightarrow> None | Some r \<Rightarrow> op_child r)"

definition pg_check_operation_execution ::
  "string \<Rightarrow> int \<Rightarrow> string \<Rightarrow> sysdb \<Rightarrow> recorded_result option res" where
  "pg_check_operation_execution i step_id step_name db =
     (case wf_row db i of
        None \<Rightarrow> Inl (non_existent_workflow i)
      | Some w \<Rightarrow>
          if ws_status w = Cancelled then Inl (workflow_cancelled i)
          else (case op_of db i (as_i32 step_id) of
                  None \<Rightarrow> Inr None
                | Some r \<Rightarrow>
                    if step_name \<noteq> op_function_name r
                    then Inl (unexpected_step i step_id step_name (op_function_name r))
                    else Inr (Some
                      \<lparr>rr_output = op_output r, rr_error = non_empty_opt (op_error r),
                       rr_serialization = unwrap_or_default (op_serialization r)\<rparr>)))"

subsection \<open>Listing and garbage collection\<close>

text \<open>Postgres refuses a negative LIMIT or OFFSET.\<close>

definition dialect_error :: "sysdb \<Rightarrow> string \<Rightarrow> dbos_error" where
  "dialect_error db ctx = sql_err ctx (violation db OtherKind)"

definition is_negative :: "int option \<Rightarrow> bool" where
  "is_negative k = (case k of None \<Rightarrow> False | Some n \<Rightarrow> n < 0)"

definition pg_page :: "int option \<Rightarrow> int option \<Rightarrow> 'a list \<Rightarrow> 'a list" where
  "pg_page limit offset rows =
     (let rest = drop (nat (unwrap_or offset 0)) rows in
      case limit of None \<Rightarrow> rest | Some l \<Rightarrow> take (nat l) rest)"

definition pg_list_workflows :: "list_input \<Rightarrow> sysdb \<Rightarrow> workflow_status_view list res" where
  "pg_list_workflows input db =
     (if is_negative (li_limit input) \<or> is_negative (li_offset input)
      then Inl (dialect_error db ''failed to execute ListWorkflows query'')
      else Inr (map (\<lambda>r. row_to_status r (li_load_input input) (li_load_output input))
       (pg_page (li_limit input) (li_offset input)
         (sort_key (\<lambda>r. if li_sort_desc input then - ws_created_at r else ws_created_at r)
           (filter (list_matches input) (workflow_status db))))))"

definition pg_get_workflow_status :: "string \<Rightarrow> sysdb \<Rightarrow> workflow_status_view option res" where
  "pg_get_workflow_status i db =
     map_ok (\<lambda>vs. case vs of [] \<Rightarrow> None | v # _ \<Rightarrow> Some v)
       (pg_list_workflows
          (li_default\<lparr>li_workflow_ids := [i], li_load_input := True, li_load_output := True\<rparr>) db)"

text \<open>The two deletes are statements of their own: the first stays when the second fails.\<close>

definition pg_garbage_collect :: "int option \<Rightarrow> int option \<Rightarrow> sysdb \<Rightarrow> int res \<times> sysdb" where
  "pg_garbage_collect cutoff threshold db =
     (let (n1, db1) = (case cutoff of
            None \<Rightarrow> (0, db)
          | Some c \<Rightarrow> (count_where (older_than c) (workflow_status db), delete_cascade (older_than c) db))
      in case threshold of
           None \<Rightarrow> (Inr n1, db1)
         | Some t \<Rightarrow>
             if t < 0 then (Inl (dialect_error db ''failed to garbage collect by threshold''), db1)
             else
               let ids = beyond_threshold t (workflow_status db1);
                   P = (\<lambda>r. ws_uuid r \<in> set ids)
               in (Inr (n1 + count_where P (workflow_status db1)), delete_cascade P db1))"

subsection \<open>Fork\<close>

definition pg_fork_workflow :: "fork_input \<Rightarrow> string \<Rightarrow> int \<Rightarrow> sysdb \<Rightarrow> string res \<times> sysdb" where
  "pg_fork_workflow input new_uuid now db =
     (if fk_start_step input < 0
      then (Inl (error_new WorkflowExecution
              (''startStep must be >= 0, got '' @ show_int (fk_start_step input))), db)
      else
        let forked_id = unwrap_or (fk_forked input) new_uuid;
            queue = unwrap_or (fk_queue_name input) DBOS_INTERNAL_QUEUE_NAME
        in case pg_get_workflow_status (fk_original input) db of
             Inl e \<Rightarrow> (Inl e, db)
           | Inr None \<Rightarrow> (Inl (non_existent_workflow (fk_original input)), db)
           | Inr (Some orig) \<Rightarrow>
               let app_version = unwrap_or (fk_application_version input) (wv_application_version orig)
               in if wf_exists db forked_id
                  then (Inl (sql_err ''failed to insert forked workflow'' (violation db UniqueViolation)), db)
                  else
                    let rows = update_where (\<lambda>r. ws_uuid r = fk_original input)
                          (\<lambda>r. r\<lparr>ws_was_forked_from := True\<rparr>)
                          (workflow_status db @
                             [forked_row orig (fk_original input) forked_id app_version queue now]);
                        ops = (if fk_start_step input > 0
                          then operation_outputs db @
                            copied_steps (fk_original input) forked_id (as_i32 (fk_start_step input))
                              (operation_outputs db)
                          else operation_outputs db)
                    in (Inr forked_id, db\<lparr>workflow_status := rows, operation_outputs := ops\<rparr>))"

subsection \<open>Events and streams\<close>

definition pg_set_event ::
  "string \<Rightarrow> int \<Rightarrow> string \<Rightarrow> string option \<Rightarrow> string \<Rightarrow> sysdb \<Rightarrow> unit res \<times> sysdb" where
  "pg_set_event i function_id key v ser db =
     (case v of
        None \<Rightarrow> (Inl (sql_err ''failed to set event'' (violation db NotNullViolation)), db)
      | Some x \<Rightarrow>
          if \<not> wf_exists db i
          then (Inl (sql_err ''failed to set event'' (violation db ForeignKeyViolation)), db)
          else (Inr (), db\<lparr>
            workflow_events :=
              upsert ev_pk (\<lambda>r. r\<lparr>ev_value := x, ev_serialization := ser\<rparr>)
                \<lparr>ev_workflow = i, ev_key = key, ev_value = x, ev_serialization = ser\<rparr>
                (workflow_events db),
            workflow_events_history :=
              upsert eh_pk (\<lambda>r. r\<lparr>eh_value := x, eh_serialization := ser\<rparr>)
                \<lparr>eh_workflow = i, eh_function_id = as_i32 function_id, eh_key = key, eh_value = x,
                 eh_serialization = ser\<rparr>
                (workflow_events_history db)\<rparr>))"

text \<open>The offset column is an INTEGER: an offset beyond it is an error of the insert.\<close>

definition pg_write_stream ::
  "string \<Rightarrow> string \<Rightarrow> string \<Rightarrow> int \<Rightarrow> string \<Rightarrow> sysdb \<Rightarrow> unit res \<times> sysdb" where
  "pg_write_stream i key v function_id ser db =
     (let offset = next_offset (stream_rows i key db) in
      if list_ex (\<lambda>r. st_value r = DBOS_STREAM_CLOSED_SENTINEL) (stream_rows i key db)
      then (Inl (error_new WorkflowExecution (''stream '' @ [CHR 0x27] @ key @ [CHR 0x27] @ '' is already closed'')), db)
      else if \<not> in_i32 offset
      then (Inl (dialect_error db ''failed to insert stream entry''), db)
      else if \<not> wf_exists db i
      then (Inl (sql_err ''failed to insert stream entry'' (violation db ForeignKeyViolation)), db)
      else (Inr (), db\<lparr>streams := streams db @
             [\<lparr>st_workflow = i, st_key = key, st_value = v,
               st_offset = offset, st_function_id = as_i32 function_id,
               st_serialization = ser\<rparr>]\<rparr>))"

definition pg_read_stream ::
  "string \<Rightarrow> string \<Rightarrow> int \<Rightarrow> sysdb \<Rightarrow> (string \<times> int \<times> string) list \<times> bool" where
  "pg_read_stream i key from_offset db =
     until_closed (sort_key st_offset
       (filter (\<lambda>r. st_offset r \<ge> as_i32 from_offset) (stream_rows i key db)))"

subsection \<open>The engines agree\<close>

lemma pg_insert_eq [cast_simps]:
  assumes "in_i32 (nw_priority (in_status input))"
    and "\<forall>c. in_record_child input = Some c \<longrightarrow> in_i32 (cr_step_id c)"
  shows "pg_insert_workflow_status input now db = insert_workflow_status input now db"
proof -
  have row: "pg_new_ws_row input s u = new_ws_row input s u" for s u
    using assms(1) by (simp add: pg_new_ws_row_def new_ws_row_def cast_simps)
  have upsert: "pg_upsert_status input now db = upsert_status input now db"
    by (simp add: pg_upsert_status_def upsert_status_def row Let_def)
  have child: "pg_record_child_row (in_record_child input) db1 = record_child_row (in_record_child input) db1" for db1
    using assms(2) by (cases "in_record_child input")
      (simp_all add: pg_record_child_row_def record_child_row_def cast_simps Let_def)
  show ?thesis
    unfolding pg_insert_workflow_status_def insert_workflow_status_def upsert child ..
qed

lemma pg_record_eq [cast_simps]:
  "in_i32 (ri_step_id input) \<Longrightarrow> pg_record_operation_result input db = record_operation_result input db"
  by (simp add: pg_record_operation_result_def record_operation_result_def pg_recorded_row_def
      recorded_row_def cast_simps)

lemma pg_check_eq [cast_simps]:
  "in_i32 k \<Longrightarrow> pg_check_operation_execution i k n db = check_operation_execution i k n db"
  "in_i32 k \<Longrightarrow> pg_check_child_workflow i k db = check_child_workflow i k db"
  unfolding pg_check_operation_execution_def check_operation_execution_def
      pg_check_child_workflow_def check_child_workflow_def by (simp_all only: as_i32_id)

lemma pg_page_eq: "\<not> is_negative limit \<Longrightarrow> pg_page limit offset rows = page limit offset rows"
  by (auto simp: pg_page_def page_def is_negative_def Let_def split: option.splits)

lemma pg_list_eq [cast_simps]:
  assumes "\<not> is_negative (li_limit input)" "\<not> is_negative (li_offset input)"
  shows "pg_list_workflows input db = Inr (list_workflows input db)"
  using assms by (simp add: pg_list_workflows_def list_workflows_def pg_page_eq)

lemma pg_get_status_eq [cast_simps]: "pg_get_workflow_status i db = Inr (get_workflow_status i db)"
  by (simp add: pg_get_workflow_status_def get_workflow_status_def cast_simps is_negative_def li_default_def
      del: list.case)

lemma pg_gc_eq [cast_simps]:
  assumes "\<not> is_negative threshold"
  shows "pg_garbage_collect cutoff threshold db
       = (Inr (fst (garbage_collect cutoff threshold db)), snd (garbage_collect cutoff threshold db))"
  using assms by (auto simp: pg_garbage_collect_def garbage_collect_def is_negative_def Let_def
      split: option.splits prod.splits)

lemma pg_fork_eq [cast_simps]:
  "in_i32 (fk_start_step input) \<Longrightarrow> pg_fork_workflow input u now db = fork_workflow input u now db"
  by (simp add: pg_fork_workflow_def fork_workflow_def cast_simps cong: if_cong option.case_cong)

lemma pg_events_eq [cast_simps]:
  "in_i32 k \<Longrightarrow> pg_set_event i k key v ser db = set_event i k key v ser db"
  unfolding pg_set_event_def set_event_def by (simp only: as_i32_id)

lemma pg_stream_eq [cast_simps]:
  "in_i32 k \<Longrightarrow> in_i32 (next_offset (stream_rows i key db)) \<Longrightarrow>
   pg_write_stream i key v k ser db = write_stream i key v k ser db"
  "in_i32 k \<Longrightarrow> pg_read_stream i key k db = read_stream i key k db"
  by (simp_all add: pg_write_stream_def write_stream_def pg_read_stream_def read_stream_def cast_simps Let_def)

text \<open>The arguments that reach an INTEGER column, together.\<close>

definition fits_columns ::
  "insert_input \<Rightarrow> record_input \<Rightarrow> list_input \<Rightarrow> fork_input \<Rightarrow> int option \<Rightarrow> int \<Rightarrow> bool" where
  "fits_columns ins rec lst frk threshold k \<longleftrightarrow>
     in_i32 (nw_priority (in_status ins))
     \<and> (case in_record_child ins of None \<Rightarrow> True | Some c \<Rightarrow> in_i32 (cr_step_id c))
     \<and> in_i32 (ri_step_id rec) \<and> in_i32 (fk_start_step frk) \<and> in_i32 k
     \<and> \<not> is_negative (li_limit lst) \<and> \<not> is_negative (li_offset lst) \<and> \<not> is_negative threshold"


definition sample_record :: record_input where
  "sample_record =
     \<lparr>ri_workflow_id = ''w1'', ri_step_id = 1, ri_step_name = ''charge'', ri_output = None,
      ri_error = None, ri_child = None, ri_started_at_ms = 1, ri_completed_at_ms = 2,
      ri_serialization = ''DBOS_JSON''\<rparr>"


text \<open>
  Outside of the columns they differ.  A priority is a \<open>u32\<close>: from \<open>2^31\<close> on, the lowest priority on
  SQLite becomes the highest on Postgres.
\<close>

lemma large_priority_wraps:
  assumes "2147483648 \<le> nw_priority (in_status input)" "nw_priority (in_status input) < 4294967296"
  shows "ws_priority (new_ws_row input s u) = nw_priority (in_status input)"
    and "ws_priority (pg_new_ws_row input s u) = nw_priority (in_status input) - 4294967296"
proof -
  have "as_i32 p = p - 4294967296" if "2147483648 \<le> p" "p < 4294967296" for p :: int
  proof -
    have "as_i32 p = (p + 2147483648) mod 4294967296 - 2147483648"
      by (simp add: as_i32_def signed_take_bit_eq_take_bit_shift take_bit_eq_mod)
    moreover have "(p + 2147483648) mod 4294967296 = p - 2147483648"
      using that mod_add_self2 [of "p - 2147483648" 4294967296] by (simp add: add.commute)
    ultimately show ?thesis by simp
  qed
  with assms show "ws_priority (pg_new_ws_row input s u) = nw_priority (in_status input) - 4294967296"
    by (simp add: pg_new_ws_row_def Let_def)
  show "ws_priority (new_ws_row input s u) = nw_priority (in_status input)"
    by (simp add: new_ws_row_def Let_def)
qed

subsection \<open>Operations of two statements\<close>

text \<open>
  At READ COMMITTED another connection can act between the statements of an operation.  Consuming a
  message selects the oldest one and then updates it by its uuid; writing to a stream checks for the
  sentinel and then inserts.
\<close>

definition pg_consume_select :: "string \<Rightarrow> string \<Rightarrow> sysdb \<Rightarrow> string option" where
  "pg_consume_select dest topic db =
     (case sort_key nt_created_at (filter (waiting dest topic) (notifications db)) of
        [] \<Rightarrow> None | r # _ \<Rightarrow> Some (nt_uuid r))"

definition pg_consume_update :: "string \<Rightarrow> sysdb \<Rightarrow> (string option \<times> string) option \<times> sysdb" where
  "pg_consume_update uuid db =
     (case fetch nt_uuid uuid (notifications db) of
        None \<Rightarrow> (None, db)
      | Some r \<Rightarrow>
          (Some (Some (nt_message r), nt_serialization r),
           db\<lparr>notifications :=
             update_where (\<lambda>x. nt_uuid x = uuid) (\<lambda>x. x\<lparr>nt_consumed := True\<rparr>) (notifications db)\<rparr>))"

definition pg_stream_closed :: "string \<Rightarrow> string \<Rightarrow> sysdb \<Rightarrow> bool" where
  "pg_stream_closed i key db \<longleftrightarrow>
     list_ex (\<lambda>r. st_value r = DBOS_STREAM_CLOSED_SENTINEL) (stream_rows i key db)"

definition pg_stream_insert ::
  "string \<Rightarrow> string \<Rightarrow> string \<Rightarrow> int \<Rightarrow> string \<Rightarrow> sysdb \<Rightarrow> unit res \<times> sysdb" where
  "pg_stream_insert i key v function_id ser db =
     (let offset = next_offset (stream_rows i key db) in
      if \<not> in_i32 offset
      then (Inl (dialect_error db ''failed to insert stream entry''), db)
      else if \<not> wf_exists db i
      then (Inl (sql_err ''failed to insert stream entry'' (violation db ForeignKeyViolation)), db)
      else (Inr (), db\<lparr>streams := streams db @
             [\<lparr>st_workflow = i, st_key = key, st_value = v,
               st_offset = offset, st_function_id = as_i32 function_id,
               st_serialization = ser\<rparr>]\<rparr>))"

lemma pg_consume_uninterrupted:
  assumes "distinct (map nt_uuid (notifications db))"
  shows "consume_oldest_notification dest topic db
       = (case pg_consume_select dest topic db of None \<Rightarrow> (None, db) | Some uuid \<Rightarrow> pg_consume_update uuid db)"
proof (cases "sort_key nt_created_at (filter (waiting dest topic) (notifications db))")
  case (Cons r rs)
  have "r \<in> set (sort_key nt_created_at (filter (waiting dest topic) (notifications db)))"
    by (simp add: Cons)
  then have "fetch nt_uuid (nt_uuid r) (notifications db) = Some r"
    using assms by (simp add: fetch_Some_iff_distinct)
  with Cons show ?thesis
    by (simp add: consume_oldest_notification_def pg_consume_select_def pg_consume_update_def)
qed (simp add: consume_oldest_notification_def pg_consume_select_def)

lemma pg_write_stream_two:
  "\<not> pg_stream_closed i key db \<Longrightarrow> pg_write_stream i key v k ser db = pg_stream_insert i key v k ser db"
  by (simp add: pg_write_stream_def pg_stream_closed_def pg_stream_insert_def)

text \<open>Two consumers that select before either updates are both given the same message: the UPDATE
  does not ask again whether the message is unconsumed.  Without such an overlap the statements are
  the atomic consume.\<close>

lemma pg_message_delivered_twice:
  assumes "distinct (map nt_uuid (notifications db))" "pg_consume_select dest topic db = Some uuid"
    and "pg_consume_update uuid db = (m1, db1)" "pg_consume_update uuid db1 = (m2, db2)"
  shows "consume_oldest_notification dest topic db = (m1, db1) \<and> m1 \<noteq> None \<and> m2 = m1 \<and> db2 = db1"
proof -
  from assms(2) obtain r rs where "sort_key nt_created_at (filter (waiting dest topic) (notifications db)) = r # rs"
    and u: "uuid = nt_uuid r"
    by (auto simp: pg_consume_select_def split: list.splits)
  then have "r \<in> set (sort_key nt_created_at (filter (waiting dest topic) (notifications db)))" by simp
  then have r: "fetch nt_uuid uuid (notifications db) = Some r"
    using assms(1) u by (simp add: fetch_Some_iff_distinct)
  then have one: "m1 = Some (Some (nt_message r), nt_serialization r)"
    "db1 = db\<lparr>notifications := update_where (\<lambda>x. nt_uuid x = uuid) (\<lambda>x. x\<lparr>nt_consumed := True\<rparr>) (notifications db)\<rparr>"
    using assms(3) by (simp_all add: pg_consume_update_def)
  then have two: "m2 = m1" "db2 = db1"
    using assms(4) r by (simp_all add: pg_consume_update_def fetch_update_where u update_where_again)
  show ?thesis
    using pg_consume_uninterrupted [OF assms(1), of dest topic] assms(2,3) one two by simp
qed

text \<open>A write that passed the check before the stream was closed lands behind the sentinel, where no
  reader sees it, and reports success.\<close>

lemma until_closed_append:
  "list_ex (\<lambda>r. st_value r = DBOS_STREAM_CLOSED_SENTINEL) rows \<Longrightarrow> until_closed (rows @ later) = until_closed rows"
  by (induction rows) auto

lemma pg_stream_insert_rows:
  assumes "pg_stream_insert i key v k ser db = (Inr (), db')" "contiguous i key db"
  shows "\<exists>r. stream_rows i key db' = stream_rows i key db @ [r] \<and> st_value r = v \<and> contiguous i key db'"
proof -
  let ?r = "\<lparr>st_workflow = i, st_key = key, st_value = v, st_offset = next_offset (stream_rows i key db),
      st_function_id = as_i32 k, st_serialization = ser\<rparr>"
  have "stream_rows i key db' = stream_rows i key db @ [?r]"
    using assms(1) by (auto simp: pg_stream_insert_def stream_rows_def Let_def split: if_splits)
  then show ?thesis
    using assms(2) contiguous_next [OF assms(2)]
    by (intro exI [of _ ?r]) (simp add: contiguous_def offsets_from_snoc)
qed

lemma write_behind_sentinel:
  assumes "pg_stream_insert i key DBOS_STREAM_CLOSED_SENTINEL k ser db = (Inr (), db1)"
    and "contiguous i key db" "pg_stream_insert i key v k' ser' db1 = (Inr (), db2)"
  shows "pg_read_stream i key 0 db2 = pg_read_stream i key 0 db1"
proof -
  obtain r1 where r1: "stream_rows i key db1 = stream_rows i key db @ [r1]"
    "st_value r1 = DBOS_STREAM_CLOSED_SENTINEL" "contiguous i key db1"
    using pg_stream_insert_rows [OF assms(1,2)] by blast
  obtain r2 where r2: "stream_rows i key db2 = stream_rows i key db1 @ [r2]" "contiguous i key db2"
    using pg_stream_insert_rows [OF assms(3) r1(3)] by blast
  have read: "pg_read_stream i key 0 d = until_closed (stream_rows i key d)" if "contiguous i key d" for d
  proof -
    have o': "offsets_from 0 (stream_rows i key d)" using that by (simp add: contiguous_def)
    then have "\<forall>r\<in>set (stream_rows i key d). 0 \<le> st_offset r" using offsets_from_bounds by blast
    with offsets_from_sorted [OF o'] show ?thesis
      by (simp add: pg_read_stream_def as_i32_id in_i32_def sorted_sort_id sort_key_id_if_sorted filter_id_conv)
  qed
  show ?thesis
    unfolding read [OF r1(3)] read [OF r2(2)] r2(1)
    by (rule until_closed_append) (simp add: r1)
qed

end
