(* ===== verification/Postgres_Dequeue.thy ===== *)
theory Postgres_Dequeue
  imports Postgres
begin

text \<open>
  \<open>dequeue_workflows\<close> of \<open>db/postgres.rs\<close> under concurrency.  The transaction of one executor runs at
  READ COMMITTED (the default, nothing sets another level): each statement reads the rows committed
  when it starts, an UPDATE waits for a row another transaction has changed, and sees it as committed.
  So the statements of several executors interleave; every statement is one step of its session.
\<close>

subsection \<open>One transaction\<close>

text \<open>The statement a transaction executes next; \<open>Claiming\<close> has the candidate ids not yet tried.\<close>

datatype phase = Rate | Limits int | Candidates int int | Claiming int "string list" | Ended

record tx =
  tx_phase :: phase
  tx_out :: "dequeued_workflow list"
  tx_writes :: "ws_row list"

definition tx_begin :: tx where
  "tx_begin = \<lparr>tx_phase = Rate, tx_out = [], tx_writes = []\<rparr>"

definition rate_stmt :: "dequeue_input \<Rightarrow> int \<Rightarrow> ws_row list \<Rightarrow> tx \<Rightarrow> tx" where
  "rate_stmt input now rows t =
     (let recent = recent_starts input now rows in
      t\<lparr>tx_phase := (if rate_reached input recent 0 then Ended else Limits recent)\<rparr>)"

definition limits_stmt :: "dequeue_input \<Rightarrow> int \<Rightarrow> ws_row list \<Rightarrow> tx \<Rightarrow> tx" where
  "limits_stmt input recent rows t =
     (let max_tasks = task_budget input rows in
      t\<lparr>tx_phase := (if max_tasks \<le> 0 then Ended else Candidates recent max_tasks)\<rparr>)"

definition candidates_stmt :: "dequeue_input \<Rightarrow> int \<Rightarrow> int \<Rightarrow> ws_row list \<Rightarrow> tx \<Rightarrow> tx" where
  "candidates_stmt input recent max_tasks rows t =
     t\<lparr>tx_phase := Claiming recent (map ws_uuid (take (nat max_tasks) (candidates input rows)))\<rparr>"

definition claim_stmt ::
  "dequeue_input \<Rightarrow> int \<Rightarrow> int \<Rightarrow> string \<Rightarrow> string list \<Rightarrow> ws_row list \<Rightarrow> tx \<Rightarrow> tx" where
  "claim_stmt input now recent i ids rows t =
     (if rate_reached input recent (length (tx_out t)) then t\<lparr>tx_phase := Claiming recent []\<rparr>
      else case fetch (\<lambda>r. (ws_uuid r, ws_status r)) (i, Enqueued) rows of
             None \<Rightarrow> t\<lparr>tx_phase := Claiming recent ids\<rparr>
           | Some r \<Rightarrow>
               t\<lparr>tx_phase := Claiming recent ids, tx_out := tx_out t @ [dequeued_of r],
                 tx_writes := tx_writes t @ [claim input now r]\<rparr>)"

text \<open>The commit publishes the changed rows; with nothing claimed the transaction is dropped, which
  changes nothing either.\<close>

definition overlay :: "ws_row list \<Rightarrow> ws_row list \<Rightarrow> ws_row list" where
  "overlay ws rows = map (\<lambda>r. unwrap_or (fetch ws_uuid (ws_uuid r) ws) r) rows"

fun tx_step :: "dequeue_input \<Rightarrow> int \<Rightarrow> ws_row list \<times> tx \<Rightarrow> ws_row list \<times> tx" where
  "tx_step input now (rows, t) =
     (case tx_phase t of
        Rate \<Rightarrow> (rows, rate_stmt input now rows t)
      | Limits recent \<Rightarrow> (rows, limits_stmt input recent rows t)
      | Candidates recent max_tasks \<Rightarrow> (rows, candidates_stmt input recent max_tasks rows t)
      | Claiming recent [] \<Rightarrow> (overlay (tx_writes t) rows, t\<lparr>tx_phase := Ended, tx_writes := []\<rparr>)
      | Claiming recent (i # ids) \<Rightarrow> (rows, claim_stmt input now recent i ids rows t)
      | Ended \<Rightarrow> (rows, t))"

subsection \<open>Many executors\<close>

type_synonym session = "dequeue_input \<times> tx"

record pg_state =
  pg_rows :: "ws_row list"
  pg_sessions :: "session list"

text \<open>The row a transaction would have to wait for.\<close>

definition next_row :: "tx \<Rightarrow> string option" where
  "next_row t = (case tx_phase t of Claiming _ (i # _) \<Rightarrow> Some i | _ \<Rightarrow> None)"

definition locks :: "tx \<Rightarrow> string set" where
  "locks t = ws_uuid ` set (tx_writes t)"

definition waits :: "pg_state \<Rightarrow> nat \<Rightarrow> bool" where
  "waits st e \<longleftrightarrow>
     (case next_row (snd (pg_sessions st ! e)) of
        None \<Rightarrow> False
      | Some i \<Rightarrow> list_ex (\<lambda>d. d \<noteq> e \<and> i \<in> locks (snd (pg_sessions st ! d))) [0..<length (pg_sessions st)])"

definition session_step :: "nat \<Rightarrow> int \<Rightarrow> pg_state \<Rightarrow> pg_state" where
  "session_step e now st =
     (if e < length (pg_sessions st) \<and> \<not> waits st e
      then let (input, t) = pg_sessions st ! e;
               (rows, t') = tx_step input now (pg_rows st, t)
           in \<lparr>pg_rows = rows, pg_sessions = (pg_sessions st)[e := (input, t')]\<rparr>
      else st)"

text \<open>
  The rest of the system meanwhile commits changes of its own: it inserts, finishes and cancels
  workflows, but respects the row locks and does not put a workflow back that was dispatched here.
\<close>

definition enqueued :: "ws_row list \<Rightarrow> string \<Rightarrow> bool" where
  "enqueued rows i \<longleftrightarrow> fetch (\<lambda>r. (ws_uuid r, ws_status r)) (i, Enqueued) rows \<noteq> None"

definition dispatched :: "tx \<Rightarrow> string list" where
  "dispatched t = map dw_id (tx_out t)"

definition env_ok :: "session list \<Rightarrow> ws_row list \<Rightarrow> ws_row list \<Rightarrow> bool" where
  "env_ok ss rows rows' \<longleftrightarrow>
     distinct (map ws_uuid rows')
     \<and> (\<forall>s\<in>set ss. \<forall>i\<in>set (dispatched (snd s)).
          (i \<in> locks (snd s) \<longrightarrow> fetch ws_uuid i rows' = fetch ws_uuid i rows)
          \<and> (enqueued rows' i \<longrightarrow> enqueued rows i))"

inductive pg_step :: "pg_state \<Rightarrow> pg_state \<Rightarrow> bool" where
  session: "pg_step st (session_step e now st)"
| environment: "env_ok (pg_sessions st) (pg_rows st) rows' \<Longrightarrow> pg_step st (st\<lparr>pg_rows := rows'\<rparr>)"

inductive_cases pg_stepE: "pg_step st st'"

definition pg_start :: "ws_row list \<Rightarrow> dequeue_input list \<Rightarrow> pg_state" where
  "pg_start rows inputs = \<lparr>pg_rows = rows, pg_sessions = map (\<lambda>i. (i, tx_begin)) inputs\<rparr>"

definition pg_run :: "(nat \<times> int) list \<Rightarrow> pg_state \<Rightarrow> pg_state" where
  "pg_run sched st = fold (\<lambda>(e, now). session_step e now) sched st"

lemma pg_run_reachable: "pg_step\<^sup>*\<^sup>* st (pg_run sched st)"
proof (induction sched arbitrary: st)
  case (Cons x sched)
  obtain e now where x: "x = (e, now)" by fastforce
  have "pg_step st (session_step e now st)" by (rule pg_step.session)
  with Cons.IH [of "session_step e now st"] show ?case
    by (simp add: pg_run_def x converse_rtranclp_into_rtranclp)
qed (simp add: pg_run_def)

subsection \<open>A transaction on its own is the atomic dequeue\<close>

definition alone :: "dequeue_input \<Rightarrow> int list \<Rightarrow> ws_row list \<times> tx \<Rightarrow> ws_row list \<times> tx" where
  "alone input ticks s = fold (tx_step input) ticks s"

lemma alone_simps [simp]:
  "alone input [] s = s"
  "alone input (t # ts) s = alone input ts (tx_step input t s)"
  by (simp_all add: alone_def)

lemma alone_ended: "tx_phase t = Ended \<Longrightarrow> alone input ticks (rows, t) = (rows, t)"
  by (induction ticks) auto

lemma map_ws_uuid_overlay: "map ws_uuid (overlay ws rows) = map ws_uuid rows"
  by (auto simp: overlay_def unwrap_or_def split: option.splits dest: fetch_SomeD)

lemma fetch_overlay:
  "fetch ws_uuid i (overlay ws rows) = (case fetch ws_uuid i rows of None \<Rightarrow> None
     | Some r \<Rightarrow> Some (unwrap_or (fetch ws_uuid i ws) r))"
proof -
  have "ws_uuid (unwrap_or (fetch ws_uuid (ws_uuid r) ws) r) = ws_uuid r" for r
    by (auto simp: unwrap_or_def split: option.splits dest: fetch_SomeD)
  then show ?thesis by (induction rows) (auto simp: overlay_def fetch_Cons)
qed

lemma overlay_Nil [simp]: "overlay [] rows = rows"
  by (simp add: overlay_def)

lemma enqueued_iff:
  assumes "distinct (map ws_uuid rows)"
  shows "fetch (\<lambda>r. (ws_uuid r, ws_status r)) (i, Enqueued) rows
       = (case fetch ws_uuid i rows of Some r \<Rightarrow> if ws_status r = Enqueued then Some r else None | None \<Rightarrow> None)"
  using assms
proof (induction rows)
  case (Cons a rows)
  then have "fetch ws_uuid (ws_uuid a) rows = None" by (auto simp: fetch_None_iff) (metis imageI)
  with Cons show ?case by (auto simp: fetch_Cons split: option.splits)
qed simp

lemma overlay_claim:
  assumes "i \<notin> ws_uuid ` set ws" "fetch (\<lambda>r. (ws_uuid r, ws_status r)) (i, Enqueued) rows = Some r"
    and "distinct (map ws_uuid rows)"
  shows "overlay (ws @ [claim input now r]) rows
       = update_where (\<lambda>r. ws_uuid r = i \<and> ws_status r = Enqueued) (claim input now) (overlay ws rows)"
proof -
  have r: "fetch ws_uuid i rows = Some r" "ws_status r = Enqueued" "ws_uuid r = i"
    using assms(2) enqueued_iff [OF assms(3)] by (auto split: option.splits if_splits dest: fetch_SomeD)
  have no: "fetch ws_uuid i ws = None" using assms(1) by (auto simp: fetch_None_iff)
  have "unwrap_or (fetch ws_uuid (ws_uuid x) (ws @ [claim input now r])) x
      = (if ws_uuid (unwrap_or (fetch ws_uuid (ws_uuid x) ws) x) = i
            \<and> ws_status (unwrap_or (fetch ws_uuid (ws_uuid x) ws) x) = Enqueued
         then claim input now (unwrap_or (fetch ws_uuid (ws_uuid x) ws) x)
         else unwrap_or (fetch ws_uuid (ws_uuid x) ws) x)" if "x \<in> set rows" for x
  proof (cases "ws_uuid x = i")
    case True
    with that r(1) assms(3) have "x = r" by (auto simp: fetch_Some_iff_distinct distinct_map dest: inj_onD)
    with True no r(2,3) show ?thesis by (simp add: fetch_append fetch_Cons)
  next
    case False
    with r(3) show ?thesis
      by (auto simp: fetch_append fetch_Cons unwrap_or_def split: option.splits dest: fetch_SomeD)
  qed
  then show ?thesis by (simp add: overlay_def update_where_def)
qed

lemma overlay_keeps_other:
  assumes "i \<notin> ws_uuid ` set ws" "distinct (map ws_uuid rows)"
  shows "fetch (\<lambda>r. (ws_uuid r, ws_status r)) (i, Enqueued) (overlay ws rows)
       = fetch (\<lambda>r. (ws_uuid r, ws_status r)) (i, Enqueued) rows"
proof -
  have "fetch ws_uuid i ws = None" using assms(1) by (auto simp: fetch_None_iff)
  then show ?thesis
    using assms(2) by (simp add: enqueued_iff map_ws_uuid_overlay fetch_overlay split: option.splits)
qed

lemma claim_loop_nothing:
  "claim_loop input recent clk ids out rows = (out', rows') \<Longrightarrow> length out \<le> length out'
   \<and> (length out' = length out \<longrightarrow> rows' = rows)"
proof (induction ids arbitrary: clk out rows)
  case (Cons i ids)
  show ?case
  proof (cases "rate_reached input recent (length out)")
    case False
    show ?thesis
    proof (cases "fetch (\<lambda>r. (ws_uuid r, ws_status r)) (i, Enqueued) rows")
      case None
      with Cons.IH Cons.prems False show ?thesis by simp
    next
      case (Some r)
      with Cons.IH [of _ "out @ [dequeued_of r]"] Cons.prems False show ?thesis by fastforce
    qed
  qed (use Cons.prems in simp)
qed simp

lemma alone_claims:
  assumes "tx_phase t = Claiming recent ids" "distinct (map ws_uuid rows)" "distinct ids"
    and "set ids \<inter> locks t = {}" "length ids < length ticks" "\<forall>j<length ids. ticks ! j = clk j"
    and "claim_loop input recent clk ids (tx_out t) (overlay (tx_writes t) rows) = (out, rows')"
  shows "alone input ticks (rows, t) = (rows', \<lparr>tx_phase = Ended, tx_out = out, tx_writes = []\<rparr>)"
  using assms
proof (induction ids arbitrary: t clk ticks)
  case Nil
  then obtain now more where "ticks = now # more" by (cases ticks) auto
  with Nil show ?case by (simp add: alone_ended)
next
  case (Cons i ids)
  then obtain now more where ticks: "ticks = now # more" "now = clk 0" by (cases ticks) auto
  from Cons.prems(5) obtain now' more' where more: "more = now' # more'" using ticks by (cases more) auto
  have later: "length ids < length more" "\<forall>j<length ids. more ! j = clk (Suc j)"
    using Cons.prems(5,6) ticks by auto
  have i: "i \<notin> ws_uuid ` set (tx_writes t)" using Cons.prems(4) by (simp add: locks_def)
  note same = overlay_keeps_other [OF i Cons.prems(2)]
  show ?case
  proof (cases "rate_reached input recent (length (tx_out t))")
    case True
    with Cons.prems(1,7) show ?thesis
      by (simp add: ticks more claim_stmt_def alone_ended)
  next
    case False
    show ?thesis
    proof (cases "fetch (\<lambda>r. (ws_uuid r, ws_status r)) (i, Enqueued) rows")
      case None
      let ?t = "t\<lparr>tx_phase := Claiming recent ids\<rparr>"
      have "alone input more (rows, ?t) = (rows', \<lparr>tx_phase = Ended, tx_out = out, tx_writes = []\<rparr>)"
        by (rule Cons.IH [where clk = "\<lambda>n. clk (Suc n)"])
          (use Cons.prems False None same later in \<open>auto simp: locks_def\<close>)
      with Cons.prems(1) False None show ?thesis by (simp add: ticks claim_stmt_def)
    next
      case (Some r)
      let ?t = "t\<lparr>tx_phase := Claiming recent ids, tx_out := tx_out t @ [dequeued_of r],
          tx_writes := tx_writes t @ [claim input now r]\<rparr>"
      have "ws_uuid r = i" using Some by (auto dest: fetch_SomeD)
      then have "alone input more (rows, ?t) = (rows', \<lparr>tx_phase = Ended, tx_out = out, tx_writes = []\<rparr>)"
        by (intro Cons.IH [where clk = "\<lambda>n. clk (Suc n)"])
          (use Cons.prems False Some same later ticks(2) overlay_claim [OF i Some Cons.prems(2)]
            in \<open>auto simp: locks_def\<close>)
      with Cons.prems(1) False Some show ?thesis by (simp add: ticks claim_stmt_def)
    qed
  qed
qed

text \<open>C26. The statement-wise dequeue of Postgres implements the atomic one: a transaction that no other
  one interleaves with returns the same workflows and commits the same rows as \<open>dequeue_workflows\<close>,
  within one statement per candidate and four more, and then ends.\<close>

theorem pg_dequeue_refines_atomic:
  assumes "distinct (map ws_uuid (workflow_status db))"
    and "dequeue_workflows input clk db = (out, db')"
    and "length (candidates input (workflow_status db)) + 3 < length ticks"
    and "ticks ! 0 = clk 0" "\<forall>j. j + 3 < length ticks \<longrightarrow> ticks ! (j + 3) = clk (Suc j)"
  shows "\<exists>t. alone input ticks (workflow_status db, tx_begin) = (workflow_status db', t)
       \<and> tx_phase t = Ended \<and> tx_out t = out"
proof -
  let ?rows = "workflow_status db"
  define recent where "recent = recent_starts input (clk 0) ?rows"
  obtain a b c more where ticks: "ticks = a # b # c # more"
    using assms(3) by (cases ticks; cases "tl ticks"; cases "tl (tl ticks)") auto
  have a: "a = clk 0" using assms(4) ticks by simp
  have more: "length (candidates input ?rows) < length more" "\<forall>j<length more. more ! j = clk (Suc j)"
    using assms(3,5) unfolding ticks by (auto simp: eval_nat_numeral)
  consider "rate_reached input recent 0" | "\<not> rate_reached input recent 0" "task_budget input ?rows \<le> 0"
    | "\<not> rate_reached input recent 0" "\<not> task_budget input ?rows \<le> 0" by blast
  then show ?thesis
  proof cases
    case 1
    with assms(2) show ?thesis
      by (simp add: ticks a tx_begin_def rate_stmt_def recent_def alone_ended dequeue_workflows_def Let_def)
  next
    case 2
    with assms(2) show ?thesis
      by (simp add: ticks a tx_begin_def rate_stmt_def limits_stmt_def recent_def alone_ended
          dequeue_workflows_def Let_def)
  next
    case 3
    define ids where "ids = map ws_uuid (take (nat (task_budget input ?rows)) (candidates input ?rows))"
    let ?t = "\<lparr>tx_phase = Claiming recent ids, tx_out = [], tx_writes = []\<rparr>"
    obtain out' rows' where loop: "claim_loop input recent (\<lambda>n. clk (Suc n)) ids [] ?rows = (out', rows')"
      by fastforce
    have "distinct ids"
      using candidates_props(1) [OF assms(1)] by (simp add: ids_def take_map [symmetric] distinct_take)
    then have run: "alone input more (?rows, ?t) = (rows', \<lparr>tx_phase = Ended, tx_out = out', tx_writes = []\<rparr>)"
      by (intro alone_claims [where clk = "\<lambda>n. clk (Suc n)"])
        (use assms(1) loop more in \<open>auto simp: ids_def locks_def\<close>)
    have "out' = out" "rows' = workflow_status db'"
      using assms(2) 3 loop claim_loop_nothing [OF loop]
      by (auto simp: dequeue_workflows_def Let_def recent_def [symmetric] ids_def [symmetric] split: if_splits)
    with run 3 show ?thesis
      by (simp add: ticks a tx_begin_def rate_stmt_def limits_stmt_def candidates_stmt_def
          recent_def [symmetric] ids_def [symmetric] Let_def)
  qed
qed

definition two_slots :: dequeue_input where
  "two_slots =
     \<lparr>dq_queue_name = ''q'', dq_global_concurrency = Some 2, dq_worker_concurrency = Some 2,
      dq_rate_limit = None, dq_max_tasks = 100, dq_local_running = 0,
      dq_application_version = ''v1'', dq_executor_id = ''e1''\<rparr>"

definition four_waiting :: "ws_row list" where
  "four_waiting = map (\<lambda>i. sample_row i Enqueued (Some ''q'')) [''a'', ''b'', ''c'', ''d'']"

subsection \<open>No workflow goes to two executors\<close>

definition worker_cap :: "dequeue_input \<Rightarrow> int" where
  "worker_cap input =
     (case dq_worker_concurrency input of
        None \<Rightarrow> max (dq_max_tasks input) 0
      | Some wc \<Rightarrow> max (wc - dq_local_running input) 0)"

definition planned :: "tx \<Rightarrow> int" where
  "planned t = (case tx_phase t of Candidates _ n \<Rightarrow> n | Claiming _ ids \<Rightarrow> int (length ids) | _ \<Rightarrow> 0)"

definition untried :: "tx \<Rightarrow> string list" where
  "untried t = (case tx_phase t of Claiming _ ids \<Rightarrow> ids | _ \<Rightarrow> [])"

definition started :: "tx \<Rightarrow> bool" where
  "started t \<longleftrightarrow> (case tx_phase t of Claiming _ _ \<Rightarrow> True | Ended \<Rightarrow> True | _ \<Rightarrow> False)"

definition tx_ok :: "dequeue_input \<Rightarrow> ws_row list \<Rightarrow> tx \<Rightarrow> bool" where
  "tx_ok input rows t \<longleftrightarrow>
     distinct (dispatched t @ untried t)
     \<and> int (length (dispatched t)) + planned t \<le> worker_cap input \<and> 0 \<le> planned t
     \<and> (\<not> started t \<longrightarrow> tx_out t = [])
     \<and> (\<forall>w\<in>set (tx_writes t). ws_status w = Pending)
     \<and> map ws_uuid (tx_writes t) = (if tx_phase t = Ended then [] else dispatched t)
     \<and> (tx_phase t = Ended \<longrightarrow> (\<forall>i\<in>set (dispatched t). \<not> enqueued rows i))"

lemma budget_capped: "task_budget input rows \<le> worker_cap input"
  by (auto simp: task_budget_def worker_cap_def Let_def split: option.splits)

lemma enqueued_overlay:
  assumes "distinct (map ws_uuid rows)" "\<forall>w\<in>set ws. ws_status w = Pending"
  shows "enqueued (overlay ws rows) i \<longleftrightarrow> i \<notin> ws_uuid ` set ws \<and> enqueued rows i"
proof (cases "i \<in> ws_uuid ` set ws")
  case True
  then obtain w where w: "fetch ws_uuid i ws = Some w" using fetch_not_None_iff [of ws_uuid i ws] by auto
  then have "ws_status w = Pending" using assms(2) by (auto dest: fetch_SomeD)
  with True w assms(1) show ?thesis
    by (auto simp: enqueued_def enqueued_iff map_ws_uuid_overlay fetch_overlay split: option.splits)
next
  case False
  with overlay_keeps_other [OF False assms(1)] show ?thesis by (simp add: enqueued_def)
qed

lemma tx_step_ok:
  assumes "tx_ok input rows t" "distinct (map ws_uuid rows)" "tx_step input now (rows, t) = (rows', t')"
  shows "tx_ok input rows' t'" and "distinct (map ws_uuid rows')"
    and "enqueued rows' i \<Longrightarrow> enqueued rows i"
    and "i \<in> set (dispatched t') \<Longrightarrow> i \<in> set (dispatched t) \<or> next_row t = Some i \<and> enqueued rows i"
proof -
  have "tx_ok input rows' t' \<and> distinct (map ws_uuid rows') \<and> (\<forall>i. enqueued rows' i \<longrightarrow> enqueued rows i)
      \<and> (\<forall>i\<in>set (dispatched t'). i \<in> set (dispatched t) \<or> next_row t = Some i \<and> enqueued rows i)"
  proof (cases "tx_phase t")
    case Rate
    with assms show ?thesis
      by (auto simp: rate_stmt_def tx_ok_def planned_def untried_def started_def dispatched_def Let_def)
  next
    case (Limits recent)
    with assms budget_capped [of input rows] show ?thesis
      by (auto simp: limits_stmt_def tx_ok_def planned_def untried_def started_def dispatched_def Let_def)
  next
    case (Candidates recent n)
    have "distinct (map ws_uuid (take (nat n) (candidates input rows)))"
      using candidates_props(1) [OF assms(2)] by (simp add: take_map [symmetric] distinct_take)
    with Candidates assms show ?thesis
      by (auto simp: candidates_stmt_def tx_ok_def planned_def untried_def started_def dispatched_def)
  next
    case Ended
    with assms show ?thesis by auto
  next
    case (Claiming recent ids)
    show ?thesis
    proof (cases ids)
      case Nil
      with Claiming assms show ?thesis
        by (auto simp: tx_ok_def planned_def untried_def started_def dispatched_def map_ws_uuid_overlay
            enqueued_overlay)
          (metis (no_types, opaque_lifting) image_eqI list.set_map)+
    next
      case (Cons j js)
      show ?thesis
      proof (cases "rate_reached input recent (length (tx_out t))
          \<or> fetch (\<lambda>r. (ws_uuid r, ws_status r)) (j, Enqueued) rows = None")
        case True
        with Claiming Cons assms show ?thesis
          by (auto simp: claim_stmt_def tx_ok_def planned_def untried_def started_def dispatched_def
              disjoint_iff split: if_splits)
      next
        case False
        then obtain r where r: "fetch (\<lambda>r. (ws_uuid r, ws_status r)) (j, Enqueued) rows = Some r" by auto
        then have "dw_id (dequeued_of r) = j" "ws_uuid r = j" by (auto simp: dequeued_of_def dest: fetch_SomeD)
        with Claiming Cons assms r False show ?thesis
          by (auto simp: claim_stmt_def tx_ok_def planned_def untried_def started_def dispatched_def
              next_row_def enqueued_def disjoint_iff)
      qed
    qed
  qed
  then show "tx_ok input rows' t'" and "distinct (map ws_uuid rows')"
    and "enqueued rows' i \<Longrightarrow> enqueued rows i"
    and "i \<in> set (dispatched t') \<Longrightarrow> i \<in> set (dispatched t) \<or> next_row t = Some i \<and> enqueued rows i"
    by auto
qed

definition pg_inv :: "pg_state \<Rightarrow> bool" where
  "pg_inv st \<longleftrightarrow>
     distinct (map ws_uuid (pg_rows st))
     \<and> (\<forall>(input, t)\<in>set (pg_sessions st). tx_ok input (pg_rows st) t)
     \<and> (\<forall>d<length (pg_sessions st). \<forall>e<length (pg_sessions st). d \<noteq> e \<longrightarrow>
          set (dispatched (snd (pg_sessions st ! d))) \<inter> set (dispatched (snd (pg_sessions st ! e))) = {})"

lemma pg_inv_start: "distinct (map ws_uuid rows) \<Longrightarrow> pg_inv (pg_start rows inputs)"
  by (auto simp: pg_inv_def pg_start_def tx_begin_def tx_ok_def dispatched_def untried_def planned_def
      started_def worker_cap_def split: option.splits)

lemma tx_ok_later:
  assumes "tx_ok input rows t" "\<forall>i\<in>set (dispatched t). enqueued rows' i \<longrightarrow> enqueued rows i"
  shows "tx_ok input rows' t"
  using assms by (auto simp: tx_ok_def)

lemma dispatched_elsewhere:
  assumes "pg_inv st" "d < length (pg_sessions st)" "d \<noteq> e" "\<not> waits st e"
    and "next_row (snd (pg_sessions st ! e)) = Some i" "enqueued (pg_rows st) i"
  shows "i \<notin> set (dispatched (snd (pg_sessions st ! d)))"
proof
  let ?t = "snd (pg_sessions st ! d)"
  assume i: "i \<in> set (dispatched ?t)"
  have ok: "tx_ok (fst (pg_sessions st ! d)) (pg_rows st) ?t"
    using assms(1,2) nth_mem [of d "pg_sessions st"] by (auto simp: pg_inv_def)
  show False
  proof (cases "tx_phase ?t = Ended")
    case True
    with ok i assms(6) show False by (simp add: tx_ok_def)
  next
    case False
    with ok have "map ws_uuid (tx_writes ?t) = dispatched ?t" by (simp add: tx_ok_def)
    with i have "i \<in> locks ?t" unfolding locks_def by (metis list.set_map)
    with assms(2-5) show False by (auto simp: waits_def list_ex_iff)
  qed
qed

lemma pg_inv_apart:
  assumes "pg_inv st" "d < length (pg_sessions st)" "e < length (pg_sessions st)" "d \<noteq> e"
  shows "set (dispatched (snd (pg_sessions st ! d))) \<inter> set (dispatched (snd (pg_sessions st ! e))) = {}"
  using assms unfolding pg_inv_def by blast

lemma session_step_inv:
  assumes "pg_inv st"
  shows "pg_inv (session_step e now st)"
proof (cases "e < length (pg_sessions st) \<and> \<not> waits st e")
  case False
  then have "session_step e now st = st" by (simp only: session_step_def if_False)
  with assms show ?thesis by simp
next
  case True
  obtain input t where s: "pg_sessions st ! e = (input, t)" by fastforce
  obtain rows' t' where step: "tx_step input now (pg_rows st, t) = (rows', t')" by fastforce
  have new: "session_step e now st = \<lparr>pg_rows = rows', pg_sessions = (pg_sessions st)[e := (input, t')]\<rparr>"
    using True s step by (simp add: session_step_def del: tx_step.simps)
  have dist: "distinct (map ws_uuid (pg_rows st))" using assms by (simp add: pg_inv_def)
  have ok: "tx_ok input (pg_rows st) t"
    using assms True s nth_mem [of e "pg_sessions st"] by (auto simp: pg_inv_def)
  note after = tx_step_ok [OF ok dist step]
  have others: "\<forall>(input, t)\<in>set ((pg_sessions st)[e := (input, t')]). tx_ok input rows' t"
  proof (clarify)
    fix j u
    assume "(j, u) \<in> set ((pg_sessions st)[e := (input, t')])"
    then have "(j, u) = (input, t') \<or> (j, u) \<in> set (pg_sessions st)"
      using set_update_subset_insert [of "pg_sessions st" e "(input, t')"] by auto
    then show "tx_ok j rows' u"
      using after(1,3) assms by (auto simp: pg_inv_def intro: tx_ok_later)
  qed
  have apart: "set (dispatched t') \<inter> set (dispatched (snd (pg_sessions st ! d))) = {}"
    if d: "d < length (pg_sessions st)" "d \<noteq> e" for d
  proof -
    have "i \<notin> set (dispatched (snd (pg_sessions st ! d)))" if i: "i \<in> set (dispatched t')" for i
      using after(4) [OF i]
    proof
      assume "i \<in> set (dispatched t)"
      then show ?thesis using pg_inv_apart [OF assms _ d(1), of e] True s d(2) by auto
    next
      assume "next_row t = Some i \<and> enqueued (pg_rows st) i"
      then show ?thesis using dispatched_elsewhere [OF assms d, of i] True s by simp
    qed
    then show ?thesis by blast
  qed
  have "set (dispatched (snd ((pg_sessions st)[e := (input, t')] ! a)))
      \<inter> set (dispatched (snd ((pg_sessions st)[e := (input, t')] ! b))) = {}"
    if "a < length (pg_sessions st)" "b < length (pg_sessions st)" "a \<noteq> b" for a b
    using apart [of a] apart [of b] pg_inv_apart [OF assms that] that
    by (cases "a = e"; cases "b = e") (simp_all add: Int_commute)
  then show ?thesis
    unfolding new pg_inv_def using after(2) others by simp
qed

lemma pg_inv_step: "pg_step st st' \<Longrightarrow> pg_inv st \<Longrightarrow> pg_inv st'"
proof (erule pg_stepE, simp add: session_step_inv)
  fix rows'
  assume "pg_inv st" "env_ok (pg_sessions st) (pg_rows st) rows'" "st' = st\<lparr>pg_rows := rows'\<rparr>"
  then show "pg_inv st'" by (auto simp: pg_inv_def env_ok_def intro: tx_ok_later)
qed

lemma pg_inv_reachable: "pg_step\<^sup>*\<^sup>* st st' \<Longrightarrow> pg_inv st \<Longrightarrow> pg_inv st'"
  by (induction rule: rtranclp_induct) (auto intro: pg_inv_step)


subsection \<open>A run of two executors\<close>

text \<open>
  The global limit is not kept by concurrent executors: the second one counts the running workflows
  before the first commits, and selects its candidates afterwards.  With a global limit of two, four
  workflows run.
\<close>

definition two_executors :: "dequeue_input list" where
  "two_executors = [two_slots, two_slots\<lparr>dq_executor_id := ''e2''\<rparr>]"

definition overtaken :: "(nat \<times> int) list" where
  "overtaken = map (\<lambda>e. (e, 7)) [1, 1, 0, 0, 0, 0, 0, 0, 1, 1, 1, 1]"

lemma overtaken_run:
  "map ws_status (pg_rows (pg_run overtaken (pg_start four_waiting two_executors))) = replicate 4 Pending
   \<and> map (dispatched \<circ> snd) (pg_sessions (pg_run overtaken (pg_start four_waiting two_executors)))
     = [[''a'', ''b''], [''c'', ''d'']]"
  by code_simp

text \<open>The global concurrency limit of a queue is not an upper bound on its running workflows on
  Postgres: two executors, each within the limit it reads, reach a state with four running workflows
  under a global limit of two.\<close>

theorem pg_global_limit_exceeded:
  "\<exists>st. pg_step\<^sup>*\<^sup>* (pg_start four_waiting two_executors) st
      \<and> dq_global_concurrency two_slots = Some 2
      \<and> count_where (pending_in_queue two_slots) (pg_rows st) = 4"
proof (intro exI conjI)
  let ?st = "pg_run overtaken (pg_start four_waiting two_executors)"
  show "pg_step\<^sup>*\<^sup>* (pg_start four_waiting two_executors) ?st" by (rule pg_run_reachable)
  show "dq_global_concurrency two_slots = Some 2" by (simp add: two_slots_def)
  show "count_where (pending_in_queue two_slots) (pg_rows ?st) = 4" by code_simp
qed


lemma pg_dequeue_refines_atomic_witness:
  "\<exists>t. alone two_slots (map int [0..<8]) (workflow_status (empty_db\<lparr>workflow_status := four_waiting\<rparr>), tx_begin)
     = (workflow_status (snd (dequeue_workflows two_slots (\<lambda>n. if n = 0 then 0 else int (n + 2))
          (empty_db\<lparr>workflow_status := four_waiting\<rparr>))), t)"
proof -
  let ?db = "empty_db\<lparr>workflow_status := four_waiting\<rparr>"
  let ?clk = "\<lambda>n. if n = 0 then 0 else int (n + 2)"
  obtain out db' where d: "dequeue_workflows two_slots ?clk ?db = (out, db')" by fastforce
  have "distinct (map ws_uuid (workflow_status ?db))" by (simp add: four_waiting_def sample_row_def)
  moreover have "length (candidates two_slots (workflow_status ?db)) \<le> 4"
    by (simp add: candidates_def four_waiting_def order.trans [OF length_filter_le])
  ultimately show ?thesis
    using pg_dequeue_refines_atomic [OF _ d, of "map int [0..<8]"] d by auto
qed

end
