(* ===== verification/Background.thy ===== *)
theory Background
  imports Workflow_Run_Laws
begin

text \<open>
  \<open>queue/runner.rs\<close>, \<open>recovery.rs\<close> and the launch of \<open>context/lifecycle.rs\<close>: the tasks
  that start work no caller is waiting for.  One iteration of the runner's loop is \<open>runner_tick\<close>.
\<close>

subsection \<open>The queue runner\<close>

definition local_running :: "string \<Rightarrow> 'w rt \<Rightarrow> int" where
  "local_running q rt = count_where (\<lambda>(_, a). ae_queue_name a = q) (rt_active rt)"

definition dequeue_input_of :: "'w executor \<Rightarrow> workflow_queue \<Rightarrow> 'w rt \<Rightarrow> dequeue_input" where
  "dequeue_input_of ex q rt =
     \<lparr>dq_queue_name = wq_name q, dq_global_concurrency = wq_global_concurrency q,
      dq_worker_concurrency = wq_worker_concurrency q,
      dq_rate_limit = map_option (\<lambda>r. (rl_limit r, rl_period r)) (wq_rate_limit q),
      dq_max_tasks = wq_max_tasks q, dq_local_running = local_running (wq_name q) rt,
      dq_application_version = ex_version ex, dq_executor_id = ex_executor_id ex\<rparr>"

definition dequeue_options :: "dequeued_workflow \<Rightarrow> run_options" where
  "dequeue_options dq =
     op_default\<lparr>op_workflow_id := Some (dw_id dq),
                op_portable := (dw_serialization dq = PORTABLE_SERIALIZER_NAME)\<rparr>"

definition dequeue_flags :: run_flags where
  "dequeue_flags = \<lparr>fl_recovery = False, fl_dequeue = True\<rparr>"

definition dispatch :: "'w executor \<Rightarrow> dequeued_workflow \<Rightarrow> 'w rt \<Rightarrow> erased_handle res \<times> 'w rt" where
  "dispatch ex dq rt =
     run_workflow_erased ex (dw_name dq) (dw_input dq) (dw_serialization dq) (dequeue_options dq)
       dequeue_flags None rt"

text \<open>A dispatch that fails is logged, and the loop goes on.\<close>

definition dispatch_all :: "'w executor \<Rightarrow> dequeued_workflow list \<Rightarrow> 'w rt \<Rightarrow> 'w rt" where
  "dispatch_all ex dqs rt = fold (\<lambda>dq rt. snd (dispatch ex dq rt)) dqs rt"

definition dequeue_and_dispatch :: "'w executor \<Rightarrow> workflow_queue \<Rightarrow> 'w rt \<Rightarrow> 'w rt" where
  "dequeue_and_dispatch ex q rt =
     (let e = rt_eng rt;
          (dequeued, db) = dequeue_workflows (dequeue_input_of ex q rt)
            (\<lambda>n. en_ticks e (en_reads e + n)) (en_db e)
      in dispatch_all ex dequeued
           (rt\<lparr>rt_eng := e\<lparr>en_db := db,
                           en_reads := en_reads e + length (workflow_status (en_db e)) + 2\<rparr>\<rparr>))"

definition runner_tick :: "'w executor \<Rightarrow> 'w rt \<Rightarrow> 'w rt" where
  "runner_tick ex rt =
     (if \<not> ex_launched ex then rt
      else let (now, e) = now_ms (rt_eng rt);
               rt = rt\<lparr>rt_eng := e\<lparr>en_db := transition_delayed_workflows now (en_db e)\<rparr>\<rparr>
           in fold (dequeue_and_dispatch ex) (map snd (ex_queues ex)) rt)"

subsection \<open>Recovery\<close>

definition recovery_flags :: run_flags where
  "recovery_flags = \<lparr>fl_recovery = True, fl_dequeue = False\<rparr>"

definition recovery_options :: "workflow_status_view \<Rightarrow> run_options" where
  "recovery_options w =
     op_default\<lparr>op_workflow_id := Some (wv_id w),
                op_portable := (wv_serialization w = PORTABLE_SERIALIZER_NAME),
                op_user := Some (wv_authenticated_user w), op_role := Some (wv_assumed_role w),
                op_roles := wv_authenticated_roles w\<rparr>"

text \<open>The loop over the pending workflows; an error of a start ends it, an unregistered name is
  skipped, a queued workflow goes back to its queue.\<close>

fun recover_loop ::
  "'w executor \<Rightarrow> workflow_status_view list \<Rightarrow> 'w rt \<Rightarrow> string list res \<times> 'w rt" where
  "recover_loop ex [] rt = (Inr [], rt)"
| "recover_loop ex (w # wfs) rt =
     (if wv_queue_name w \<noteq> []
      then (let (cleared, rt) = lift_db (clear_queue_assignment (wv_id w)) rt;
                (r, rt) = recover_loop ex wfs rt
            in (map_ok (\<lambda>hs. if cleared then wv_id w # hs else hs) r, rt))
      else if map_of (ex_registry ex) (wv_name w) = None then recover_loop ex wfs rt
      else case run_workflow_erased ex (wv_name w) (wv_input w) (wv_serialization w)
                  (recovery_options w) recovery_flags None rt of
             (Inl err, rt) \<Rightarrow> (Inl err, rt)
           | (Inr h, rt) \<Rightarrow>
               (let (r, rt) = recover_loop ex wfs rt in (map_ok (\<lambda>hs. handle_id h # hs) r, rt)))"

definition pending_workflows :: "'w executor \<Rightarrow> string list \<Rightarrow> sysdb \<Rightarrow> workflow_status_view list" where
  "pending_workflows ex executor_ids db =
     list_workflows
       (li_default\<lparr>li_status := [Pending], li_executor_ids := executor_ids,
                   li_application_version := (if ex_version ex = [] then [] else [ex_version ex]),
                   li_load_input := True\<rparr>) db"

definition recover_pending_workflows ::
  "'w executor \<Rightarrow> string list \<Rightarrow> 'w rt \<Rightarrow> string list res \<times> 'w rt" where
  "recover_pending_workflows ex executor_ids rt =
     recover_loop ex (pending_workflows ex executor_ids (rt_db rt)) rt"

subsection \<open>Launch\<close>

text \<open>Migrations leave the tables of a database that has them alone, so a launch on the model's
  database is: register the version, the internal queue, one recovery round, launched.  An error of
  the recovery round is logged.\<close>

definition launch :: "'w executor \<Rightarrow> 'w rt \<Rightarrow> unit res \<times> 'w executor \<times> 'w rt" where
  "launch ex rt =
     (if ex_launched ex then (Inl (initialization ''DBOS is already launched''), ex, rt)
      else
        let (uuid, e) = new_uuid (rt_eng rt); (now, e) = now_ms e;
            rt = rt\<lparr>rt_eng := e\<lparr>en_db := create_application_version (ex_version ex) uuid now (en_db e)\<rparr>\<rparr>;
            ex = register_internal_queue ex;
            (recovered, rt) = recover_pending_workflows ex [ex_executor_id ex] rt
        in (Inr (), ex\<lparr>ex_launched := True\<rparr>, rt))"

subsection \<open>What a start adds\<close>

text \<open>One lemma for both: a start adds at most one task and at most one active workflow.\<close>

lemma run_erased_adds:
  assumes "run_workflow_erased ex name input ser opts flags child rt = (res, rt')"
  shows "(rt_tasks rt' = rt_tasks rt \<and> rt_active rt' = rt_active rt)
       \<or> (\<exists>i ir. res = Inr (Channel i) \<and> map_of (rt_active rt) i = None
            \<and> rt_tasks rt' = rt_tasks rt @ [task_of name input ser opts ir i]
            \<and> rt_active rt' = AList.update i (active_of ir) (rt_active rt))"
  using assms
  by (auto simp: run_workflow_erased_def lift_eng_def should_skip_def split: option.splits prod.splits sum.splits if_splits)

lemma dispatch_all_simps [simp]:
  "dispatch_all ex [] rt = rt"
  "dispatch_all ex (dq # dqs) rt = dispatch_all ex dqs (snd (dispatch ex dq rt))"
  by (simp_all add: dispatch_all_def)

lemma dispatch_running:
  "local_running q (snd (dispatch ex dq rt)) \<le> local_running q rt + 1"
proof -
  obtain res rt' where d: "dispatch ex dq rt = (res, rt')" by fastforce
  from run_erased_adds [OF this [unfolded dispatch_def]] show ?thesis
    by (auto simp: d local_running_def alist_update_fresh)
qed

lemma dispatch_all_running:
  "local_running q (dispatch_all ex dqs rt) \<le> local_running q rt + int (length dqs)"
proof (induction dqs arbitrary: rt)
  case (Cons dq dqs)
  have "local_running q (dispatch_all ex dqs (snd (dispatch ex dq rt)))
      \<le> local_running q (snd (dispatch ex dq rt)) + int (length dqs)" by (rule Cons.IH)
  also have "\<dots> \<le> local_running q rt + 1 + int (length dqs)" using dispatch_running [of q ex dq rt] by simp
  finally show ?case by simp
qed simp

subsection \<open>Worker concurrency\<close>

text \<open>C21. The runner never has more workflows of a queue running on this executor than the queue's
  worker concurrency allows: whatever it dequeues and however the dispatches end, the number of active
  workflows of the queue afterwards is at most the limit, or what was running before.\<close>

theorem dispatch_respects_worker_limit:
  assumes "schema_ok (rt_db rt)" "wq_worker_concurrency q = Some limit"
  shows "local_running (wq_name q) (dequeue_and_dispatch ex q rt)
       \<le> max limit (local_running (wq_name q) rt)"
proof -
  let ?clk = "\<lambda>n. en_ticks (rt_eng rt) (en_reads (rt_eng rt) + n)"
  obtain out db where d: "dequeue_workflows (dequeue_input_of ex q rt) ?clk (rt_db rt) = (out, db)" by fastforce
  have len: "int (length out) \<le> max 0 (limit - local_running (wq_name q) rt)"
    using dequeue_length [OF d assms(1)] assms(2)
    by (auto simp: task_budget_def dequeue_input_of_def Let_def split: option.splits)
  have "local_running (wq_name q) (dequeue_and_dispatch ex q rt)
      \<le> local_running (wq_name q) rt + int (length out)"
    using dispatch_all_running [of "wq_name q" ex out "rt\<lparr>rt_eng := (rt_eng rt)\<lparr>en_db := db,
        en_reads := en_reads (rt_eng rt) + length (workflow_status (rt_db rt)) + 2\<rparr>\<rparr>"]
    by (simp add: dequeue_and_dispatch_def d local_running_def Let_def)
  with len show ?thesis by simp
qed

definition one_worker :: workflow_queue where
  "one_worker =
     \<lparr>wq_name = ''q'', wq_worker_concurrency = Some 1, wq_global_concurrency = None,
      wq_priority_enabled = False, wq_rate_limit = None, wq_max_tasks = 100\<rparr>"

lemma dispatch_respects_worker_limit_witness:
  "local_running ''q'' (dequeue_and_dispatch sample_ex one_worker sample_rt) \<le> 1"
  using dispatch_respects_worker_limit [of sample_rt one_worker 1 sample_ex] sample_schema
  by (simp add: one_worker_def local_running_def sample_rt_def sample_eng_def)

subsection \<open>Recovery\<close>

text \<open>The task a directly run workflow is recovered with.\<close>

definition recovery_task :: "workflow_status_view \<Rightarrow> task" where
  "recovery_task w =
     \<lparr>tk_name = wv_name w,
      tk_wc = \<lparr>wc_id = wv_id w, wc_portable = (wv_serialization w = PORTABLE_SERIALIZER_NAME),
               wc_within_step = False, wc_user = wv_authenticated_user w, wc_role = wv_assumed_role w,
               wc_roles = wv_authenticated_roles w\<rparr>,
      tk_input = wv_input w, tk_serialization = wv_serialization w, tk_deadline = wv_deadline_ms w\<rparr>"

definition recoverable :: "'w executor \<Rightarrow> workflow_status_view \<Rightarrow> bool" where
  "recoverable ex w \<longleftrightarrow> wv_queue_name w = [] \<and> map_of (ex_registry ex) (wv_name w) \<noteq> None"

definition attempts_left :: "'w executor \<Rightarrow> workflow_status_view \<Rightarrow> bool" where
  "attempts_left ex w \<longleftrightarrow>
     (case map_of (ex_registry ex) (wv_name w) of
        None \<Rightarrow> True
      | Some entry \<Rightarrow> we_max_retries entry \<le> 0 \<or> wv_attempts w \<le> we_max_retries entry)"

text \<open>A listed workflow and its row.\<close>

definition pending_view :: "sysdb \<Rightarrow> workflow_status_view \<Rightarrow> bool" where
  "pending_view db w \<longleftrightarrow>
     (\<exists>r. wf_row db (wv_id w) = Some r \<and> ws_status r = Pending \<and> w = row_to_status r True False)"

lemma pending_workflows_views:
  assumes "schema_ok db"
  shows "distinct (map wv_id (pending_workflows ex ids db))"
    and "w \<in> set (pending_workflows ex ids db) \<Longrightarrow> pending_view db w"
proof -
  have d: "distinct (map ws_uuid (workflow_status db))" by (rule schema_ok_distinct_ws [OF assms])
  let ?in = "li_default\<lparr>li_status := [Pending], li_executor_ids := ids,
      li_application_version := (if ex_version ex = [] then [] else [ex_version ex]), li_load_input := True\<rparr>"
  let ?rows = "sort_key ws_created_at (filter (list_matches ?in) (workflow_status db))"
  have p: "pending_workflows ex ids db = map (\<lambda>r. row_to_status r True False) ?rows"
    by (simp add: pending_workflows_def list_workflows_def page_def li_default_def)
  have id: "wv_id (row_to_status r x y) = ws_uuid r" for r x y by (simp add: row_to_status_def)
  have "distinct (map ws_uuid (filter (list_matches ?in) (workflow_status db)))"
    using d by (simp add: distinct_map_filter)
  then have "distinct (map ws_uuid ?rows)" by (simp only: distinct_map distinct_sort set_sort)
  then show "distinct (map wv_id (pending_workflows ex ids db))" by (simp add: p id comp_def)
  show "pending_view db w" if w: "w \<in> set (pending_workflows ex ids db)"
  proof -
    from w obtain r where r: "r \<in> set (workflow_status db)" "list_matches ?in r" "w = row_to_status r True False"
      by (auto simp: p)
    with d have "wf_row db (wv_id w) = Some r" by (simp add: id fetch_Some_iff_distinct)
    with r show ?thesis by (auto simp: pending_view_def list_matches_def any_of_def li_default_def)
  qed
qed

lemma view_fields:
  "wv_name (row_to_status r a b) = ws_name r" "wv_id (row_to_status r a b) = ws_uuid r"
  "wv_queue_name (row_to_status r a b) = unwrap_or_default (ws_queue_name r)"
  "wv_attempts (row_to_status r a b) = ws_recovery_attempts r"
  "wv_deadline_ms (row_to_status r a b) = ws_deadline_ms r"
  by (simp_all add: row_to_status_def)

lemma recovery_start:
  assumes "pending_view (rt_db rt) w" "recoverable ex w" "attempts_left ex w" "registries_ok ex"
    and "map_of (rt_active rt) (wv_id w) = None"
  obtains rt' where "run_workflow_erased ex (wv_name w) (wv_input w) (wv_serialization w)
        (recovery_options w) recovery_flags None rt = (Inr (Channel (wv_id w)), rt')"
    "rt_tasks rt' = rt_tasks rt @ [recovery_task w]"
    "map fst (rt_active rt') = map fst (rt_active rt) @ [wv_id w]"
    "\<And>j. j \<noteq> wv_id w \<Longrightarrow> wf_row (rt_db rt') j = wf_row (rt_db rt) j"
proof -
  let ?i = "wv_id w" and ?e = "rt_eng rt"
  obtain r where r: "wf_row (rt_db rt) ?i = Some r" "ws_status r = Pending" "w = row_to_status r True False"
    using assms(1) by (auto simp: pending_view_def)
  obtain entry where entry: "map_of (ex_registry ex) (wv_name w) = Some entry"
    using assms(2) by (auto simp: recoverable_def)
  have name: "we_name entry = wv_name w"
    using assms(4) map_of_SomeD [OF entry] by (auto simp: registries_ok_def)
  let ?in = "start_input ex entry (wv_input w) (wv_serialization w) (recovery_options w) recovery_flags None ?i ?e"
  let ?row = "conflict_update ?in Pending (en_ticks ?e (en_reads ?e + 2)) r"
  have nw: "nw_id (in_status ?in) = ?i" "nw_name (in_status ?in) = ws_name r" "nw_queue_name (in_status ?in) = []"
    "nw_status (in_status ?in) = Some Pending" "nw_updated_at_ms (in_status ?in) = None"
    using name r(3) by (simp_all add: start_input_def new_status_def recovery_options_def op_default_def
        start_status_def view_fields)
  have same: "same_workflow ?in r"
    using wf_row_uuid [OF r(1)] nw by (simp add: same_workflow_def)
  have low: "\<not> exceeds_retries ?in (insert_result_of ?row)"
    using assms(3) entry r(2,3)
    by (auto simp: attempts_left_def exceeds_retries_def insert_result_of_def conflict_update_def
        start_input_def view_fields recovery_flags_def)
  obtain db' where ins: "insert_workflow_status ?in (en_ticks ?e (en_reads ?e + 2)) (en_db ?e)
      = (Inr (insert_result_of ?row), db')" and other: "\<And>j. j \<noteq> ?i \<Longrightarrow> wf_row db' j = wf_row (en_db ?e) j"
    by (rule insert_over_existing [OF _ same _ _ low, of "en_db ?e" "en_ticks ?e (en_reads ?e + 2)"])
      (use r(1) nw in \<open>auto simp: start_input_def\<close>)
  have none: "option_error (recovery_options w) = None"
    by (simp add: option_error_def recovery_options_def op_default_def)
  from run_erased_inserted [OF entry none insert_start_plain [OF _ _ _ ins]]
  have run: "run_workflow_erased ex (wv_name w) (wv_input w) (wv_serialization w) (recovery_options w) recovery_flags None rt
      = (Inr (Channel ?i), rt\<lparr>rt_eng := ?e\<lparr>en_reads := en_reads ?e + 3, en_db := db'\<rparr>,
           rt_active := AList.update ?i (active_of (insert_result_of ?row)) (rt_active rt),
           rt_tasks := rt_tasks rt @ [task_of (wv_name w) (wv_input w) (wv_serialization w)
              (recovery_options w) (insert_result_of ?row) ?i]\<rparr>)"
    using assms(5) r(2) by (simp add: should_skip_def recovery_options_def op_default_def recovery_flags_def
        insert_result_of_def)
  have task: "task_of (wv_name w) (wv_input w) (wv_serialization w) (recovery_options w) (insert_result_of ?row) ?i
      = recovery_task w"
    using r(3) by (simp add: task_of_def recovery_task_def recovery_options_def op_default_def
        insert_result_of_def conflict_update_def view_fields)
  show thesis
    by (rule that [OF run]) (use assms(5) other task in \<open>simp_all add: alist_update_fresh\<close>)
qed

lemma clear_assignment:
  assumes "pending_view (rt_db rt) w" "wv_queue_name w \<noteq> []" "schema_ok (rt_db rt)"
  obtains rt' where "lift_db (clear_queue_assignment (wv_id w)) rt = (True, rt')"
    "rt_tasks rt' = rt_tasks rt" "rt_active rt' = rt_active rt" "schema_ok (rt_db rt')"
    "\<exists>r. wf_row (rt_db rt') (wv_id w) = Some r \<and> ws_status r = Enqueued"
    "\<And>j. j \<noteq> wv_id w \<Longrightarrow> wf_row (rt_db rt') j = wf_row (rt_db rt) j"
proof -
  obtain r where r: "wf_row (rt_db rt) (wv_id w) = Some r" "ws_status r = Pending" "w = row_to_status r True False"
    using assms(1) by (auto simp: pending_view_def)
  let ?P = "\<lambda>x. ws_uuid x = wv_id w \<and> ws_queue_name x \<noteq> None \<and> ws_status x = Pending"
  let ?f = "\<lambda>x. x\<lparr>ws_status := Enqueued, ws_started_at := None\<rparr>"
  have "ws_queue_name r \<noteq> None"
    using assms(2) unfolding r(3) view_fields by (cases "ws_queue_name r") simp_all
  then have P: "?P r" using r(2) wf_row_uuid [OF r(1)] by blast
  then have "r \<in> set (filter ?P (workflow_status (rt_db rt)))" using wf_row_uuid [OF r(1)] by simp
  then have "count_where ?P (workflow_status (rt_db rt)) > 0"
    unfolding count_where_def by (simp only: of_nat_0_less_iff length_pos_if_in_set)
  then have run: "lift_db (clear_queue_assignment (wv_id w)) rt = (True, rt\<lparr>rt_eng := (rt_eng rt)
      \<lparr>en_db := (rt_db rt)\<lparr>workflow_status := update_where ?P ?f (workflow_status (rt_db rt))\<rparr>\<rparr>\<rparr>)"
    by (simp add: lift_db_def lift_eng_def clear_queue_assignment_def Let_def)
  have "schema_ok (snd (clear_queue_assignment (wv_id w) (rt_db rt)))"
    by (rule clear_queue.keeps_schema [OF assms(3)])
  then have ok: "schema_ok ((rt_db rt)\<lparr>workflow_status := update_where ?P ?f (workflow_status (rt_db rt))\<rparr>)"
    by (simp add: clear_queue_assignment_def Let_def)
  have other: "fetch ws_uuid j (update_where ?P ?f (workflow_status (rt_db rt))) = wf_row (rt_db rt) j"
    if "j \<noteq> wv_id w" for j
    by (rule fetch_update_other [where k = "wv_id w"]) (use that in simp_all)
  show thesis
    by (rule that [OF run]) (use r(1,2) P ok other in \<open>simp_all add: fetch_update_where\<close>)
qed

text \<open>The loop of a recovery round in which every directly run workflow has attempts left.\<close>

lemma recover_loop_all:
  assumes "registries_ok ex" "schema_ok (rt_db rt)" "distinct (map wv_id ws)"
    and "\<forall>w\<in>set ws. pending_view (rt_db rt) w \<and> attempts_left ex w \<and> map_of (rt_active rt) (wv_id w) = None"
  shows "\<exists>rt'. recover_loop ex ws rt
         = (Inr (map wv_id (filter (\<lambda>w. wv_queue_name w \<noteq> [] \<or> recoverable ex w) ws)), rt')
       \<and> rt_tasks rt' = rt_tasks rt @ map recovery_task (filter (recoverable ex) ws)
       \<and> (\<forall>j. j \<notin> wv_id ` set ws \<longrightarrow> wf_row (rt_db rt') j = wf_row (rt_db rt) j)
       \<and> (\<forall>w\<in>set ws. wv_queue_name w \<noteq> [] \<longrightarrow>
            (\<exists>r. wf_row (rt_db rt') (wv_id w) = Some r \<and> ws_status r = Enqueued))"
  using assms(2-)
proof (induction ws arbitrary: rt)
  case (Cons w ws)
  have w: "pending_view (rt_db rt) w" "attempts_left ex w" "map_of (rt_active rt) (wv_id w) = None"
    using Cons.prems(3) by simp_all
  have ids: "wv_id w \<notin> wv_id ` set ws" "distinct (map wv_id ws)" using Cons.prems(2) by simp_all
  consider (queued) "wv_queue_name w \<noteq> []" | (direct) "recoverable ex w"
    | (unknown) "wv_queue_name w = []" "map_of (ex_registry ex) (wv_name w) = None"
    by (auto simp: recoverable_def)
  then show ?case
  proof cases
    case queued
    obtain rt1 where rt1: "lift_db (clear_queue_assignment (wv_id w)) rt = (True, rt1)"
      "rt_tasks rt1 = rt_tasks rt" "rt_active rt1 = rt_active rt" "schema_ok (rt_db rt1)"
      "\<exists>r. wf_row (rt_db rt1) (wv_id w) = Some r \<and> ws_status r = Enqueued"
      "\<And>j. j \<noteq> wv_id w \<Longrightarrow> wf_row (rt_db rt1) j = wf_row (rt_db rt) j"
      by (rule clear_assignment [OF w(1) queued Cons.prems(1)]) blast
    have "\<forall>v\<in>set ws. pending_view (rt_db rt1) v \<and> attempts_left ex v \<and> map_of (rt_active rt1) (wv_id v) = None"
    proof
      fix v assume v: "v \<in> set ws"
      then have "wv_id v \<noteq> wv_id w" using ids(1) by (metis imageI)
      with v Cons.prems(3) rt1(3,6) show "pending_view (rt_db rt1) v \<and> attempts_left ex v \<and> map_of (rt_active rt1) (wv_id v) = None"
        by (simp add: pending_view_def)
    qed
    from Cons.IH [OF rt1(4) ids(2) this] obtain rt' where IH: "recover_loop ex ws rt1
         = (Inr (map wv_id (filter (\<lambda>w. wv_queue_name w \<noteq> [] \<or> recoverable ex w) ws)), rt')"
       "rt_tasks rt' = rt_tasks rt1 @ map recovery_task (filter (recoverable ex) ws)"
       "\<forall>j. j \<notin> wv_id ` set ws \<longrightarrow> wf_row (rt_db rt') j = wf_row (rt_db rt1) j"
       "\<forall>w\<in>set ws. wv_queue_name w \<noteq> [] \<longrightarrow> (\<exists>r. wf_row (rt_db rt') (wv_id w) = Some r \<and> ws_status r = Enqueued)"
      by (elim exE conjE)
    have "\<not> recoverable ex w" using queued by (simp add: recoverable_def)
    moreover from IH(1) rt1(1) have "recover_loop ex (w # ws) rt
         = (Inr (map wv_id (filter (\<lambda>w. wv_queue_name w \<noteq> [] \<or> recoverable ex w) (w # ws))), rt')"
      using queued by (simp add: map_ok_def)
    ultimately show ?thesis using IH(2-4) rt1(2,5,6) ids(1) by (intro exI [of _ rt']) simp
  next
    case direct
    obtain rt1 where rt1: "run_workflow_erased ex (wv_name w) (wv_input w) (wv_serialization w)
        (recovery_options w) recovery_flags None rt = (Inr (Channel (wv_id w)), rt1)"
      "rt_tasks rt1 = rt_tasks rt @ [recovery_task w]"
      "map fst (rt_active rt1) = map fst (rt_active rt) @ [wv_id w]"
      "\<And>j. j \<noteq> wv_id w \<Longrightarrow> wf_row (rt_db rt1) j = wf_row (rt_db rt) j"
      by (rule recovery_start [OF w(1) direct w(2) assms(1) w(3)]) blast
    have act: "map_of (rt_active rt1) j = None" if "map_of (rt_active rt) j = None" "j \<noteq> wv_id w" for j
      using arg_cong [OF rt1(3), of set] that by (auto simp: map_of_eq_None_iff)
    have ok: "schema_ok (rt_db rt1)" by (rule run_erased_schema [OF Cons.prems(1) rt1(1)])
    have "\<forall>v\<in>set ws. pending_view (rt_db rt1) v \<and> attempts_left ex v \<and> map_of (rt_active rt1) (wv_id v) = None"
    proof
      fix v assume v: "v \<in> set ws"
      then have "wv_id v \<noteq> wv_id w" using ids(1) by (metis imageI)
      with v Cons.prems(3) rt1(4) act show "pending_view (rt_db rt1) v \<and> attempts_left ex v \<and> map_of (rt_active rt1) (wv_id v) = None"
        by (simp add: pending_view_def)
    qed
    from Cons.IH [OF ok ids(2) this] obtain rt' where IH: "recover_loop ex ws rt1
         = (Inr (map wv_id (filter (\<lambda>w. wv_queue_name w \<noteq> [] \<or> recoverable ex w) ws)), rt')"
       "rt_tasks rt' = rt_tasks rt1 @ map recovery_task (filter (recoverable ex) ws)"
       "\<forall>j. j \<notin> wv_id ` set ws \<longrightarrow> wf_row (rt_db rt') j = wf_row (rt_db rt1) j"
       "\<forall>w\<in>set ws. wv_queue_name w \<noteq> [] \<longrightarrow> (\<exists>r. wf_row (rt_db rt') (wv_id w) = Some r \<and> ws_status r = Enqueued)"
      by (elim exE conjE)
    have "wv_queue_name w = []" "map_of (ex_registry ex) (wv_name w) \<noteq> None"
      using direct by (simp_all add: recoverable_def)
    with IH(1) rt1(1) have "recover_loop ex (w # ws) rt
         = (Inr (map wv_id (filter (\<lambda>w. wv_queue_name w \<noteq> [] \<or> recoverable ex w) (w # ws))), rt')"
      using direct by (auto simp: map_ok_def)
    with IH(2-4) rt1(2,4) direct \<open>wv_queue_name w = []\<close> show ?thesis by (intro exI [of _ rt']) simp
  next
    case unknown
    then have "\<not> recoverable ex w" by (simp add: recoverable_def)
    moreover obtain rt' where IH: "recover_loop ex ws rt
         = (Inr (map wv_id (filter (\<lambda>w. wv_queue_name w \<noteq> [] \<or> recoverable ex w) ws)), rt')"
       "rt_tasks rt' = rt_tasks rt @ map recovery_task (filter (recoverable ex) ws)"
       "\<forall>j. j \<notin> wv_id ` set ws \<longrightarrow> wf_row (rt_db rt') j = wf_row (rt_db rt) j"
       "\<forall>w\<in>set ws. wv_queue_name w \<noteq> [] \<longrightarrow> (\<exists>r. wf_row (rt_db rt') (wv_id w) = Some r \<and> ws_status r = Enqueued)"
      using Cons.IH [OF Cons.prems(1) ids(2)] Cons.prems(3) by auto
    ultimately show ?thesis using unknown by simp
  qed
qed simp


text \<open>One workflow that has used up its attempts ends the round: the workflows after it in the list get
  neither a task nor a handle, and the error is all that is returned.\<close>

lemma recovery_stops_at_error:
  assumes "wv_queue_name w = []" "map_of (ex_registry ex) (wv_name w) \<noteq> None"
    and "run_workflow_erased ex (wv_name w) (wv_input w) (wv_serialization w)
           (recovery_options w) recovery_flags None rt = (Inl err, rt')"
  shows "recover_loop ex (w # ws) rt = (Inl err, rt')" "rt_tasks rt' = rt_tasks rt"
  using assms run_erased_adds [OF assms(3)] by auto

text \<open>The identity of a queued workflow is not restored when it is dequeued: its body, and so its
  children, run without the user and roles its row holds; a recovered one has them.\<close>

lemma dequeued_without_identity:
  "wc_user (tk_wc (task_of name input ser (dequeue_options dq) ir i)) = []"
  "wc_roles (tk_wc (task_of name input ser (dequeue_options dq) ir i)) = []"
  "wc_user (tk_wc (recovery_task w)) = wv_authenticated_user w"
  by (simp_all add: task_of_def dequeue_options_def op_default_def recovery_task_def)


end
