(* ===== verification/Manage.thy ===== *)
theory Manage
  imports Background
begin

text \<open>
  \<open>workflow/manage.rs\<close> and \<open>client.rs\<close>: the operations from outside a workflow.  They act on the
  run-time state of an executor or, in a client, on a context that was never launched.  The reads of
  \<open>manage.rs\<close> that only forward to the database are the database's own definitions.
\<close>

subsection \<open>Cancel, resume, fork\<close>

record fork_options =
  fo_original :: string
  fo_start_step :: int
  fo_version :: "string option"
  fo_queue :: "string option"
  fo_forked :: "string option"

definition manage_cancel :: "string \<Rightarrow> 'w rt \<Rightarrow> unit res \<times> 'w rt" where
  "manage_cancel i rt =
     (let (now, rt) = lift_eng now_ms rt; (found, rt) = lift_db (cancel_workflow i now) rt
      in (if found then Inr () else Inl (non_existent_workflow i), rt))"

definition manage_resume :: "string \<Rightarrow> 'w rt \<Rightarrow> erased_handle res \<times> 'w rt" where
  "manage_resume i rt =
     (if get_workflow_status i (rt_db rt) = None then (Inl (non_existent_workflow i), rt)
      else let (now, rt) = lift_eng now_ms rt;
               (_, rt) = lift_db (\<lambda>db. ((), resume_workflow i now db)) rt
           in (Inr (Polling i), rt))"

definition manage_fork :: "fork_options \<Rightarrow> 'w rt \<Rightarrow> erased_handle res \<times> 'w rt" where
  "manage_fork opts rt =
     (let (uuid, rt) = lift_eng new_uuid rt; (now, rt) = lift_eng now_ms rt;
          (r, rt) = lift_db (fork_workflow
            \<lparr>fk_original = fo_original opts, fk_forked = fo_forked opts,
             fk_start_step = fo_start_step opts, fk_application_version = fo_version opts,
             fk_queue_name = fo_queue opts\<rparr> uuid now) rt
      in (map_ok Polling r, rt))"

subsection \<open>Delete\<close>

text \<open>The breadth-first search for the descendants; the fuel bounds the workflows taken off the queue.\<close>

fun descendants :: "nat \<Rightarrow> sysdb \<Rightarrow> string list \<Rightarrow> string list option" where
  "descendants fuel db [] = Some []"
| "descendants 0 db (i # queue) = None"
| "descendants (Suc n) db (i # queue) =
     (let children = get_workflow_children i db
      in map_option (\<lambda>rest. children @ rest) (descendants n db (queue @ children)))"

definition manage_delete :: "nat \<Rightarrow> string \<Rightarrow> bool \<Rightarrow> sysdb \<Rightarrow> sysdb option" where
  "manage_delete fuel i delete_children db =
     map_option (\<lambda>ids. fold delete_workflow_row ids db)
       (if delete_children then map_option (\<lambda>ids. i # ids) (descendants fuel db [i]) else Some [i])"

subsection \<open>The client\<close>

record enqueue_options =
  eo_workflow_id :: "string option"
  eo_version :: "string option"
  eo_dedup_id :: "string option"
  eo_priority :: int
  eo_delay :: "int option"

definition enqueued_status ::
  "'w executor \<Rightarrow> string \<Rightarrow> string \<Rightarrow> string option \<Rightarrow> string \<Rightarrow> enqueue_options \<Rightarrow> string \<Rightarrow> int \<Rightarrow>
   int option \<Rightarrow> new_workflow_status" where
  "enqueued_status ex queue name input ser opts i created delay_until =
     \<lparr>nw_id = i, nw_status = Some (if eo_delay opts \<noteq> None then Delayed else Enqueued),
      nw_name = name, nw_class_name = [], nw_config_name = None,
      nw_application_version = unwrap_or (eo_version opts) (ex_version ex),
      nw_application_id = ex_application_id ex, nw_executor_id = ex_executor_id ex,
      nw_created_at_ms = created, nw_updated_at_ms = None, nw_deadline_ms = None,
      nw_timeout_ms = None, nw_input = input, nw_queue_name = queue,
      nw_deduplication_id = unwrap_or_default (eo_dedup_id opts), nw_priority = eo_priority opts,
      nw_authenticated_user = [], nw_assumed_role = [], nw_authenticated_roles = [],
      nw_queue_partition_key = [], nw_parent_workflow_id = [],
      nw_delay_until_ms = delay_until, nw_serialization = ser\<rparr>"

definition client_enqueue ::
  "'w executor \<Rightarrow> string \<Rightarrow> string \<Rightarrow> json \<Rightarrow> enqueue_options \<Rightarrow> 'w eng \<Rightarrow> erased_handle res \<times> 'w eng" where
  "client_enqueue ex queue name input opts e =
     (let encoder = resolve_encoder (cx_codec (ex_ctx ex)) False (cx_serializer (ex_ctx ex)) in
      case encode encoder input of
        Inl err \<Rightarrow> (Inl err, e)
      | Inr encoded \<Rightarrow>
          (let (i, e) = (case eo_workflow_id opts of Some i \<Rightarrow> (i, e) | None \<Rightarrow> new_uuid e);
               (created, e) = now_ms e;
               (delay_until, e) = deadline_in (eo_delay opts) e;
               (owner, e) = new_uuid e;
               (now, e) = now_ms e;
               (r, db) = insert_workflow_status
                 \<lparr>in_status = enqueued_status ex queue name encoded (sz_name encoder) opts i created delay_until,
                  in_max_retries = DEFAULT_MAX_RECOVERY_ATTEMPTS, in_owner_xid = owner,
                  in_increment_attempts = False, in_record_child = None\<rparr> now (en_db e)
           in (map_ok (\<lambda>_. Polling i) r, e\<lparr>en_db := db\<rparr>)))"

subsection \<open>The family of a workflow\<close>

definition child_of :: "sysdb \<Rightarrow> (string \<times> string) set" where
  "child_of db = {(p, c). \<exists>r\<in>set (workflow_status db). ws_uuid r = c \<and> ws_parent_id r = Some p}"

abbreviation family :: "sysdb \<Rightarrow> string \<Rightarrow> string set" where
  "family db i \<equiv> (child_of db)\<^sup>+ `` {i}"

lemma get_children_set: "set (get_workflow_children i db) = {c. (i, c) \<in> child_of db}"
  by (auto simp: get_workflow_children_def child_of_def)

lemma one_parent:
  assumes "distinct (map ws_uuid (workflow_status db))" "(p, c) \<in> child_of db" "(q, c) \<in> child_of db"
  shows "p = q"
proof -
  have inj: "inj_on ws_uuid (set (workflow_status db))" using assms(1) by (simp add: distinct_map)
  from assms(2) obtain r where r: "r \<in> set (workflow_status db)" "ws_uuid r = c" "ws_parent_id r = Some p"
    by (auto simp: child_of_def)
  from assms(3) obtain s where s: "s \<in> set (workflow_status db)" "ws_uuid s = c" "ws_parent_id s = Some q"
    by (auto simp: child_of_def)
  have "r = s" by (rule inj_onD [OF inj]) (simp_all add: r s)
  with r s show ?thesis by simp
qed

lemma children_distinct:
  "distinct (map ws_uuid (workflow_status db)) \<Longrightarrow> distinct (get_workflow_children i db)"
  by (simp add: get_workflow_children_def distinct_map_filter)

text \<open>The state of the search: \<open>seen\<close> are the workflows taken off the queue.\<close>

definition searching :: "sysdb \<Rightarrow> string \<Rightarrow> string list \<Rightarrow> string list \<Rightarrow> bool" where
  "searching db root seen queue \<longleftrightarrow>
     distinct (seen @ queue) \<and> set (seen @ queue) \<subseteq> insert root (family db root)
     \<and> root \<in> set (seen @ queue)
     \<and> (\<forall>x\<in>set seen. \<forall>c. (x, c) \<in> child_of db \<longrightarrow> c \<in> set (seen @ queue))
     \<and> (\<forall>c\<in>set (seen @ queue). c \<noteq> root \<longrightarrow> (\<exists>x\<in>set seen. (x, c) \<in> child_of db))"

lemma searching_start: "searching db root [] [root]"
  by (simp add: searching_def)

lemma searching_step:
  assumes "searching db root seen (i # queue)" "root \<notin> family db root"
    and d: "distinct (map ws_uuid (workflow_status db))"
  shows "searching db root (seen @ [i]) (queue @ get_workflow_children i db)"
proof -
  have i: "i \<in> insert root (family db root)" "i \<notin> set seen" using assms(1) by (auto simp: searching_def)
  have fam: "c \<in> family db root" if "(i, c) \<in> child_of db" for c
    using that i(1) by (auto intro: trancl_into_trancl)
  have new: "c \<notin> set (seen @ i # queue)" if c: "(i, c) \<in> child_of db" for c
  proof
    assume "c \<in> set (seen @ i # queue)"
    moreover have "c \<noteq> root" using fam [OF c] assms(2) by auto
    ultimately obtain x where "x \<in> set seen" "(x, c) \<in> child_of db"
      using assms(1) unfolding searching_def by blast
    with one_parent [OF d c] i(2) show False by blast
  qed
  then have "set (seen @ i # queue) \<inter> set (get_workflow_children i db) = {}"
    by (auto simp: get_children_set)
  with assms(1) fam children_distinct [OF d, of i] show ?thesis
    unfolding searching_def by (auto simp: get_children_set)
qed

lemma family_rows: "family db root \<subseteq> set (map ws_uuid (workflow_status db))"
proof
  fix c
  assume "c \<in> family db root"
  then have "(root, c) \<in> (child_of db)\<^sup>+" by simp
  then show "c \<in> set (map ws_uuid (workflow_status db))"
    by (cases rule: tranclE) (auto simp: child_of_def)
qed

lemma seen_bound:
  assumes "searching db root seen queue"
  shows "length seen + length queue \<le> Suc (length (workflow_status db))"
proof -
  have "set (seen @ queue) \<subseteq> insert root (set (map ws_uuid (workflow_status db)))"
    using assms family_rows [of db root] unfolding searching_def by blast
  then have "card (set (seen @ queue)) \<le> card (insert root (set (map ws_uuid (workflow_status db))))"
    by (intro card_mono) simp_all
  also have "\<dots> \<le> Suc (length (workflow_status db))"
    using card_length [of "map ws_uuid (workflow_status db)"] by (simp add: card_insert_if)
  finally show ?thesis using assms distinct_card [of "seen @ queue"] by (simp add: searching_def)
qed

text \<open>The search returns every descendant, each once: fuel for one workflow more than the table has
  rows is enough.\<close>

lemma descendants_search:
  assumes "searching db root seen queue" "root \<notin> family db root"
    and "distinct (map ws_uuid (workflow_status db))"
    and "Suc (length (workflow_status db)) \<le> length seen + fuel"
  shows "\<exists>ids. descendants fuel db queue = Some ids \<and> searching db root (seen @ queue @ ids) []"
  using assms(1,4)
proof (induction fuel arbitrary: seen queue)
  case 0
  with seen_bound [OF 0(1)] show ?case by (cases queue) auto
next
  case (Suc n)
  show ?case
  proof (cases queue)
    case Nil
    with Suc.prems(1) show ?thesis by simp
  next
    case (Cons i rest)
    from searching_step [OF Suc.prems(1)[unfolded Cons] assms(2,3)] Suc.IH Suc.prems(2)
    obtain ids where "descendants n db (rest @ get_workflow_children i db) = Some ids"
      "searching db root ((seen @ [i]) @ (rest @ get_workflow_children i db) @ ids) []"
      by (metis add_Suc_right add_Suc length_append_singleton)
    then show ?thesis by (simp add: Cons)
  qed
qed

lemma family_searched:
  assumes "searching db root seen []" "root \<notin> family db root"
  shows "set seen = insert root (family db root)"
proof
  show "set seen \<subseteq> insert root (family db root)" using assms(1) by (simp add: searching_def)
  have "c \<in> set seen" if "(root, c) \<in> (child_of db)\<^sup>+" for c
    using that
  proof (induction rule: trancl_induct)
    case (base c)
    then show ?case using assms(1) unfolding searching_def by auto
  next
    case (step x c)
    then show ?case using assms(1) unfolding searching_def by auto
  qed
  then show "insert root (family db root) \<subseteq> set seen" using assms(1) by (auto simp: searching_def)
qed

lemma delete_rows:
  "workflow_status (fold delete_workflow_row ids db)
     = filter (\<lambda>r. ws_uuid r \<notin> set ids) (workflow_status db)"
  "operation_outputs (fold delete_workflow_row ids db)
     = filter (\<lambda>r. \<not> (op_workflow r \<in> set ids \<and> wf_exists db (op_workflow r))) (operation_outputs db)"
proof (induction ids arbitrary: db)
  case (Cons i ids)
  have ws: "workflow_status (delete_workflow_row i db) = filter (\<lambda>r. ws_uuid r \<noteq> i) (workflow_status db)" for db
    by (simp add: delete_workflow_row_def delete_cascade_def delete_where_def Let_def)
  have op: "operation_outputs (delete_workflow_row i db)
      = filter (\<lambda>r. \<not> (op_workflow r = i \<and> wf_exists db i)) (operation_outputs db)" for db
    by (auto simp: delete_workflow_row_def delete_cascade_def delete_where_def Let_def fetch_None_iff
        simp del: not_None_eq intro!: filter_cong)
  have ex: "wf_exists (delete_workflow_row i db) j \<longleftrightarrow> wf_exists db j \<and> j \<noteq> i" for db j
    by (simp only: fetch_not_None_iff ws) auto
  {
    case 1
    show ?case unfolding fold_simps Cons(1) ws by (auto intro: filter_cong)
  next
    case 2
    show ?case unfolding fold_simps Cons(2) op ex by (auto intro!: filter_cong)
  }
qed simp_all

text \<open>C31. Deleting a workflow with its children ends and deletes exactly its family: the workflow and
  everything started, at any depth, by it are gone, and every other workflow and the checkpoints of
  every other workflow stay as they were.  The one precondition is that the workflow is not its own
  descendant; fuel for one step more than there are workflows is enough.\<close>

theorem delete_removes_family:
  assumes "schema_ok db" "i \<notin> family db i" "length (workflow_status db) < fuel"
  shows "\<exists>db'. manage_delete fuel i True db = Some db'
     \<and> workflow_status db' = filter (\<lambda>r. ws_uuid r \<notin> insert i (family db i)) (workflow_status db)
     \<and> operation_outputs db' = filter (\<lambda>r. op_workflow r \<notin> insert i (family db i)) (operation_outputs db)"
proof -
  have "distinct (map ws_uuid (workflow_status db))" using assms(1) by (simp add: schema_defs)
  from descendants_search [OF searching_start assms(2) this, of fuel] assms(3)
  obtain ids where ids: "descendants fuel db [i] = Some ids" "searching db i (i # ids) []"
    by auto
  have fam: "set (i # ids) = insert i (family db i)"
    by (rule family_searched [OF ids(2) assms(2)])
  have refs: "\<forall>r\<in>set (operation_outputs db). wf_exists db (op_workflow r)"
    unfolding fetch_not_None_iff using assms(1) by (auto simp: schema_ok_def refs_ok_def)
  have "manage_delete fuel i True db = Some (fold delete_workflow_row (i # ids) db)"
    by (simp add: manage_delete_def ids(1) del: fold_simps)
  moreover have "workflow_status (fold delete_workflow_row (i # ids) db)
      = filter (\<lambda>r. ws_uuid r \<notin> insert i (family db i)) (workflow_status db)"
    unfolding delete_rows(1) fam ..
  moreover have "operation_outputs (fold delete_workflow_row (i # ids) db)
      = filter (\<lambda>r. op_workflow r \<notin> insert i (family db i)) (operation_outputs db)"
    unfolding delete_rows(2) fam by (rule filter_cong [OF refl]) (use refs in simp)
  ultimately show ?thesis by blast
qed

definition child_row :: ws_row where
  "child_row = (sample_row ''c'' Success None)\<lparr>ws_parent_id := Some ''w1''\<rparr>"

definition family_db :: sysdb where
  "family_db = sample_db\<lparr>workflow_status := child_row # workflow_status sample_db\<rparr>"

lemma delete_removes_family_witness:
  "\<exists>db'. manage_delete 5 ''w1'' True family_db = Some db' \<and> map ws_uuid (workflow_status db') = [''w2'', ''w3'']"
proof -
  have rel: "child_of family_db = {(''w1'', ''c'')}"
    by (auto simp: child_of_def family_db_def child_row_def sample_simps)
  have fam: "family family_db ''w1'' = {''c''}"
  proof -
    have "{(''w1'', ''c'')}\<^sup>+ = {(''w1'', ''c'')}" by (rule trancl_id) (auto simp: trans_def)
    then show ?thesis by (auto simp: rel)
  qed
  have "schema_ok family_db"
    by (simp add: schema_defs family_db_def child_row_def sample_simps dedup_unique_def)
  moreover have "''w1'' \<notin> family family_db ''w1''" by (simp add: fam)
  moreover have "length (workflow_status family_db) < 5" by (simp add: family_db_def sample_simps)
  ultimately obtain db' where "manage_delete 5 ''w1'' True family_db = Some db'"
    "workflow_status db' = filter (\<lambda>r. ws_uuid r \<notin> insert ''w1'' (family family_db ''w1'')) (workflow_status family_db)"
    using delete_removes_family [of family_db "''w1''" 5] by blast
  then show ?thesis unfolding fam by (simp add: family_db_def child_row_def sample_simps)
qed

text \<open>
  The precondition is needed: the schema does not keep a deleted workflow's id from being used again by
  one of its own descendants, and for a workflow that is its own descendant the search never ends.
\<close>

lemma descendants_diverge:
  assumes "\<forall>x\<in>S. \<exists>c\<in>S. (x, c) \<in> child_of db" "set queue \<inter> S \<noteq> {}"
  shows "descendants fuel db queue = None"
  using assms(2)
proof (induction fuel arbitrary: queue)
  case (Suc n)
  then obtain i rest where q: "queue = i # rest" by (cases queue) auto
  have "set (rest @ get_workflow_children i db) \<inter> S \<noteq> {}"
    using Suc.prems assms(1) unfolding q by (auto simp: get_children_set)
  from Suc.IH [OF this] show ?case by (simp add: q Let_def)
next
  case 0
  then show ?case by (cases queue) auto
qed

lemma delete_never_ends:
  assumes "i \<in> family db i"
  shows "manage_delete fuel i True db = None"
proof -
  let ?S = "{x. (i, x) \<in> (child_of db)\<^sup>* \<and> (x, i) \<in> (child_of db)\<^sup>+}"
  have "\<exists>c\<in>?S. (x, c) \<in> child_of db" if x: "x \<in> ?S" for x
  proof -
    from x have "(x, i) \<in> (child_of db)\<^sup>+" by simp
    then obtain c where c: "(x, c) \<in> child_of db" "(c, i) \<in> (child_of db)\<^sup>*" by (metis tranclD)
    have "(i, c) \<in> (child_of db)\<^sup>*" using x c(1) by (auto intro: rtrancl_into_rtrancl)
    moreover have "(c, i) \<in> (child_of db)\<^sup>+" using c(2) assms by (auto intro: rtrancl_trancl_trancl)
    ultimately show ?thesis using c(1) by blast
  qed
  then have "descendants fuel db [i] = None" by (intro descendants_diverge [where S = ?S]) (use assms in auto)
  then show ?thesis by (simp add: manage_delete_def)
qed

text \<open>A client's enqueue of a fresh id stores the workflow for the queue, and nothing else changes.\<close>

lemma client_enqueue_insert:
  assumes "eo_workflow_id opts = Some i"
    and "encode (resolve_encoder (cx_codec (ex_ctx ex)) False (cx_serializer (ex_ctx ex))) v = Inr text"
  obtains created delay owner now e1 where
    "client_enqueue ex queue name v opts e =
       (let (r, db) = insert_workflow_status
          \<lparr>in_status = enqueued_status ex queue name text
             (sz_name (resolve_encoder (cx_codec (ex_ctx ex)) False (cx_serializer (ex_ctx ex)))) opts i created delay,
           in_max_retries = DEFAULT_MAX_RECOVERY_ATTEMPTS, in_owner_xid = owner,
           in_increment_attempts = False, in_record_child = None\<rparr> now (en_db e)
        in (map_ok (\<lambda>_. Polling i) r, e1\<lparr>en_db := db\<rparr>))"
proof -
  obtain created e1 where c: "now_ms e = (created, e1)" by fastforce
  obtain delay e2 where d: "deadline_in (eo_delay opts) e1 = (delay, e2)" by fastforce
  obtain owner e3 where u: "new_uuid e2 = (owner, e3)" by fastforce
  obtain now e4 where n: "now_ms e3 = (now, e4)" by fastforce
  have "en_db e4 = en_db e"
    using c u n deadline_in_db [OF d] by (auto simp: now_ms_def new_uuid_def)
  with assms c d u n that [of created delay owner now e4] show thesis
    by (simp add: client_enqueue_def Let_def)
qed

lemma client_enqueue_fresh:
  assumes "eo_workflow_id opts = Some i" "wf_row (en_db e) i = None" "eo_dedup_id opts = None"
    and "encode (resolve_encoder (cx_codec (ex_ctx ex)) False (cx_serializer (ex_ctx ex))) v = Inr text"
  shows "\<exists>r e'. client_enqueue ex queue name v opts e = (Inr (Polling i), e')
       \<and> en_db e' = (en_db e)\<lparr>workflow_status := workflow_status (en_db e) @ [r]\<rparr>
       \<and> ws_uuid r = i \<and> ws_name r = name \<and> ws_inputs r = text \<and> ws_queue_name r = opt_str queue
       \<and> ws_status r = (if eo_delay opts = None then Enqueued else Delayed)
       \<and> ws_recovery_attempts r = 0
       \<and> ws_application_version r = opt_str (unwrap_or (eo_version opts) (ex_version ex))"
proof (rule client_enqueue_insert [OF assms(1,4)])
  fix created delay owner now e1
  let ?in = "\<lparr>in_status = enqueued_status ex queue name text
       (sz_name (resolve_encoder (cx_codec (ex_ctx ex)) False (cx_serializer (ex_ctx ex)))) opts i created delay,
     in_max_retries = DEFAULT_MAX_RECOVERY_ATTEMPTS, in_owner_xid = owner,
     in_increment_attempts = False, in_record_child = None\<rparr>"
  let ?r = "new_ws_row ?in (if eo_delay opts = None then Enqueued else Delayed) now"
  assume start: "client_enqueue ex queue name v opts e =
      (let (r, db) = insert_workflow_status ?in now (en_db e) in (map_ok (\<lambda>_. Polling i) r, e1\<lparr>en_db := db\<rparr>))"
  have "dedup_slot ?r = None"
    using assms(3) by (simp add: dedup_slot_def new_ws_row_def enqueued_status_def Let_def split: option.splits)
  then have "insert_workflow_status ?in now (en_db e)
      = (Inr (insert_result_of ?r), (en_db e)\<lparr>workflow_status := workflow_status (en_db e) @ [?r]\<rparr>)"
    by (intro insert_fresh) (use assms(2) in \<open>auto simp: enqueued_status_def dedup_taken_def\<close>)
  then show ?thesis
    unfolding start
    by (intro exI [of _ ?r]) (auto simp: new_ws_row_def enqueued_status_def initial_attempts_def Let_def)
qed

end
