(* ===== verification/Scheduler.thy ===== *)
theory Scheduler
  imports Manage
begin

text \<open>
  \<open>scheduler/engine.rs\<close>, \<open>scheduler/dynamic.rs\<close>, \<open>scheduler/mod.rs\<close>: firing a cron tick, the loop of a
  schedule, the backfill of missed ticks, the reconciler of the schedules table, and the management of
  schedules.  The crates \<open>cron\<close> and \<open>chrono\<close> are a parameter; \<open>cron_ok\<close> states what their documentation
  promises.  Instants are milliseconds of the epoch.
\<close>

subsection \<open>Cron expressions\<close>

record 'c cron =
  cr_parse :: "string \<Rightarrow> string + 'c"
  cr_next :: "'c \<Rightarrow> int \<Rightarrow> int option"
  cr_rfc3339 :: "int \<Rightarrow> string"
  cr_parse_time :: "string \<Rightarrow> int option"
  cr_time_json :: "int \<Rightarrow> json"

text \<open>\<open>Schedule::after\<close> yields the ticks strictly after an instant, in order; two instants have two
  texts.\<close>

definition cron_ok :: "'c cron \<Rightarrow> bool" where
  "cron_ok c \<longleftrightarrow>
     (\<forall>s t n. cr_next c s t = Some n \<longrightarrow> t < n \<and> (\<forall>u. t \<le> u \<and> u < n \<longrightarrow> cr_next c s u = Some n))
     \<and> (\<forall>s t. cr_next c s t = None \<longrightarrow> (\<forall>u. t \<le> u \<longrightarrow> cr_next c s u = None))
     \<and> inj (cr_rfc3339 c)"

definition is_tick :: "'c cron \<Rightarrow> 'c \<Rightarrow> int \<Rightarrow> bool" where
  "is_tick c s n \<longleftrightarrow> cr_next c s (n - 1) = Some n"

definition is_space :: "char \<Rightarrow> bool" where
  "is_space ch \<longleftrightarrow> ch \<in> {CHR '' '', CHR 0x09, CHR 0x0A, CHR 0x0B, CHR 0x0C, CHR 0x0D}"

definition trim :: "string \<Rightarrow> string" where
  "trim s = rev (dropWhile is_space (rev (dropWhile is_space s)))"

text \<open>The number of fields between white space.\<close>

fun field_count :: "string \<Rightarrow> nat" where
  "field_count [] = 0"
| "field_count [a] = (if is_space a then 0 else 1)"
| "field_count (a # b # s) = (if \<not> is_space a \<and> is_space b then 1 else 0) + field_count (b # s)"

definition parse_cron :: "'c cron \<Rightarrow> string \<Rightarrow> string + 'c" where
  "parse_cron c expr =
     (let trimmed = trim expr
      in cr_parse c (if field_count trimmed = 5 then ''0 '' @ trimmed else trimmed))"

definition invalid_cron :: "string \<Rightarrow> string \<Rightarrow> dbos_error" where
  "invalid_cron expr e =
     initialization (''invalid cron schedule '' @ debug_str expr @ '': '' @ e)"

definition register_scheduled_workflow ::
  "'c cron \<Rightarrow> string \<Rightarrow> string \<Rightarrow> 'w body \<Rightarrow> 'w executor \<Rightarrow> unit res \<times> 'w executor" where
  "register_scheduled_workflow c name schedule f ex =
     (case parse_cron c schedule of
        Inl e \<Rightarrow> (Inl (invalid_cron schedule e), ex)
      | Inr _ \<Rightarrow> register_workflow_opts name f (register_default\<lparr>ro_schedule := Some schedule\<rparr>) ex)"

subsection \<open>Firing a tick\<close>

definition tick_id :: "'c cron \<Rightarrow> string \<Rightarrow> int \<Rightarrow> string" where
  "tick_id c name t = ''sched-'' @ name @ ''-'' @ cr_rfc3339 c t"

definition tick_options :: "string \<Rightarrow> string \<Rightarrow> string option \<Rightarrow> run_options" where
  "tick_options i queue version =
     op_default\<lparr>op_workflow_id := Some i, op_queue := Some queue, op_version := version\<rparr>"

definition plain_encoder :: "ctx \<Rightarrow> serializer" where
  "plain_encoder cx = resolve_encoder (cx_codec cx) False (cx_serializer cx)"

text \<open>Both errors of \<open>fire\<close> are logged.\<close>

definition fire :: "'w executor \<Rightarrow> 'c cron \<Rightarrow> string \<Rightarrow> int \<Rightarrow> 'w rt \<Rightarrow> 'w rt" where
  "fire ex c name t rt =
     (case encode (plain_encoder (ex_ctx ex)) (cr_time_json c t) of
        Inl _ \<Rightarrow> rt
      | Inr text \<Rightarrow>
          snd (run_workflow_erased ex name text (sz_name (plain_encoder (ex_ctx ex)))
                (tick_options (tick_id c name t) DBOS_INTERNAL_QUEUE_NAME None) fl_default None rt))"

definition decode_context :: "codec \<Rightarrow> string \<Rightarrow> json" where
  "decode_context cd raw = (case cd_parse cd raw of Inl _ \<Rightarrow> JNull | Inr v \<Rightarrow> v)"

definition scheduled_input :: "'c cron \<Rightarrow> codec \<Rightarrow> schedule_row \<Rightarrow> int \<Rightarrow> json" where
  "scheduled_input c cd row t =
     JObject [(''scheduled_time'', cr_time_json c t), (''context'', decode_context cd (sr_context row))]"

definition tick_queue :: "schedule_row \<Rightarrow> string" where
  "tick_queue row =
     (case sr_queue_name row of
        None \<Rightarrow> DBOS_INTERNAL_QUEUE_NAME
      | Some q \<Rightarrow> if q = [] then DBOS_INTERNAL_QUEUE_NAME else q)"

text \<open>The start of the run of a tick of a stored schedule.\<close>

definition enqueue_tick ::
  "'w executor \<Rightarrow> 'c cron \<Rightarrow> schedule_row \<Rightarrow> string option \<Rightarrow> int \<Rightarrow> 'w rt \<Rightarrow> unit res \<times> 'w rt" where
  "enqueue_tick ex c row version t rt =
     (case encode (plain_encoder (ex_ctx ex)) (scheduled_input c (cx_codec (ex_ctx ex)) row t) of
        Inl e \<Rightarrow> (Inl e, rt)
      | Inr text \<Rightarrow>
          (let (r, rt) = run_workflow_erased ex (sr_workflow_name row) text
                 (sz_name (plain_encoder (ex_ctx ex)))
                 (tick_options (tick_id c (sr_name row) t) (tick_queue row) version) fl_default None rt
           in (map_ok (\<lambda>_. ()) r, rt)))"

definition fire_db :: "'w executor \<Rightarrow> 'c cron \<Rightarrow> schedule_row \<Rightarrow> int \<Rightarrow> 'w rt \<Rightarrow> 'w rt" where
  "fire_db ex c row t rt =
     (case enqueue_tick ex c row (get_latest_application_version (rt_db rt)) t rt of
        (Inl _, rt) \<Rightarrow> rt
      | (Inr _, rt) \<Rightarrow>
          snd (lift_db (\<lambda>db. ((), update_schedule_last_fired (sr_name row) (cr_rfc3339 c t) db)) rt))"

subsection \<open>The loops\<close>

text \<open>The loop of both kinds of schedule: wait for the next tick, stop when cancelled, fire.  It ends
  only by cancellation or at the end of the schedule; fuel counts the ticks.\<close>

fun schedule_loop :: "nat \<Rightarrow> 'c cron \<Rightarrow> 'c \<Rightarrow> (int \<Rightarrow> 'w rt \<Rightarrow> 'w rt) \<Rightarrow> 'w rt \<Rightarrow> 'w rt option" where
  "schedule_loop 0 c s fire_tick rt = None"
| "schedule_loop (Suc n) c s fire_tick rt =
     (let (now, rt) = lift_eng now_ms rt in
      case cr_next c s now of
        None \<Rightarrow> Some rt
      | Some next_tick \<Rightarrow>
          (let (cancelled, rt) = lift_eng nap rt in
           if cancelled then Some rt else schedule_loop n c s fire_tick (fire_tick next_tick rt)))"

definition run_schedule ::
  "nat \<Rightarrow> 'w executor \<Rightarrow> 'c cron \<Rightarrow> string \<Rightarrow> string \<Rightarrow> 'w rt \<Rightarrow> 'w rt option" where
  "run_schedule fuel ex c name expr rt =
     (case parse_cron c expr of
        Inl _ \<Rightarrow> Some rt
      | Inr s \<Rightarrow> schedule_loop fuel c s (fire ex c name) rt)"

definition run_db_schedule ::
  "nat \<Rightarrow> 'w executor \<Rightarrow> 'c cron \<Rightarrow> schedule_row \<Rightarrow> 'w rt \<Rightarrow> 'w rt option" where
  "run_db_schedule fuel ex c row rt =
     (case parse_cron c (sr_schedule row) of
        Inl _ \<Rightarrow> Some rt
      | Inr s \<Rightarrow> schedule_loop fuel c s (fire_db ex c row) rt)"

text \<open>The backfill; the position \<open>t\<close> is the last tick the iterator gave.\<close>

fun backfill_loop ::
  "nat \<Rightarrow> 'w executor \<Rightarrow> 'c cron \<Rightarrow> 'c \<Rightarrow> schedule_row \<Rightarrow> string option \<Rightarrow> int \<Rightarrow> int \<Rightarrow> 'w rt \<Rightarrow>
   (unit res \<times> 'w rt) option" where
  "backfill_loop 0 ex c s row version t stop rt = None"
| "backfill_loop (Suc k) ex c s row version t stop rt =
     (case cr_next c s t of
        None \<Rightarrow> Some (Inr (), rt)
      | Some n \<Rightarrow>
          if stop \<le> n then Some (Inr (), rt)
          else if get_workflow_status (tick_id c (sr_name row) n) (rt_db rt) \<noteq> None
          then backfill_loop k ex c s row version n stop rt
          else (case enqueue_tick ex c row version n rt of
                  (Inl e, rt) \<Rightarrow> Some (Inl e, rt)
                | (Inr _, rt) \<Rightarrow> backfill_loop k ex c s row version n stop rt))"

definition backfill ::
  "nat \<Rightarrow> 'w executor \<Rightarrow> 'c cron \<Rightarrow> schedule_row \<Rightarrow> int \<Rightarrow> int \<Rightarrow> 'w rt \<Rightarrow> (unit res \<times> 'w rt) option" where
  "backfill fuel ex c row start stop rt =
     (case parse_cron c (sr_schedule row) of
        Inl e \<Rightarrow> Some (Inl (initialization (''invalid cron schedule: '' @ e)), rt)
      | Inr s \<Rightarrow>
          backfill_loop fuel ex c s row (get_latest_application_version (rt_db rt)) start stop rt)"

subsection \<open>The reconciler\<close>

text \<open>The installed schedules by name, each with its id and the token of its firing task; the tokens
  cancelled so far; the firing tasks spawned, each a row and its token.\<close>

record installed =
  is_schedule_id :: string
  is_token :: nat

record firing =
  fg_row :: schedule_row
  fg_token :: nat

record scheduler =
  sc_installed :: "(string \<times> installed) list"
  sc_cancelled :: "nat list"
  sc_firing :: "firing list"
  sc_next_token :: nat

definition ACTIVE :: string where "ACTIVE = ''ACTIVE''"
definition PAUSED :: string where "PAUSED = ''PAUSED''"

definition remove_installed :: "string \<Rightarrow> scheduler \<Rightarrow> scheduler" where
  "remove_installed name sc =
     (case map_of (sc_installed sc) name of
        None \<Rightarrow> sc
      | Some i \<Rightarrow>
          sc\<lparr>sc_installed := AList.delete name (sc_installed sc),
             sc_cancelled := is_token i # sc_cancelled sc\<rparr>)"

definition cancel_all :: "scheduler \<Rightarrow> scheduler" where
  "cancel_all sc =
     sc\<lparr>sc_installed := [], sc_cancelled := map (is_token \<circ> snd) (sc_installed sc) @ sc_cancelled sc\<rparr>"

text \<open>\<open>current\<close>: the rows by name.  Phase 1 drops what is deleted, paused or replaced.\<close>

definition stale :: "(string \<times> schedule_row) list \<Rightarrow> string \<Rightarrow> installed \<Rightarrow> bool" where
  "stale current name i \<longleftrightarrow>
     (case map_of current name of
        None \<Rightarrow> True
      | Some row \<Rightarrow> sr_status row \<noteq> ACTIVE \<or> is_schedule_id i \<noteq> sr_id row)"

definition remove_stale :: "(string \<times> schedule_row) list \<Rightarrow> scheduler \<Rightarrow> scheduler" where
  "remove_stale current sc =
     fold (\<lambda>(name, i) sc. if stale current name i then remove_installed name sc else sc)
       (sc_installed sc) sc"

text \<open>Automatic backfill: from one second after the last fired tick to now; its error is logged.\<close>

definition auto_backfill ::
  "nat \<Rightarrow> 'w executor \<Rightarrow> 'c cron \<Rightarrow> schedule_row \<Rightarrow> 'w rt \<Rightarrow> 'w rt option" where
  "auto_backfill fuel ex c row rt =
     (if \<not> sr_automatic_backfill row then Some rt
      else case Option.bind (sr_last_fired_at row) (cr_parse_time c) of
             None \<Rightarrow> Some rt
           | Some last_fired \<Rightarrow>
               (let start = last_fired + 1000; (stop, rt) = lift_eng now_ms rt
                in if start < stop then map_option snd (backfill fuel ex c row start stop rt) else Some rt))"

definition install :: "schedule_row \<Rightarrow> scheduler \<Rightarrow> scheduler" where
  "install row sc =
     sc\<lparr>sc_installed := AList.update (sr_name row)
          \<lparr>is_schedule_id = sr_id row, is_token = sc_next_token sc\<rparr> (sc_installed sc),
        sc_firing := sc_firing sc @ [\<lparr>fg_row = row, fg_token = sc_next_token sc\<rparr>],
        sc_next_token := Suc (sc_next_token sc)\<rparr>"

text \<open>Phase 2 backfills and installs what is ACTIVE and not installed.\<close>

fun install_active ::
  "nat \<Rightarrow> 'w executor \<Rightarrow> 'c cron \<Rightarrow> schedule_row list \<Rightarrow> scheduler \<times> 'w rt \<Rightarrow> (scheduler \<times> 'w rt) option" where
  "install_active fuel ex c [] (sc, rt) = Some (sc, rt)"
| "install_active fuel ex c (row # rows) (sc, rt) =
     (if sr_status row \<noteq> ACTIVE \<or> map_of (sc_installed sc) (sr_name row) \<noteq> None
      then install_active fuel ex c rows (sc, rt)
      else case auto_backfill fuel ex c row rt of
             None \<Rightarrow> None
           | Some rt \<Rightarrow> install_active fuel ex c rows (install row sc, rt))"

definition reconcile ::
  "nat \<Rightarrow> 'w executor \<Rightarrow> 'c cron \<Rightarrow> scheduler \<times> 'w rt \<Rightarrow> (scheduler \<times> 'w rt) option" where
  "reconcile fuel ex c st =
     (case st of (sc, rt) \<Rightarrow>
        let rows = list_schedules (rt_db rt); current = map (\<lambda>r. (sr_name r, r)) rows
        in install_active fuel ex c rows (remove_stale current sc, rt))"

text \<open>The reconciler task: a pass when the executor is launched, then a wait that a cancellation ends.
  \<open>n\<close> counts the rounds.\<close>

fun run_reconciler ::
  "nat \<Rightarrow> nat \<Rightarrow> 'w executor \<Rightarrow> 'c cron \<Rightarrow> scheduler \<times> 'w rt \<Rightarrow> (scheduler \<times> 'w rt) option" where
  "run_reconciler 0 fuel ex c st = None"
| "run_reconciler (Suc n) fuel ex c st =
     (case (if ex_launched ex then reconcile fuel ex c st else Some st) of
        None \<Rightarrow> None
      | Some (sc, rt) \<Rightarrow>
          (let (cancelled, rt) = lift_eng nap rt
           in if cancelled then Some (cancel_all sc, rt) else run_reconciler n fuel ex c (sc, rt)))"

subsection \<open>Managing schedules\<close>

record create_options =
  co_schedule_name :: string
  co_workflow_name :: string
  co_schedule :: string
  co_context :: "json option"
  co_automatic_backfill :: bool
  co_cron_timezone :: "string option"
  co_queue_name :: "string option"
  co_workflow_class_name :: "string option"

definition created_row :: "codec \<Rightarrow> create_options \<Rightarrow> string \<Rightarrow> schedule_row" where
  "created_row cd opts i =
     \<lparr>sr_id = i, sr_name = co_schedule_name opts, sr_workflow_name = co_workflow_name opts,
      sr_workflow_class_name = non_empty_opt (co_workflow_class_name opts),
      sr_schedule = co_schedule opts, sr_status = ACTIVE,
      sr_context = cd_print cd (unwrap_or (co_context opts) JNull), sr_last_fired_at = None,
      sr_automatic_backfill = co_automatic_backfill opts,
      sr_cron_timezone = non_empty_opt (co_cron_timezone opts),
      sr_queue_name = non_empty_opt (co_queue_name opts)\<rparr>"

definition schedule_create ::
  "'w executor \<Rightarrow> 'c cron \<Rightarrow> create_options \<Rightarrow> 'w rt \<Rightarrow> string res \<times> 'w rt" where
  "schedule_create ex c opts rt =
     (if trim (co_schedule_name opts) = [] then (Inl (initialization ''schedule_name is required''), rt)
      else if trim (co_workflow_name opts) = [] then (Inl (initialization ''workflow_name is required''), rt)
      else if trim (co_schedule opts) = [] then (Inl (initialization ''schedule is required''), rt)
      else case parse_cron c (co_schedule opts) of
             Inl e \<Rightarrow> (Inl (invalid_cron (co_schedule opts) e), rt)
           | Inr _ \<Rightarrow>
               (let (i, rt) = lift_eng new_uuid rt;
                    (r, rt) = lift_db (create_schedule (created_row (cx_codec (ex_ctx ex)) opts i)) rt
                in (map_ok (\<lambda>_. i) r, rt)))"

definition schedule_set_status :: "string \<Rightarrow> string \<Rightarrow> sysdb \<Rightarrow> unit res \<times> sysdb" where
  "schedule_set_status name status db =
     (if name = [] then (Inl (initialization ''schedule_name is required''), db)
      else if get_schedule name db = None
      then (Inl (initialization (''schedule not found: '' @ name)), db)
      else (Inr (), set_schedule_status name status db))"

definition pause_schedule :: "string \<Rightarrow> sysdb \<Rightarrow> unit res \<times> sysdb" where
  "pause_schedule name = schedule_set_status name PAUSED"

definition resume_schedule :: "string \<Rightarrow> sysdb \<Rightarrow> unit res \<times> sysdb" where
  "resume_schedule name = schedule_set_status name ACTIVE"

definition delete_schedule :: "string \<Rightarrow> sysdb \<Rightarrow> unit res \<times> sysdb" where
  "delete_schedule name db =
     (if name = [] then (Inl (initialization ''schedule_name is required''), db)
      else (Inr (), delete_schedule_row name db))"

record workflow_schedule =
  wsc_row :: schedule_row
  wsc_context :: json

text \<open>\<open>From<ScheduleRow>\<close>: the row with its context decoded.\<close>

definition schedule_view :: "codec \<Rightarrow> schedule_row \<Rightarrow> workflow_schedule" where
  "schedule_view cd r = \<lparr>wsc_row = r, wsc_context = decode_context cd (sr_context r)\<rparr>"

definition schedule_get :: "codec \<Rightarrow> string \<Rightarrow> sysdb \<Rightarrow> workflow_schedule option" where
  "schedule_get cd name db = map_option (schedule_view cd) (get_schedule name db)"

definition schedule_list :: "codec \<Rightarrow> sysdb \<Rightarrow> workflow_schedule list" where
  "schedule_list cd db = map (schedule_view cd) (list_schedules db)"

end
