(* ===== verification/Protocol.thy ===== *)
theory Protocol
  imports Store_List Store_Schedules "HOL-Library.Monad_Syntax"
begin

text \<open>
  \<open>crates/dbos-server/src/conductor/protocol.rs\<close>: the messages of the conductor.  A request type of the
  source is the function that reads it from a JSON value, as \<open>serde\<close> derives it; a response type is the
  function that builds its JSON object, with the fields in the order of the source.  A frame is first
  parsed to a value, so a request in which a key occurs twice is not modelled.
\<close>

subsection \<open>Message types\<close>

datatype message =
    EXECUTOR_INFO | RECOVERY | CANCEL | RESUME | LIST_WORKFLOWS | LIST_QUEUED_WORKFLOWS | LIST_STEPS
  | GET_WORKFLOW | FORK_WORKFLOW | EXIST_PENDING_WORKFLOWS | RETENTION | GET_METRICS | EXPORT_WORKFLOW
  | IMPORT_WORKFLOW | DELETE | ALERT | LIST_SCHEDULES | GET_SCHEDULE | PAUSE_SCHEDULE | RESUME_SCHEDULE
  | BACKFILL_SCHEDULE | TRIGGER_SCHEDULE | GET_WORKFLOW_EVENTS | GET_WORKFLOW_NOTIFICATIONS
  | GET_WORKFLOW_STREAMS | GET_WORKFLOW_AGGREGATES | GET_STEP_AGGREGATES | LIST_APPLICATION_VERSIONS
  | SET_LATEST_APPLICATION_VERSION | LIST_QUEUES | GET_QUEUE

primrec msg :: "message \<Rightarrow> string" where
  "msg EXECUTOR_INFO = ''executor_info''"
| "msg RECOVERY = ''recovery''"
| "msg CANCEL = ''cancel''"
| "msg RESUME = ''resume''"
| "msg LIST_WORKFLOWS = ''list_workflows''"
| "msg LIST_QUEUED_WORKFLOWS = ''list_queued_workflows''"
| "msg LIST_STEPS = ''list_steps''"
| "msg GET_WORKFLOW = ''get_workflow''"
| "msg FORK_WORKFLOW = ''fork_workflow''"
| "msg EXIST_PENDING_WORKFLOWS = ''exist_pending_workflows''"
| "msg RETENTION = ''retention''"
| "msg GET_METRICS = ''get_metrics''"
| "msg EXPORT_WORKFLOW = ''export_workflow''"
| "msg IMPORT_WORKFLOW = ''import_workflow''"
| "msg DELETE = ''delete''"
| "msg ALERT = ''alert''"
| "msg LIST_SCHEDULES = ''list_schedules''"
| "msg GET_SCHEDULE = ''get_schedule''"
| "msg PAUSE_SCHEDULE = ''pause_schedule''"
| "msg RESUME_SCHEDULE = ''resume_schedule''"
| "msg BACKFILL_SCHEDULE = ''backfill_schedule''"
| "msg TRIGGER_SCHEDULE = ''trigger_schedule''"
| "msg GET_WORKFLOW_EVENTS = ''get_workflow_events''"
| "msg GET_WORKFLOW_NOTIFICATIONS = ''get_workflow_notifications''"
| "msg GET_WORKFLOW_STREAMS = ''get_workflow_streams''"
| "msg GET_WORKFLOW_AGGREGATES = ''get_workflow_aggregates''"
| "msg GET_STEP_AGGREGATES = ''get_step_aggregates''"
| "msg LIST_APPLICATION_VERSIONS = ''list_application_versions''"
| "msg SET_LATEST_APPLICATION_VERSION = ''set_latest_application_version''"
| "msg LIST_QUEUES = ''list_queues''"
| "msg GET_QUEUE = ''get_queue''"

definition all_messages :: "message list" where
  "all_messages =
     [EXECUTOR_INFO, RECOVERY, CANCEL, RESUME, LIST_WORKFLOWS, LIST_QUEUED_WORKFLOWS, LIST_STEPS,
      GET_WORKFLOW, FORK_WORKFLOW, EXIST_PENDING_WORKFLOWS, RETENTION, GET_METRICS, EXPORT_WORKFLOW,
      IMPORT_WORKFLOW, DELETE, ALERT, LIST_SCHEDULES, GET_SCHEDULE, PAUSE_SCHEDULE, RESUME_SCHEDULE,
      BACKFILL_SCHEDULE, TRIGGER_SCHEDULE, GET_WORKFLOW_EVENTS, GET_WORKFLOW_NOTIFICATIONS,
      GET_WORKFLOW_STREAMS, GET_WORKFLOW_AGGREGATES, GET_STEP_AGGREGATES, LIST_APPLICATION_VERSIONS,
      SET_LATEST_APPLICATION_VERSION, LIST_QUEUES, GET_QUEUE]"

text \<open>The match of the dispatcher on the raw string: the message type, or none for an unknown one.\<close>

definition message_of :: "string \<Rightarrow> message option" where
  "message_of t = List.find (\<lambda>m. msg m = t) all_messages"

text \<open>The wire strings are pairwise different, so the match is the inverse of \<open>msg\<close>.\<close>

lemma message_of_msg: "message_of (msg m) = Some m"
  by (cases m) (simp_all add: message_of_def all_messages_def)

lemma message_of_Some: "message_of t = Some m \<Longrightarrow> msg m = t"
  by (auto simp: message_of_def find_Some_iff)

subsection \<open>Reading requests\<close>

text \<open>
  A struct is read from an object, unknown keys ignored, or from an array by position; such an array
  reaches at least to the last field without a default, \<open>least\<close> long.  A field is looked up in what
  \<open>struct_fields\<close> gives; \<open>default_to\<close> is \<open>#[serde(default)]\<close>.
\<close>

type_synonym 'a reader = "json \<Rightarrow> 'a option"
type_synonym fields = "string \<Rightarrow> json option"

definition struct_fields :: "string list \<Rightarrow> nat \<Rightarrow> fields reader" where
  "struct_fields names least v =
     (case v of
        JObject kvs \<Rightarrow> Some (map_of kvs)
      | JArray vs \<Rightarrow>
          if least \<le> length vs \<and> length vs \<le> length names then Some (map_of (zip names vs)) else None
      | _ \<Rightarrow> None)"

definition required :: "fields \<Rightarrow> string \<Rightarrow> 'a reader \<Rightarrow> 'a option" where
  "required fs name r = Option.bind (fs name) r"

definition default_to :: "'a \<Rightarrow> fields \<Rightarrow> string \<Rightarrow> 'a reader \<Rightarrow> 'a option" where
  "default_to d fs name r = (case fs name of None \<Rightarrow> Some d | Some v \<Rightarrow> r v)"

text \<open>A field that the request type declares and nothing uses: a value of the wrong type still makes the
  request fail.\<close>

definition ignored :: "fields \<Rightarrow> 'a reader \<Rightarrow> string \<Rightarrow> bool" where
  "ignored fs r name \<longleftrightarrow> (case fs name of None \<Rightarrow> True | Some v \<Rightarrow> r v \<noteq> None)"

definition read_string :: "string reader" where
  "read_string v = (case v of JString s \<Rightarrow> Some s | _ \<Rightarrow> None)"

definition read_bool :: "bool reader" where
  "read_bool v = (case v of JBool b \<Rightarrow> Some b | _ \<Rightarrow> None)"

definition read_int :: "int \<Rightarrow> int \<Rightarrow> int reader" where
  "read_int lo hi v = (case v of JInt i \<Rightarrow> if lo \<le> i \<and> i \<le> hi then Some i else None | _ \<Rightarrow> None)"

abbreviation read_i64 :: "int reader" where
  "read_i64 \<equiv> read_int (- 9223372036854775808) 9223372036854775807"

abbreviation read_u64 :: "int reader" where
  "read_u64 \<equiv> read_int 0 18446744073709551615"

definition read_opt :: "'a reader \<Rightarrow> 'a option reader" where
  "read_opt r v = (if is_null v then Some None else map_option Some (r v))"

fun read_all :: "'a reader \<Rightarrow> json list \<Rightarrow> 'a list option" where
  "read_all r [] = Some []"
| "read_all r (v # vs) = do {x \<leftarrow> r v; xs \<leftarrow> read_all r vs; Some (x # xs)}"

definition read_list :: "'a reader \<Rightarrow> 'a list reader" where
  "read_list r v = (case v of JArray vs \<Rightarrow> read_all r vs | _ \<Rightarrow> None)"

definition read_map :: "'a reader \<Rightarrow> (string \<times> 'a) list reader" where
  "read_map r v =
     (case v of
        JObject kvs \<Rightarrow> map_option (zip (map fst kvs)) (read_all r (map snd kvs))
      | _ \<Rightarrow> None)"

definition read_string_or_list :: "string list reader" where
  "read_string_or_list v =
     (case v of
        JNull \<Rightarrow> Some []
      | JString s \<Rightarrow> Some [s]
      | _ \<Rightarrow> read_list read_string v)"

record base_message =
  bm_type :: string
  bm_request_id :: string

definition read_base_message :: "base_message reader" where
  "read_base_message v = do {
     fs \<leftarrow> struct_fields [''type'', ''request_id''] 2 v;
     t \<leftarrow> required fs ''type'' read_string;
     r \<leftarrow> required fs ''request_id'' read_string;
     Some \<lparr>bm_type = t, bm_request_id = r\<rparr>}"

definition read_recovery_request :: "string list reader" where
  "read_recovery_request v = do {
     fs \<leftarrow> struct_fields [''executor_ids''] 0 v;
     default_to [] fs ''executor_ids'' (read_list read_string)}"

record workflow_ids_request =
  wr_workflow_id :: string
  wr_workflow_ids :: "string list"
  wr_queue_name :: "string option"
  wr_delete_children :: bool

definition read_workflow_ids_request :: "workflow_ids_request reader" where
  "read_workflow_ids_request v = do {
     fs \<leftarrow> struct_fields [''workflow_id'', ''workflow_ids'', ''queue_name'', ''delete_children''] 0 v;
     i \<leftarrow> default_to [] fs ''workflow_id'' read_string;
     is \<leftarrow> default_to [] fs ''workflow_ids'' (read_list read_string);
     q \<leftarrow> default_to None fs ''queue_name'' (read_opt read_string);
     d \<leftarrow> default_to False fs ''delete_children'' read_bool;
     Some \<lparr>wr_workflow_id = i, wr_workflow_ids = is, wr_queue_name = q, wr_delete_children = d\<rparr>}"

definition resolve_ids :: "workflow_ids_request \<Rightarrow> string list" where
  "resolve_ids req =
     (if wr_workflow_ids req \<noteq> [] then wr_workflow_ids req
      else if wr_workflow_id req \<noteq> [] then [wr_workflow_id req] else [])"

text \<open>The filters of \<open>list_workflows\<close> that the database supports.\<close>

record list_body =
  lb_workflow_uuids :: "string list"
  lb_workflow_name :: "string list"
  lb_status :: "string list"
  lb_application_version :: "string list"
  lb_executor_id :: "string list"
  lb_limit :: "int option"
  lb_offset :: "int option"
  lb_sort_desc :: bool
  lb_load_input :: bool
  lb_load_output :: bool
  lb_queues_only :: bool

definition empty_list_body :: list_body where
  "empty_list_body =
     \<lparr>lb_workflow_uuids = [], lb_workflow_name = [], lb_status = [], lb_application_version = [],
      lb_executor_id = [], lb_limit = None, lb_offset = None, lb_sort_desc = False,
      lb_load_input = False, lb_load_output = False, lb_queues_only = False\<rparr>"

definition list_body_names :: "string list" where
  "list_body_names =
     [''workflow_uuids'', ''workflow_name'', ''authenticated_user'', ''status'',
      ''application_version'', ''queue_name'', ''executor_id'', ''workflow_id_prefix'', ''limit'',
      ''offset'', ''sort_desc'', ''load_input'', ''load_output'', ''queues_only'', ''start_time'',
      ''end_time'', ''completed_after'', ''completed_before'', ''dequeued_after'', ''dequeued_before'',
      ''forked_from'', ''parent_workflow_id'', ''was_forked_from'', ''has_parent'']"

definition read_list_body :: "list_body reader" where
  "read_list_body v = do {
     fs \<leftarrow> struct_fields list_body_names 0 v;
     ids \<leftarrow> default_to [] fs ''workflow_uuids'' (read_list read_string);
     name \<leftarrow> default_to [] fs ''workflow_name'' read_string_or_list;
     status \<leftarrow> default_to [] fs ''status'' read_string_or_list;
     version \<leftarrow> default_to [] fs ''application_version'' read_string_or_list;
     executor \<leftarrow> default_to [] fs ''executor_id'' read_string_or_list;
     limit \<leftarrow> default_to None fs ''limit'' (read_opt read_i64);
     offset \<leftarrow> default_to None fs ''offset'' (read_opt read_i64);
     desc \<leftarrow> default_to False fs ''sort_desc'' read_bool;
     inp \<leftarrow> default_to False fs ''load_input'' read_bool;
     outp \<leftarrow> default_to False fs ''load_output'' read_bool;
     queues \<leftarrow> default_to False fs ''queues_only'' read_bool;
     if list_all (ignored fs read_string_or_list)
          [''authenticated_user'', ''queue_name'', ''workflow_id_prefix'', ''forked_from'',
           ''parent_workflow_id'']
        \<and> list_all (ignored fs (read_opt read_string))
          [''start_time'', ''end_time'', ''completed_after'', ''completed_before'', ''dequeued_after'',
           ''dequeued_before'']
        \<and> list_all (ignored fs (read_opt read_bool)) [''was_forked_from'', ''has_parent'']
     then Some \<lparr>lb_workflow_uuids = ids, lb_workflow_name = name, lb_status = status,
       lb_application_version = version, lb_executor_id = executor, lb_limit = limit,
       lb_offset = offset, lb_sort_desc = desc, lb_load_input = inp, lb_load_output = outp,
       lb_queues_only = queues\<rparr>
     else None}"

definition read_list_workflows_request :: "list_body reader" where
  "read_list_workflows_request v = do {
     fs \<leftarrow> struct_fields [''body''] 0 v;
     default_to empty_list_body fs ''body'' read_list_body}"

definition read_list_steps_request :: "string reader" where
  "read_list_steps_request v = do {
     fs \<leftarrow> struct_fields [''workflow_id'', ''load_output'', ''limit'', ''offset''] 1 v;
     i \<leftarrow> required fs ''workflow_id'' read_string;
     if ignored fs read_bool ''load_output'' \<and> ignored fs (read_opt read_i64) ''limit''
        \<and> ignored fs (read_opt read_i64) ''offset''
     then Some i else None}"

record get_workflow_request =
  gw_workflow_id :: string
  gw_load_input :: bool
  gw_load_output :: bool

definition read_get_workflow_request :: "get_workflow_request reader" where
  "read_get_workflow_request v = do {
     fs \<leftarrow> struct_fields [''workflow_id'', ''load_input'', ''load_output''] 1 v;
     i \<leftarrow> required fs ''workflow_id'' read_string;
     inp \<leftarrow> default_to False fs ''load_input'' read_bool;
     outp \<leftarrow> default_to False fs ''load_output'' read_bool;
     Some \<lparr>gw_workflow_id = i, gw_load_input = inp, gw_load_output = outp\<rparr>}"

record fork_body =
  fb_workflow_id :: string
  fb_start_step :: int
  fb_application_version :: "string option"
  fb_new_workflow_id :: "string option"
  fb_queue_name :: "string option"

definition read_fork_body :: "fork_body reader" where
  "read_fork_body v = do {
     fs \<leftarrow> struct_fields [''workflow_id'', ''start_step'', ''application_version'', ''new_workflow_id'',
             ''queue_name'', ''queue_partition_key''] 1 v;
     i \<leftarrow> required fs ''workflow_id'' read_string;
     s \<leftarrow> default_to 0 fs ''start_step'' read_i64;
     a \<leftarrow> default_to None fs ''application_version'' (read_opt read_string);
     n \<leftarrow> default_to None fs ''new_workflow_id'' (read_opt read_string);
     q \<leftarrow> default_to None fs ''queue_name'' (read_opt read_string);
     if ignored fs (read_opt read_string) ''queue_partition_key''
     then Some \<lparr>fb_workflow_id = i, fb_start_step = s, fb_application_version = a,
                fb_new_workflow_id = n, fb_queue_name = q\<rparr>
     else None}"

definition read_fork_request :: "fork_body reader" where
  "read_fork_request v = do {
     fs \<leftarrow> struct_fields [''body''] 1 v;
     required fs ''body'' read_fork_body}"

record exist_pending_request =
  ep_executor_id :: string
  ep_application_version :: string

definition read_exist_pending_request :: "exist_pending_request reader" where
  "read_exist_pending_request v = do {
     fs \<leftarrow> struct_fields [''executor_id'', ''application_version''] 0 v;
     e \<leftarrow> default_to [] fs ''executor_id'' read_string;
     a \<leftarrow> default_to [] fs ''application_version'' read_string;
     Some \<lparr>ep_executor_id = e, ep_application_version = a\<rparr>}"

record retention_body =
  rb_gc_cutoff_epoch_ms :: "int option"
  rb_gc_rows_threshold :: "int option"
  rb_timeout_cutoff_epoch_ms :: "int option"

definition read_retention_body :: "retention_body reader" where
  "read_retention_body v = do {
     fs \<leftarrow> struct_fields [''gc_cutoff_epoch_ms'', ''gc_rows_threshold'', ''timeout_cutoff_epoch_ms''] 0 v;
     c \<leftarrow> default_to None fs ''gc_cutoff_epoch_ms'' (read_opt read_i64);
     n \<leftarrow> default_to None fs ''gc_rows_threshold'' (read_opt read_i64);
     t \<leftarrow> default_to None fs ''timeout_cutoff_epoch_ms'' (read_opt read_i64);
     Some \<lparr>rb_gc_cutoff_epoch_ms = c, rb_gc_rows_threshold = n, rb_timeout_cutoff_epoch_ms = t\<rparr>}"

definition read_retention_request :: "retention_body reader" where
  "read_retention_request v = do {
     fs \<leftarrow> struct_fields [''body''] 1 v;
     required fs ''body'' read_retention_body}"

text \<open>The body of \<open>list_schedules\<close>: only \<open>load_context\<close> is used.\<close>

definition read_list_schedules_body :: "bool option reader" where
  "read_list_schedules_body v = do {
     fs \<leftarrow> struct_fields [''status'', ''workflow_name'', ''schedule_name_prefix'', ''load_context''] 0 v;
     l \<leftarrow> default_to None fs ''load_context'' (read_opt read_bool);
     if list_all (ignored fs read_string_or_list) [''status'', ''workflow_name'', ''schedule_name_prefix'']
     then Some l else None}"

definition read_list_schedules_request :: "bool option reader" where
  "read_list_schedules_request v = do {
     fs \<leftarrow> struct_fields [''body''] 0 v;
     default_to None fs ''body'' read_list_schedules_body}"

definition read_get_schedule_request :: "(string \<times> bool option) reader" where
  "read_get_schedule_request v = do {
     fs \<leftarrow> struct_fields [''schedule_name'', ''load_context''] 1 v;
     n \<leftarrow> required fs ''schedule_name'' read_string;
     l \<leftarrow> default_to None fs ''load_context'' (read_opt read_bool);
     Some (n, l)}"

text \<open>The requests with one required string: a schedule, a workflow, a version, a queue.\<close>

definition read_name :: "string \<Rightarrow> string reader" where
  "read_name name v = do {
     fs \<leftarrow> struct_fields [name] 1 v;
     required fs name read_string}"

definition read_schedule_name_request :: "string reader" where
  "read_schedule_name_request = read_name ''schedule_name''"

definition read_workflow_id_request :: "string reader" where
  "read_workflow_id_request = read_name ''workflow_id''"

definition read_set_latest_request :: "string reader" where
  "read_set_latest_request = read_name ''version_name''"

definition read_get_queue_request :: "string reader" where
  "read_get_queue_request = read_name ''name''"

definition read_alert_request :: "unit reader" where
  "read_alert_request v = do {
     fs \<leftarrow> struct_fields [''name'', ''message'', ''metadata''] 0 v;
     if ignored fs read_string ''name'' \<and> ignored fs read_string ''message''
        \<and> ignored fs (read_map read_string) ''metadata''
     then Some () else None}"

subsection \<open>Building responses\<close>

record base_response =
  br_type :: string
  br_request_id :: string
  br_error_message :: "string option"

definition base_ok :: "string \<Rightarrow> string \<Rightarrow> base_response" where
  "base_ok t r = \<lparr>br_type = t, br_request_id = r, br_error_message = None\<rparr>"

definition base_err :: "string \<Rightarrow> string \<Rightarrow> string \<Rightarrow> base_response" where
  "base_err t r m = \<lparr>br_type = t, br_request_id = r, br_error_message = Some m\<rparr>"

text \<open>An optional field: left out (\<open>skip_serializing_if\<close>) or \<open>null\<close>.\<close>

definition skip_none :: "string \<Rightarrow> ('a \<Rightarrow> json) \<Rightarrow> 'a option \<Rightarrow> (string \<times> json) list" where
  "skip_none k f v = (case v of None \<Rightarrow> [] | Some x \<Rightarrow> [(k, f x)])"

definition nullable :: "('a \<Rightarrow> json) \<Rightarrow> 'a option \<Rightarrow> json" where
  "nullable f v = (case v of None \<Rightarrow> JNull | Some x \<Rightarrow> f x)"

definition base_fields :: "base_response \<Rightarrow> (string \<times> json) list" where
  "base_fields b =
     [(''type'', JString (br_type b)), (''request_id'', JString (br_request_id b))]
     @ skip_none ''error_message'' JString (br_error_message b)"

text \<open>A response: the flattened base and the fields of its type.\<close>

definition response :: "base_response \<Rightarrow> (string \<times> json) list \<Rightarrow> json" where
  "response b fs = JObject (base_fields b @ fs)"

definition executor_info_response ::
  "base_response \<Rightarrow> string \<Rightarrow> string \<Rightarrow> string option \<Rightarrow> string \<Rightarrow> string \<Rightarrow> json" where
  "executor_info_response b executor_id version hostname dbos_version language =
     response b ([(''executor_id'', JString executor_id), (''application_version'', JString version)]
       @ skip_none ''hostname'' JString hostname
       @ [(''dbos_version'', JString dbos_version), (''language'', JString language)])"

definition success_response :: "base_response \<Rightarrow> bool \<Rightarrow> json" where
  "success_response b success = response b [(''success'', JBool success)]"

record list_row =
  lr_workflow_uuid :: string
  lr_status :: "string option"
  lr_workflow_name :: "string option"
  lr_workflow_class_name :: "string option"
  lr_workflow_config_name :: "string option"
  lr_authenticated_user :: "string option"
  lr_assumed_role :: "string option"
  lr_authenticated_roles :: "string option"
  lr_input :: "string option"
  lr_output :: "string option"
  lr_error :: "string option"
  lr_created_at :: "string option"
  lr_updated_at :: "string option"
  lr_queue_name :: "string option"
  lr_application_version :: "string option"
  lr_executor_id :: "string option"
  lr_timeout_ms :: "string option"
  lr_deadline_epoch_ms :: "string option"
  lr_deduplication_id :: "string option"
  lr_priority :: string
  lr_queue_partition_key :: "string option"
  lr_forked_from :: "string option"
  lr_was_forked_from :: bool
  lr_parent_workflow_id :: "string option"
  lr_dequeued_at :: "string option"
  lr_delay_until_epoch_ms :: "string option"
  lr_completed_at :: "string option"

definition list_row_json :: "list_row \<Rightarrow> json" where
  "list_row_json r =
     JObject ([(''WorkflowUUID'', JString (lr_workflow_uuid r))]
       @ skip_none ''Status'' JString (lr_status r)
       @ skip_none ''WorkflowName'' JString (lr_workflow_name r)
       @ skip_none ''WorkflowClassName'' JString (lr_workflow_class_name r)
       @ skip_none ''WorkflowConfigName'' JString (lr_workflow_config_name r)
       @ skip_none ''AuthenticatedUser'' JString (lr_authenticated_user r)
       @ skip_none ''AssumedRole'' JString (lr_assumed_role r)
       @ skip_none ''AuthenticatedRoles'' JString (lr_authenticated_roles r)
       @ skip_none ''Input'' JString (lr_input r)
       @ skip_none ''Output'' JString (lr_output r)
       @ skip_none ''Error'' JString (lr_error r)
       @ skip_none ''CreatedAt'' JString (lr_created_at r)
       @ skip_none ''UpdatedAt'' JString (lr_updated_at r)
       @ skip_none ''QueueName'' JString (lr_queue_name r)
       @ skip_none ''ApplicationVersion'' JString (lr_application_version r)
       @ skip_none ''ExecutorID'' JString (lr_executor_id r)
       @ skip_none ''WorkflowTimeoutMS'' JString (lr_timeout_ms r)
       @ skip_none ''WorkflowDeadlineEpochMS'' JString (lr_deadline_epoch_ms r)
       @ skip_none ''DeduplicationID'' JString (lr_deduplication_id r)
       @ [(''Priority'', JString (lr_priority r))]
       @ skip_none ''QueuePartitionKey'' JString (lr_queue_partition_key r)
       @ skip_none ''ForkedFrom'' JString (lr_forked_from r)
       @ [(''WasForkedFrom'', JBool (lr_was_forked_from r))]
       @ skip_none ''ParentWorkflowID'' JString (lr_parent_workflow_id r)
       @ skip_none ''DequeuedAt'' JString (lr_dequeued_at r)
       @ skip_none ''DelayUntilEpochMS'' JString (lr_delay_until_epoch_ms r)
       @ skip_none ''CompletedAt'' JString (lr_completed_at r))"

definition list_workflows_response :: "base_response \<Rightarrow> list_row list \<Rightarrow> json" where
  "list_workflows_response b rows = response b [(''output'', JArray (map list_row_json rows))]"

record step_row =
  sw_function_id :: int
  sw_function_name :: string
  sw_output :: "string option"
  sw_error :: "string option"
  sw_child_workflow_id :: "string option"
  sw_started_at_epoch_ms :: "string option"
  sw_completed_at_epoch_ms :: "string option"

definition step_row_json :: "step_row \<Rightarrow> json" where
  "step_row_json r =
     JObject ([(''function_id'', JInt (sw_function_id r)), (''function_name'', JString (sw_function_name r))]
       @ skip_none ''output'' JString (sw_output r)
       @ skip_none ''error'' JString (sw_error r)
       @ skip_none ''child_workflow_id'' JString (sw_child_workflow_id r)
       @ skip_none ''started_at_epoch_ms'' JString (sw_started_at_epoch_ms r)
       @ skip_none ''completed_at_epoch_ms'' JString (sw_completed_at_epoch_ms r))"

definition list_steps_response :: "base_response \<Rightarrow> step_row list option \<Rightarrow> json" where
  "list_steps_response b rows = response b (skip_none ''output'' (\<lambda>rs. JArray (map step_row_json rs)) rows)"

definition get_workflow_response :: "base_response \<Rightarrow> list_row option \<Rightarrow> json" where
  "get_workflow_response b row = response b (skip_none ''output'' list_row_json row)"

definition fork_workflow_response :: "base_response \<Rightarrow> string option \<Rightarrow> json" where
  "fork_workflow_response b i = response b (skip_none ''new_workflow_id'' JString i)"

definition exist_pending_response :: "base_response \<Rightarrow> bool \<Rightarrow> json" where
  "exist_pending_response b exist = response b [(''exist'', JBool exist)]"

definition workflow_aggregates_response :: "base_response \<Rightarrow> json list \<Rightarrow> json" where
  "workflow_aggregates_response b rows = response b [(''output'', JArray rows)]"

text \<open>A schedule on the wire: the stored row with what \<open>schedule_to_row\<close> makes of its fields; an absent
  field is \<open>null\<close>.\<close>

record schedule_wire =
  sx_schedule_id :: string
  sx_schedule_name :: string
  sx_workflow_name :: string
  sx_workflow_class_name :: "string option"
  sx_schedule :: string
  sx_status :: string
  sx_context :: "string option"
  sx_last_fired_at :: "string option"
  sx_automatic_backfill :: bool
  sx_cron_timezone :: "string option"
  sx_queue_name :: "string option"

definition schedule_wire_json :: "schedule_wire \<Rightarrow> json" where
  "schedule_wire_json s =
     JObject
       [(''schedule_id'', JString (sx_schedule_id s)), (''schedule_name'', JString (sx_schedule_name s)),
        (''workflow_name'', JString (sx_workflow_name s)),
        (''workflow_class_name'', nullable JString (sx_workflow_class_name s)),
        (''schedule'', JString (sx_schedule s)), (''status'', JString (sx_status s)),
        (''context'', nullable JString (sx_context s)),
        (''last_fired_at'', nullable JString (sx_last_fired_at s)),
        (''automatic_backfill'', JBool (sx_automatic_backfill s)),
        (''cron_timezone'', nullable JString (sx_cron_timezone s)),
        (''queue_name'', nullable JString (sx_queue_name s))]"

definition list_schedules_response :: "base_response \<Rightarrow> schedule_wire list \<Rightarrow> json" where
  "list_schedules_response b rows = response b [(''output'', JArray (map schedule_wire_json rows))]"

definition get_schedule_response :: "base_response \<Rightarrow> schedule_wire option \<Rightarrow> json" where
  "get_schedule_response b row = response b [(''output'', nullable schedule_wire_json row)]"

definition event_output :: "string \<Rightarrow> string \<Rightarrow> json" where
  "event_output k v = JObject [(''key'', JString k), (''value'', JString v)]"

definition events_response :: "base_response \<Rightarrow> json list \<Rightarrow> json" where
  "events_response b rows = response b [(''events'', JArray rows)]"

definition notification_output :: "string option \<Rightarrow> string \<Rightarrow> int \<Rightarrow> bool \<Rightarrow> json" where
  "notification_output topic m created consumed =
     JObject [(''topic'', nullable JString topic), (''message'', JString m),
              (''created_at_epoch_ms'', JInt created), (''consumed'', JBool consumed)]"

definition notifications_response :: "base_response \<Rightarrow> json list \<Rightarrow> json" where
  "notifications_response b rows = response b [(''notifications'', JArray rows)]"

definition stream_entry_output :: "string \<times> string list \<Rightarrow> json" where
  "stream_entry_output e = JObject [(''key'', JString (fst e)), (''values'', JArray (map JString (snd e)))]"

definition streams_response :: "base_response \<Rightarrow> (string \<times> string list) list \<Rightarrow> json" where
  "streams_response b es = response b [(''streams'', JArray (map stream_entry_output es))]"

definition step_aggregate_row :: "string \<times> int \<Rightarrow> json" where
  "step_aggregate_row r = JObject [(''step_name'', JString (fst r)), (''count'', JInt (snd r))]"

definition step_aggregates_response :: "base_response \<Rightarrow> (string \<times> int) list \<Rightarrow> json" where
  "step_aggregates_response b rows = response b [(''output'', JArray (map step_aggregate_row rows))]"

definition application_version_output :: "string \<times> string \<times> int \<times> int \<Rightarrow> json" where
  "application_version_output r =
     (case r of (i, name, timestamp, created) \<Rightarrow>
        JObject [(''version_id'', JString i), (''version_name'', JString name),
                 (''version_timestamp'', JInt timestamp), (''created_at'', JInt created)])"

definition application_versions_response ::
  "base_response \<Rightarrow> (string \<times> string \<times> int \<times> int) list \<Rightarrow> json" where
  "application_versions_response b rows =
     response b [(''output'', JArray (map application_version_output rows))]"

text \<open>A queue on the wire; the two durations in seconds are floats, given by their text.\<close>

record queue_output =
  qo_name :: string
  qo_concurrency :: "int option"
  qo_worker_concurrency :: "int option"
  qo_rate_limit_max :: "int option"
  qo_rate_limit_period_sec :: "string option"
  qo_priority_enabled :: bool
  qo_partition_queue :: bool
  qo_polling_interval_sec :: string

definition queue_output_json :: "queue_output \<Rightarrow> json" where
  "queue_output_json q =
     JObject
       [(''name'', JString (qo_name q)), (''concurrency'', nullable JInt (qo_concurrency q)),
        (''worker_concurrency'', nullable JInt (qo_worker_concurrency q)),
        (''rate_limit_max'', nullable JInt (qo_rate_limit_max q)),
        (''rate_limit_period_sec'', nullable JFloat (qo_rate_limit_period_sec q)),
        (''priority_enabled'', JBool (qo_priority_enabled q)),
        (''partition_queue'', JBool (qo_partition_queue q)),
        (''polling_interval_sec'', JFloat (qo_polling_interval_sec q))]"

definition list_queues_response :: "base_response \<Rightarrow> queue_output list \<Rightarrow> json" where
  "list_queues_response b qs = response b [(''output'', JArray (map queue_output_json qs))]"

definition get_queue_response :: "base_response \<Rightarrow> queue_output option \<Rightarrow> json" where
  "get_queue_response b q = response b [(''output'', nullable queue_output_json q)]"

subsection \<open>Every response has a well-formed base\<close>

text \<open>A response value echoes the type and the request id; a message, where there is one, is text.\<close>

definition answers :: "string \<Rightarrow> string \<Rightarrow> json \<Rightarrow> bool" where
  "answers t r v \<longleftrightarrow>
     (\<exists>kvs. v = JObject kvs \<and> map_of kvs ''type'' = Some (JString t)
        \<and> map_of kvs ''request_id'' = Some (JString r))"

definition error_message :: "json \<Rightarrow> string option" where
  "error_message v =
     (case v of
        JObject kvs \<Rightarrow> (case map_of kvs ''error_message'' of Some (JString m) \<Rightarrow> Some m | _ \<Rightarrow> None)
      | _ \<Rightarrow> None)"

lemma answers_response [simp]:
  "answers t r (response b fs) \<longleftrightarrow> br_type b = t \<and> br_request_id b = r"
  by (auto simp: answers_def response_def base_fields_def)

lemma base_simps [simp]:
  "br_type (base_ok t r) = t" "br_request_id (base_ok t r) = r" "br_error_message (base_ok t r) = None"
  "br_type (base_err t r m) = t" "br_request_id (base_err t r m) = r"
  "br_error_message (base_err t r m) = Some m"
  by (simp_all add: base_ok_def base_err_def)

lemma error_message_response:
  "error_message (response b fs)
     = (case br_error_message b of Some m \<Rightarrow> Some m | None \<Rightarrow> error_message (JObject fs))"
  by (auto simp: error_message_def response_def base_fields_def skip_none_def split: option.splits)

lemmas response_defs =
  executor_info_response_def success_response_def list_workflows_response_def list_steps_response_def
  get_workflow_response_def fork_workflow_response_def exist_pending_response_def
  workflow_aggregates_response_def list_schedules_response_def get_schedule_response_def
  events_response_def notifications_response_def streams_response_def step_aggregates_response_def
  application_versions_response_def list_queues_response_def get_queue_response_def

end
