(* ===== verification/Conductor.thy ===== *)
theory Conductor
  imports Scheduler Protocol
begin

text \<open>
  \<open>crates/dbos-server/src/conductor/handlers.rs\<close> and \<open>handle_message\<close> of \<open>conductor/mod.rs\<close>: what an
  executor answers to a frame of the conductor.  A handler takes the request that was read from the
  frame and gives a response value; reading the request and printing the response are common to all.
  A handler returns \<open>None\<close> where it never ends, which only a deletion can do.  The socket, its
  reconnections and its pings are not modelled.
\<close>

subsection \<open>Helpers\<close>

text \<open>What the handlers take from outside the repository: the variable \<open>HOSTNAME\<close>, the version of the
  crate, and the text of a duration in seconds as a float.\<close>

record conductor_env =
  cv_hostname :: "string option"
  cv_version :: string
  cv_secs_text :: "int \<Rightarrow> string"

definition parse_frame :: "codec \<Rightarrow> 'a reader \<Rightarrow> string \<Rightarrow> string + 'a" where
  "parse_frame cd r data =
     (case cd_parse cd data of
        Inl e \<Rightarrow> Inl e
      | Inr v \<Rightarrow> (case r v of None \<Rightarrow> Inl (cd_type_error cd v) | Some x \<Rightarrow> Inr x))"

definition parse_request :: "codec \<Rightarrow> 'a reader \<Rightarrow> string \<Rightarrow> string + 'a" where
  "parse_request cd r data =
     (case parse_frame cd r data of
        Inl e \<Rightarrow> Inl (''failed to parse request: '' @ e)
      | Inr x \<Rightarrow> Inr x)"

definition epoch_ms_string :: "int \<Rightarrow> string option" where
  "epoch_ms_string ms = (if ms = 0 then None else Some (show_int ms))"

definition epoch_ms_string_opt :: "int option \<Rightarrow> string option" where
  "epoch_ms_string_opt ms = Option.bind ms epoch_ms_string"

text \<open>The \<open>{success}\<close> response of an operation that reports an error or not.\<close>

definition respond_success :: "message \<Rightarrow> string \<Rightarrow> string option \<Rightarrow> json" where
  "respond_success m rid error =
     success_response
       (case error of Some e \<Rightarrow> base_err (msg m) rid e | None \<Rightarrow> base_ok (msg m) rid) (error = None)"

definition failure :: "string \<Rightarrow> 'a res \<Rightarrow> string option" where
  "failure prefix r = (case r of Inl e \<Rightarrow> Some (prefix @ error_display e) | Inr _ \<Rightarrow> None)"

text \<open>The loops of \<open>cancel\<close> and \<open>resume\<close> over the ids: they stop at the first error.\<close>

fun each_id :: "(string \<Rightarrow> 'w rt \<Rightarrow> 'a res \<times> 'w rt) \<Rightarrow> string list \<Rightarrow> 'w rt \<Rightarrow> unit res \<times> 'w rt" where
  "each_id f [] rt = (Inr (), rt)"
| "each_id f (i # is) rt =
     (case f i rt of
        (Inl e, rt) \<Rightarrow> (Inl e, rt)
      | (Inr _, rt) \<Rightarrow> each_id f is rt)"

subsection \<open>The executor, recovery, cancel, resume, delete\<close>

definition handle_executor_info :: "conductor_env \<Rightarrow> 'w executor \<Rightarrow> string \<Rightarrow> json" where
  "handle_executor_info env ex rid =
     executor_info_response (base_ok (msg EXECUTOR_INFO) rid) (ex_executor_id ex) (ex_version ex)
       (non_empty_opt (cv_hostname env)) (cv_version env) ''rust''"

definition handle_recovery :: "'w executor \<Rightarrow> string \<Rightarrow> string list \<Rightarrow> 'w rt \<Rightarrow> json \<times> 'w rt" where
  "handle_recovery ex rid executor_ids rt =
     (let (r, rt) = recover_pending_workflows ex executor_ids rt
      in (respond_success RECOVERY rid (failure ''failed to recover pending workflows: '' r), rt))"

definition handle_cancel :: "string \<Rightarrow> workflow_ids_request \<Rightarrow> 'w rt \<Rightarrow> json \<times> 'w rt" where
  "handle_cancel rid req rt =
     (let (r, rt) = each_id manage_cancel (resolve_ids req) rt
      in (respond_success CANCEL rid (failure ''failed to cancel workflows: '' r), rt))"

definition handle_resume :: "string \<Rightarrow> workflow_ids_request \<Rightarrow> 'w rt \<Rightarrow> json \<times> 'w rt" where
  "handle_resume rid req rt =
     (let (r, rt) = each_id manage_resume (resolve_ids req) rt
      in (respond_success RESUME rid (failure ''failed to resume workflows: '' r), rt))"

text \<open>A deletion reports no error of its own, but it may not end.\<close>

fun delete_each :: "nat \<Rightarrow> bool \<Rightarrow> string list \<Rightarrow> sysdb \<Rightarrow> sysdb option" where
  "delete_each fuel children [] db = Some db"
| "delete_each fuel children (i # is) db =
     Option.bind (manage_delete fuel i children db) (delete_each fuel children is)"

definition handle_delete :: "nat \<Rightarrow> string \<Rightarrow> workflow_ids_request \<Rightarrow> 'w rt \<Rightarrow> (json \<times> 'w rt) option" where
  "handle_delete fuel rid req rt =
     map_option (\<lambda>db. (respond_success DELETE rid None, snd (lift_db (\<lambda>_. ((), db)) rt)))
       (delete_each fuel (wr_delete_children req) (resolve_ids req) (rt_db rt))"

subsection \<open>Listing workflows and steps\<close>

definition filter_map :: "('a \<Rightarrow> 'b option) \<Rightarrow> 'a list \<Rightarrow> 'b list" where
  "filter_map f xs = concat (map (\<lambda>x. case f x of None \<Rightarrow> [] | Some y \<Rightarrow> [y]) xs)"

definition list_input_of :: "bool \<Rightarrow> list_body \<Rightarrow> list_input" where
  "list_input_of queued body =
     (let status = filter_map parse_status (lb_status body)
      in \<lparr>li_workflow_ids = lb_workflow_uuids body, li_workflow_name = lb_workflow_name body,
          li_status = (if queued \<and> status = [] then [Pending, Enqueued, Delayed] else status),
          li_executor_ids = lb_executor_id body,
          li_application_version = lb_application_version body,
          li_queues_only = (queued \<or> lb_queues_only body), li_limit = lb_limit body,
          li_offset = lb_offset body, li_sort_desc = lb_sort_desc body,
          li_load_input = lb_load_input body,
          li_load_output = (if queued then False else lb_load_output body)\<rparr>)"

definition format_list_workflows_row :: "codec \<Rightarrow> workflow_status_view \<Rightarrow> list_row" where
  "format_list_workflows_row cd w =
     \<lparr>lr_workflow_uuid = wv_id w, lr_status = Some (as_str (wv_status w)),
      lr_workflow_name = opt_str (wv_name w), lr_workflow_class_name = opt_str (wv_class_name w),
      lr_workflow_config_name = non_empty_opt (wv_config_name w),
      lr_authenticated_user = opt_str (wv_authenticated_user w),
      lr_assumed_role = opt_str (wv_assumed_role w),
      lr_authenticated_roles =
        (if wv_authenticated_roles w = [] then None
         else Some (cd_print cd (JArray (map JString (wv_authenticated_roles w))))),
      lr_input = wv_input w, lr_output = wv_output w, lr_error = wv_error w,
      lr_created_at = epoch_ms_string (wv_created_at_ms w),
      lr_updated_at = epoch_ms_string (wv_updated_at_ms w), lr_queue_name = opt_str (wv_queue_name w),
      lr_application_version = opt_str (wv_application_version w),
      lr_executor_id = opt_str (wv_executor_id w),
      lr_timeout_ms = (if wv_timeout_ms w > 0 then Some (show_int (wv_timeout_ms w)) else None),
      lr_deadline_epoch_ms = epoch_ms_string_opt (wv_deadline_ms w),
      lr_deduplication_id = opt_str (wv_deduplication_id w), lr_priority = show_int (wv_priority w),
      lr_queue_partition_key = opt_str (wv_queue_partition_key w),
      lr_forked_from = opt_str (wv_forked_from w), lr_was_forked_from = wv_was_forked_from w,
      lr_parent_workflow_id = opt_str (wv_parent_workflow_id w),
      lr_dequeued_at =
        (if wv_status w = Pending then epoch_ms_string_opt (wv_started_at_ms w) else None),
      lr_delay_until_epoch_ms = epoch_ms_string_opt (wv_delay_until_ms w),
      lr_completed_at = epoch_ms_string_opt (wv_completed_at_ms w)\<rparr>"

definition handle_list_workflows :: "codec \<Rightarrow> string \<Rightarrow> bool \<Rightarrow> list_body \<Rightarrow> sysdb \<Rightarrow> json" where
  "handle_list_workflows cd rid queued body db =
     list_workflows_response
       (base_ok (msg (if queued then LIST_QUEUED_WORKFLOWS else LIST_WORKFLOWS)) rid)
       (map (format_list_workflows_row cd) (list_workflows (list_input_of queued body) db))"

definition format_step_row :: "step_info \<Rightarrow> step_row" where
  "format_step_row s =
     \<lparr>sw_function_id = si_step_id s, sw_function_name = si_step_name s, sw_output = si_output s,
      sw_error = si_error s, sw_child_workflow_id = non_empty_opt (si_child s),
      sw_started_at_epoch_ms = epoch_ms_string_opt (si_started_at_ms s),
      sw_completed_at_epoch_ms = epoch_ms_string_opt (si_completed_at_ms s)\<rparr>"

definition handle_list_steps :: "string \<Rightarrow> string \<Rightarrow> sysdb \<Rightarrow> json" where
  "handle_list_steps rid i db =
     list_steps_response (base_ok (msg LIST_STEPS) rid) (Some (map format_step_row (get_workflow_steps i db)))"

definition handle_get_workflow :: "codec \<Rightarrow> string \<Rightarrow> get_workflow_request \<Rightarrow> sysdb \<Rightarrow> json" where
  "handle_get_workflow cd rid req db =
     get_workflow_response (base_ok (msg GET_WORKFLOW) rid)
       (case list_workflows
               (li_default\<lparr>li_workflow_ids := [gw_workflow_id req], li_load_input := gw_load_input req,
                           li_load_output := gw_load_output req\<rparr>) db of
          [] \<Rightarrow> None
        | w # _ \<Rightarrow> Some (format_list_workflows_row cd w))"

definition handle_exist_pending :: "string \<Rightarrow> exist_pending_request \<Rightarrow> sysdb \<Rightarrow> json" where
  "handle_exist_pending rid req db =
     exist_pending_response (base_ok (msg EXIST_PENDING_WORKFLOWS) rid)
       (list_workflows
          (li_default\<lparr>li_status := [Pending], li_limit := Some 1,
             li_executor_ids := (if ep_executor_id req = [] then [] else [ep_executor_id req]),
             li_application_version :=
               (if ep_application_version req = [] then [] else [ep_application_version req])\<rparr>) db \<noteq> [])"

subsection \<open>Fork\<close>

definition max_start :: int where "max_start = 2147483647 div 2"

definition handle_fork_workflow :: "string \<Rightarrow> fork_body \<Rightarrow> 'w rt \<Rightarrow> json \<times> 'w rt" where
  "handle_fork_workflow rid body rt =
     (let failed = (\<lambda>m. fork_workflow_response (base_err (msg FORK_WORKFLOW) rid m) None)
      in if fb_start_step body < 0
         then (failed ''invalid StartStep: cannot be negative'', rt)
         else if fb_start_step body > max_start
         then (failed (''invalid StartStep: cannot be greater than '' @ show_int max_start), rt)
         else case manage_fork
                \<lparr>fo_original = fb_workflow_id body, fo_start_step = fb_start_step body,
                 fo_version = fb_application_version body, fo_queue = fb_queue_name body,
                 fo_forked = fb_new_workflow_id body\<rparr> rt of
                (Inr h, rt) \<Rightarrow>
                  (fork_workflow_response (base_ok (msg FORK_WORKFLOW) rid) (Some (handle_id h)), rt)
              | (Inl e, rt) \<Rightarrow> (failed (''failed to fork workflow: '' @ error_display e), rt))"

subsection \<open>Retention\<close>

text \<open>Cancelling what is older than a cutoff and not finished: the workflows are listed once, then
  cancelled one by one.\<close>

definition timed_out :: "int \<Rightarrow> sysdb \<Rightarrow> string list" where
  "timed_out cutoff db =
     map wv_id (filter (\<lambda>w. wv_created_at_ms w < cutoff)
       (list_workflows (li_default\<lparr>li_status := [Pending, Enqueued, Delayed]\<rparr>) db))"

definition timeout_before :: "int \<Rightarrow> 'w rt \<Rightarrow> unit res \<times> 'w rt" where
  "timeout_before cutoff rt = each_id manage_cancel (timed_out cutoff (rt_db rt)) rt"

definition handle_retention :: "string \<Rightarrow> retention_body \<Rightarrow> 'w rt \<Rightarrow> json \<times> 'w rt" where
  "handle_retention rid body rt =
     (let rt = (if rb_gc_cutoff_epoch_ms body \<noteq> None \<or> rb_gc_rows_threshold body \<noteq> None
                then snd (lift_db (garbage_collect (rb_gc_cutoff_epoch_ms body) (rb_gc_rows_threshold body)) rt)
                else rt);
          (r, rt) = (case rb_timeout_cutoff_epoch_ms body of
                       None \<Rightarrow> (Inr (), rt)
                     | Some cutoff \<Rightarrow> timeout_before cutoff rt)
      in (respond_success RETENTION rid (failure ''failed to timeout workflows: '' r), rt))"

definition handle_workflow_aggregates :: "message \<Rightarrow> string \<Rightarrow> sysdb \<Rightarrow> json" where
  "handle_workflow_aggregates m rid db =
     workflow_aggregates_response (base_ok (msg m) rid)
       (map (\<lambda>(status, count). JObject [(''count'', JInt count), (''status'', JString status)])
         (get_workflow_status_counts db))"

subsection \<open>Schedules\<close>

definition schedule_to_row :: "codec \<Rightarrow> bool \<Rightarrow> workflow_schedule \<Rightarrow> schedule_wire" where
  "schedule_to_row cd load_context s =
     \<lparr>sx_schedule_id = sr_id (wsc_row s), sx_schedule_name = sr_name (wsc_row s),
      sx_workflow_name = sr_workflow_name (wsc_row s),
      sx_workflow_class_name = non_empty_opt (sr_workflow_class_name (wsc_row s)),
      sx_schedule = sr_schedule (wsc_row s), sx_status = sr_status (wsc_row s),
      sx_context =
        (if load_context \<and> \<not> is_null (wsc_context s) then Some (cd_print cd (wsc_context s)) else None),
      sx_last_fired_at = sr_last_fired_at (wsc_row s),
      sx_automatic_backfill = sr_automatic_backfill (wsc_row s),
      sx_cron_timezone = non_empty_opt (sr_cron_timezone (wsc_row s)),
      sx_queue_name = non_empty_opt (sr_queue_name (wsc_row s))\<rparr>"

definition handle_list_schedules :: "codec \<Rightarrow> string \<Rightarrow> bool option \<Rightarrow> sysdb \<Rightarrow> json" where
  "handle_list_schedules cd rid load_context db =
     list_schedules_response (base_ok (msg LIST_SCHEDULES) rid)
       (map (schedule_to_row cd (unwrap_or load_context True)) (schedule_list cd db))"

definition handle_get_schedule :: "codec \<Rightarrow> string \<Rightarrow> string \<times> bool option \<Rightarrow> sysdb \<Rightarrow> json" where
  "handle_get_schedule cd rid req db =
     get_schedule_response (base_ok (msg GET_SCHEDULE) rid)
       (map_option (schedule_to_row cd (unwrap_or (snd req) True)) (schedule_get cd (fst req) db))"

definition handle_schedule_toggle :: "string \<Rightarrow> bool \<Rightarrow> string \<Rightarrow> 'w rt \<Rightarrow> json \<times> 'w rt" where
  "handle_schedule_toggle rid pause name rt =
     (let (m, verb, set_status) =
            (if pause then (PAUSE_SCHEDULE, ''pause'', pause_schedule)
             else (RESUME_SCHEDULE, ''resume'', resume_schedule));
          (r, rt) = lift_db (set_status name) rt
      in (respond_success m rid (failure (''failed to '' @ verb @ '' schedule '' @ [CHR 0x27] @ name
            @ [CHR 0x27] @ '': '') r), rt))"

subsection \<open>Events, notifications, streams, versions, queues\<close>

definition handle_get_workflow_events :: "string \<Rightarrow> string \<Rightarrow> sysdb \<Rightarrow> json" where
  "handle_get_workflow_events rid i db =
     events_response (base_ok (msg GET_WORKFLOW_EVENTS) rid)
       (map (\<lambda>(k, v, _). event_output k (unwrap_or_default v)) (get_workflow_events i db))"

definition handle_get_workflow_notifications :: "string \<Rightarrow> string \<Rightarrow> sysdb \<Rightarrow> json" where
  "handle_get_workflow_notifications rid i db =
     notifications_response (base_ok (msg GET_WORKFLOW_NOTIFICATIONS) rid)
       (map (\<lambda>(topic, m, created, _, consumed).
               notification_output (opt_str topic) (unwrap_or_default m) created consumed)
         (get_workflow_notifications i db))"

text \<open>One pass that appends to the last entry while the key stays the same.\<close>

definition push_entry :: "string \<Rightarrow> string \<Rightarrow> (string \<times> string list) list \<Rightarrow> (string \<times> string list) list" where
  "push_entry k v es =
     (if es \<noteq> [] \<and> fst (last es) = k then butlast es @ [(k, snd (last es) @ [v])] else es @ [(k, [v])])"

definition group_streams :: "(string \<times> int \<times> string \<times> string) list \<Rightarrow> (string \<times> string list) list" where
  "group_streams rows = fold (\<lambda>(k, _, v, _). push_entry k v) rows []"

definition handle_get_workflow_streams :: "string \<Rightarrow> string \<Rightarrow> sysdb \<Rightarrow> json" where
  "handle_get_workflow_streams rid i db =
     streams_response (base_ok (msg GET_WORKFLOW_STREAMS) rid) (group_streams (get_workflow_streams i db))"

definition handle_step_aggregates :: "string \<Rightarrow> sysdb \<Rightarrow> json" where
  "handle_step_aggregates rid db =
     step_aggregates_response (base_ok (msg GET_STEP_AGGREGATES) rid) (get_step_aggregates db)"

definition handle_list_application_versions :: "string \<Rightarrow> sysdb \<Rightarrow> json" where
  "handle_list_application_versions rid db =
     application_versions_response (base_ok (msg LIST_APPLICATION_VERSIONS) rid) (list_application_versions db)"

definition handle_set_latest_version :: "string \<Rightarrow> string \<Rightarrow> 'w rt \<Rightarrow> json \<times> 'w rt" where
  "handle_set_latest_version rid version rt =
     (let (now, rt) = lift_eng now_ms rt;
          (_, rt) = lift_db (\<lambda>db. ((), set_latest_application_version version now db)) rt
      in (respond_success SET_LATEST_APPLICATION_VERSION rid None, rt))"

definition queue_to_output :: "conductor_env \<Rightarrow> workflow_queue \<Rightarrow> queue_output" where
  "queue_to_output env q =
     \<lparr>qo_name = wq_name q, qo_concurrency = wq_global_concurrency q,
      qo_worker_concurrency = wq_worker_concurrency q,
      qo_rate_limit_max = map_option rl_limit (wq_rate_limit q),
      qo_rate_limit_period_sec = map_option (cv_secs_text env \<circ> rl_period) (wq_rate_limit q),
      qo_priority_enabled = wq_priority_enabled q, qo_partition_queue = False,
      qo_polling_interval_sec = ''1.0''\<rparr>"

definition handle_list_queues :: "conductor_env \<Rightarrow> 'w executor \<Rightarrow> string \<Rightarrow> json" where
  "handle_list_queues env ex rid =
     list_queues_response (base_ok (msg LIST_QUEUES) rid)
       (map (queue_to_output env) (list_registered_queues ex))"

definition handle_get_queue :: "conductor_env \<Rightarrow> 'w executor \<Rightarrow> string \<Rightarrow> string \<Rightarrow> json" where
  "handle_get_queue env ex rid name =
     (case List.find (\<lambda>q. wq_name q = name) (list_registered_queues ex) of
        Some q \<Rightarrow> get_queue_response (base_ok (msg GET_QUEUE) rid) (Some (queue_to_output env q))
      | None \<Rightarrow>
          get_queue_response
            (base_err (msg GET_QUEUE) rid
              (''failed to get queue '' @ [CHR 0x27] @ name @ [CHR 0x27] @ '': queue not found'')) None)"

subsection \<open>Dispatch\<close>

definition unsupported :: "string \<Rightarrow> string \<Rightarrow> json" where
  "unsupported t rid = response (base_err t rid ''unsupported command'') []"

text \<open>A handler that acts, one that only reads the database, one that needs no request.\<close>

definition acting ::
  "codec \<Rightarrow> 'a reader \<Rightarrow> ('a \<Rightarrow> 'w rt \<Rightarrow> json \<times> 'w rt) \<Rightarrow> string \<Rightarrow> 'w rt \<Rightarrow> ((string + json) \<times> 'w rt) option" where
  "acting cd r f data rt =
     (case parse_request cd r data of
        Inl m \<Rightarrow> Some (Inl m, rt)
      | Inr req \<Rightarrow> (let (v, rt) = f req rt in Some (Inr v, rt)))"

definition reading ::
  "codec \<Rightarrow> 'a reader \<Rightarrow> ('a \<Rightarrow> sysdb \<Rightarrow> json) \<Rightarrow> string \<Rightarrow> 'w rt \<Rightarrow> ((string + json) \<times> 'w rt) option" where
  "reading cd r f data rt = acting cd r (\<lambda>req rt. (f req (rt_db rt), rt)) data rt"

definition dispatch ::
  "nat \<Rightarrow> conductor_env \<Rightarrow> 'w executor \<Rightarrow> string \<Rightarrow> string \<Rightarrow> string \<Rightarrow> 'w rt \<Rightarrow>
   ((string + json) \<times> 'w rt) option" where
  "dispatch fuel env ex t rid data rt =
     (let cd = cx_codec (ex_ctx ex); plain = (\<lambda>v. Some (Inr v, rt)) in
      case message_of t of
        Some EXECUTOR_INFO \<Rightarrow> plain (handle_executor_info env ex rid)
      | Some RECOVERY \<Rightarrow> acting cd read_recovery_request (handle_recovery ex rid) data rt
      | Some CANCEL \<Rightarrow> acting cd read_workflow_ids_request (handle_cancel rid) data rt
      | Some RESUME \<Rightarrow> acting cd read_workflow_ids_request (handle_resume rid) data rt
      | Some LIST_WORKFLOWS \<Rightarrow> reading cd read_list_workflows_request (handle_list_workflows cd rid False) data rt
      | Some LIST_QUEUED_WORKFLOWS \<Rightarrow>
          reading cd read_list_workflows_request (handle_list_workflows cd rid True) data rt
      | Some LIST_STEPS \<Rightarrow> reading cd read_list_steps_request (handle_list_steps rid) data rt
      | Some GET_WORKFLOW \<Rightarrow> reading cd read_get_workflow_request (handle_get_workflow cd rid) data rt
      | Some FORK_WORKFLOW \<Rightarrow> acting cd read_fork_request (handle_fork_workflow rid) data rt
      | Some EXIST_PENDING_WORKFLOWS \<Rightarrow>
          reading cd read_exist_pending_request (handle_exist_pending rid) data rt
      | Some RETENTION \<Rightarrow> acting cd read_retention_request (handle_retention rid) data rt
      | Some GET_WORKFLOW_AGGREGATES \<Rightarrow> plain (handle_workflow_aggregates GET_WORKFLOW_AGGREGATES rid (rt_db rt))
      | Some GET_METRICS \<Rightarrow> plain (handle_workflow_aggregates GET_METRICS rid (rt_db rt))
      | Some LIST_SCHEDULES \<Rightarrow> reading cd read_list_schedules_request (handle_list_schedules cd rid) data rt
      | Some GET_SCHEDULE \<Rightarrow> reading cd read_get_schedule_request (handle_get_schedule cd rid) data rt
      | Some PAUSE_SCHEDULE \<Rightarrow> acting cd read_schedule_name_request (handle_schedule_toggle rid True) data rt
      | Some RESUME_SCHEDULE \<Rightarrow> acting cd read_schedule_name_request (handle_schedule_toggle rid False) data rt
      | Some DELETE \<Rightarrow>
          (case parse_request cd read_workflow_ids_request data of
             Inl m \<Rightarrow> Some (Inl m, rt)
           | Inr req \<Rightarrow> map_option (\<lambda>(v, rt). (Inr v, rt)) (handle_delete fuel rid req rt))
      | Some ALERT \<Rightarrow> reading cd read_alert_request (\<lambda>_ _. respond_success ALERT rid None) data rt
      | Some GET_WORKFLOW_EVENTS \<Rightarrow> reading cd read_workflow_id_request (handle_get_workflow_events rid) data rt
      | Some GET_WORKFLOW_NOTIFICATIONS \<Rightarrow>
          reading cd read_workflow_id_request (handle_get_workflow_notifications rid) data rt
      | Some GET_WORKFLOW_STREAMS \<Rightarrow> reading cd read_workflow_id_request (handle_get_workflow_streams rid) data rt
      | Some GET_STEP_AGGREGATES \<Rightarrow> plain (handle_step_aggregates rid (rt_db rt))
      | Some LIST_APPLICATION_VERSIONS \<Rightarrow> plain (handle_list_application_versions rid (rt_db rt))
      | Some SET_LATEST_APPLICATION_VERSION \<Rightarrow>
          acting cd read_set_latest_request (handle_set_latest_version rid) data rt
      | Some LIST_QUEUES \<Rightarrow> plain (handle_list_queues env ex rid)
      | Some GET_QUEUE \<Rightarrow> reading cd read_get_queue_request (\<lambda>name _. handle_get_queue env ex rid name) data rt
      | _ \<Rightarrow> plain (unsupported t rid))"

text \<open>The answer to a text frame: none when even the base cannot be read, an error response when the
  request cannot.\<close>

definition handle_message ::
  "nat \<Rightarrow> conductor_env \<Rightarrow> 'w executor \<Rightarrow> string \<Rightarrow> 'w rt \<Rightarrow> (json option \<times> 'w rt) option" where
  "handle_message fuel env ex data rt =
     (case parse_frame (cx_codec (ex_ctx ex)) read_base_message data of
        Inl _ \<Rightarrow> Some (None, rt)
      | Inr b \<Rightarrow>
          (case dispatch fuel env ex (bm_type b) (bm_request_id b) data rt of
             None \<Rightarrow> None
           | Some (Inr v, rt) \<Rightarrow> Some (Some v, rt)
           | Some (Inl m, rt) \<Rightarrow> Some (Some (response (base_err (bm_type b) (bm_request_id b) m) []), rt)))"

text \<open>The text that goes back over the socket.\<close>

definition reply_text :: "'w executor \<Rightarrow> json \<Rightarrow> string" where
  "reply_text ex v = cd_print (cx_codec (ex_ctx ex)) v"

end
