(* ===== verification/Admin.thy ===== *)
theory Admin
  imports Conductor
begin

text \<open>
  The admin HTTP server, \<open>crates/dbos-server/src/handlers.rs\<close> and \<open>transform.rs\<close>: the request bodies,
  the endpoints, and the JSON shapes they answer with.  A handler takes the
  body that was read, if there was one; \<open>Admin_Server\<close> has the routes and the reading of a body.
\<close>

subsection \<open>Responses\<close>

datatype http_body = Empty | Plain string | Json json

record http_response =
  hr_status :: int
  hr_body :: http_body

definition OK :: "http_body \<Rightarrow> http_response" where
  "OK b = \<lparr>hr_status = 200, hr_body = b\<rparr>"

definition NO_CONTENT :: http_response where
  "NO_CONTENT = \<lparr>hr_status = 204, hr_body = Empty\<rparr>"

definition NOT_FOUND :: "string \<Rightarrow> http_response" where
  "NOT_FOUND m = \<lparr>hr_status = 404, hr_body = Plain m\<rparr>"

definition internal_error :: "dbos_error \<Rightarrow> http_response" where
  "internal_error e = \<lparr>hr_status = 500, hr_body = Plain (error_display e)\<rparr>"

subsection \<open>Wire shapes\<close>

text \<open>\<open>serde_json::Map\<close> lists its keys in order.\<close>

definition json_map :: "(string \<times> json) list \<Rightarrow> json" where
  "json_map kvs = JObject (sort_key fst kvs)"

definition format_epoch_ms :: "int option \<Rightarrow> json" where
  "format_epoch_ms ms =
     (case ms of Some t \<Rightarrow> if t \<noteq> 0 then JString (show_int t) else JNull | None \<Rightarrow> JNull)"

definition format_epoch_ms_zero :: "int \<Rightarrow> json" where
  "format_epoch_ms_zero ms = (if ms = 0 then JNull else JString (show_int ms))"

definition string_passthrough :: "string option \<Rightarrow> json" where
  "string_passthrough s = (case s of Some t \<Rightarrow> JString t | None \<Rightarrow> JNull)"

definition to_list_response :: "codec \<Rightarrow> workflow_status_view \<Rightarrow> json" where
  "to_list_response cd w =
     json_map
       [(''WorkflowUUID'', JString (wv_id w)), (''Status'', JString (as_str (wv_status w))),
        (''WorkflowName'', JString (wv_name w)),
        (''AuthenticatedUser'', JString (wv_authenticated_user w)),
        (''AssumedRole'', JString (wv_assumed_role w)),
        (''AuthenticatedRoles'', JArray (map JString (wv_authenticated_roles w))),
        (''Output'', string_passthrough (wv_output w)), (''ExecutorID'', JString (wv_executor_id w)),
        (''ApplicationVersion'', JString (wv_application_version w)),
        (''ApplicationID'', JString (wv_application_id w)), (''Attempts'', JInt (wv_attempts w)),
        (''QueueName'', JString (wv_queue_name w)), (''Timeout'', JInt (wv_timeout_ms w)),
        (''DeduplicationID'', JString (wv_deduplication_id w)), (''Priority'', JInt (wv_priority w)),
        (''QueuePartitionKey'', JString (wv_queue_partition_key w)),
        (''Input'', string_passthrough (wv_input w)),
        (''CreatedAt'', format_epoch_ms_zero (wv_created_at_ms w)),
        (''UpdatedAt'', format_epoch_ms_zero (wv_updated_at_ms w)),
        (''WorkflowDeadlineEpochMS'', format_epoch_ms (wv_deadline_ms w)),
        (''StartedAt'', format_epoch_ms (wv_started_at_ms w)),
        (''Error'', JString (case wv_error w of Some e \<Rightarrow> cd_print cd (JString e) | None \<Rightarrow> []))]"

definition to_step_response :: "codec \<Rightarrow> step_info \<Rightarrow> json" where
  "to_step_response cd s =
     (let time = (\<lambda>k ms. case ms of Some t \<Rightarrow> if t \<noteq> 0 then [(k, JInt t)] else [] | None \<Rightarrow> [])
      in json_map
        ([(''function_id'', JInt (si_step_id s)), (''function_name'', JString (si_step_name s)),
          (''child_workflow_id'', JString (unwrap_or_default (si_child s)))]
         @ time ''started_at_epoch_ms'' (si_started_at_ms s)
         @ time ''completed_at_epoch_ms'' (si_completed_at_ms s)
         @ [(''output'', JString (unwrap_or_default (si_output s)))]
         @ skip_none ''error'' (\<lambda>e. JString (cd_print cd (JString e))) (si_error s)))"

subsection \<open>Request bodies\<close>

record list_request =
  lq_workflow_uuids :: "string list"
  lq_status :: "string option"
  lq_application_version :: "string option"
  lq_workflow_name :: "string option"
  lq_limit :: "int option"
  lq_offset :: "int option"
  lq_sort_desc :: "bool option"
  lq_load_input :: "bool option"
  lq_load_output :: "bool option"
  lq_queue_name :: "string option"

definition default_list_request :: list_request where
  "default_list_request =
     \<lparr>lq_workflow_uuids = [], lq_status = None, lq_application_version = None, lq_workflow_name = None,
      lq_limit = None, lq_offset = None, lq_sort_desc = None, lq_load_input = None,
      lq_load_output = None, lq_queue_name = None\<rparr>"

definition read_list_request :: "list_request reader" where
  "read_list_request v = do {
     fs \<leftarrow> struct_fields [''workflow_uuids'', ''status'', ''application_version'', ''workflow_name'',
            ''limit'', ''offset'', ''sort_desc'', ''load_input'', ''load_output'', ''queue_name''] 10 v;
     ids \<leftarrow> default_to [] fs ''workflow_uuids'' (read_list read_string);
     status \<leftarrow> default_to None fs ''status'' (read_opt read_string);
     version \<leftarrow> default_to None fs ''application_version'' (read_opt read_string);
     name \<leftarrow> default_to None fs ''workflow_name'' (read_opt read_string);
     limit \<leftarrow> default_to None fs ''limit'' (read_opt read_i64);
     offset \<leftarrow> default_to None fs ''offset'' (read_opt read_i64);
     desc \<leftarrow> default_to None fs ''sort_desc'' (read_opt read_bool);
     inp \<leftarrow> default_to None fs ''load_input'' (read_opt read_bool);
     outp \<leftarrow> default_to None fs ''load_output'' (read_opt read_bool);
     queue \<leftarrow> default_to None fs ''queue_name'' (read_opt read_string);
     Some \<lparr>lq_workflow_uuids = ids, lq_status = status, lq_application_version = version,
       lq_workflow_name = name, lq_limit = limit, lq_offset = offset, lq_sort_desc = desc,
       lq_load_input = inp, lq_load_output = outp, lq_queue_name = queue\<rparr>}"

definition listed :: "'a option \<Rightarrow> 'a list" where
  "listed v = (case v of None \<Rightarrow> [] | Some x \<Rightarrow> [x])"

definition to_input :: "list_request \<Rightarrow> list_input" where
  "to_input req =
     li_default\<lparr>li_workflow_ids := lq_workflow_uuids req,
       li_workflow_name := listed (non_empty_opt (lq_workflow_name req)),
       li_status := listed (Option.bind (non_empty_opt (lq_status req)) parse_status),
       li_application_version := listed (non_empty_opt (lq_application_version req)),
       li_queues_only := non_empty_opt (lq_queue_name req) \<noteq> None,
       li_limit := lq_limit req, li_offset := lq_offset req,
       li_sort_desc := unwrap_or (lq_sort_desc req) False,
       li_load_input := unwrap_or (lq_load_input req) False,
       li_load_output := unwrap_or (lq_load_output req) False\<rparr>"

record fork_request =
  fr_start_step :: "int option"
  fr_new_workflow_id :: "string option"
  fr_application_version :: "string option"

definition read_fork_http_request :: "fork_request reader" where
  "read_fork_http_request v = do {
     fs \<leftarrow> struct_fields [''start_step'', ''new_workflow_id'', ''application_version''] 3 v;
     s \<leftarrow> default_to None fs ''start_step'' (read_opt read_u64);
     n \<leftarrow> default_to None fs ''new_workflow_id'' (read_opt read_string);
     a \<leftarrow> default_to None fs ''application_version'' (read_opt read_string);
     Some \<lparr>fr_start_step = s, fr_new_workflow_id = n, fr_application_version = a\<rparr>}"

definition read_gc_request :: "(int option \<times> int option) reader" where
  "read_gc_request v = do {
     fs \<leftarrow> struct_fields [''cutoff_epoch_timestamp_ms'', ''rows_threshold''] 2 v;
     c \<leftarrow> default_to None fs ''cutoff_epoch_timestamp_ms'' (read_opt read_i64);
     n \<leftarrow> default_to None fs ''rows_threshold'' (read_opt read_i64);
     Some (c, n)}"

definition read_timeout_request :: "int reader" where
  "read_timeout_request v = do {
     fs \<leftarrow> struct_fields [''cutoff_epoch_timestamp_ms''] 1 v;
     required fs ''cutoff_epoch_timestamp_ms'' read_i64}"

subsection \<open>Endpoints\<close>

definition healthz :: http_response where "healthz = OK (Plain ''healthy'')"

definition deactivate_endpoint :: http_response where
  "deactivate_endpoint = OK (Plain ''deactivated'')"

definition workflow_queues_metadata :: http_response where
  "workflow_queues_metadata = OK (Json (JArray []))"

definition http_recovery :: "'w executor \<Rightarrow> string list \<Rightarrow> 'w rt \<Rightarrow> http_response \<times> 'w rt" where
  "http_recovery ex executor_ids rt =
     (case recover_pending_workflows ex executor_ids rt of
        (Inr ids, rt) \<Rightarrow> (OK (Json (JArray (map JString ids))), rt)
      | (Inl e, rt) \<Rightarrow> (internal_error e, rt))"

definition http_list_workflows :: "codec \<Rightarrow> list_request option \<Rightarrow> sysdb \<Rightarrow> http_response" where
  "http_list_workflows cd body db =
     OK (Json (JArray (map (to_list_response cd)
       (list_workflows (to_input (unwrap_or body default_list_request)) db))))"

definition http_get_workflow :: "codec \<Rightarrow> string \<Rightarrow> sysdb \<Rightarrow> http_response" where
  "http_get_workflow cd i db =
     (case list_workflows
             (li_default\<lparr>li_workflow_ids := [i], li_load_input := True, li_load_output := True\<rparr>) db of
        w # _ \<Rightarrow> OK (Json (to_list_response cd w))
      | [] \<Rightarrow> NOT_FOUND ''Workflow not found'')"

definition http_get_steps :: "codec \<Rightarrow> string \<Rightarrow> sysdb \<Rightarrow> http_response" where
  "http_get_steps cd i db = OK (Json (JArray (map (to_step_response cd) (get_workflow_steps i db))))"

definition http_cancel :: "string \<Rightarrow> 'w rt \<Rightarrow> http_response \<times> 'w rt" where
  "http_cancel i rt =
     (case manage_cancel i rt of
        (Inr _, rt) \<Rightarrow> (NO_CONTENT, rt)
      | (Inl e, rt) \<Rightarrow> (internal_error e, rt))"

definition workflow_id_json :: "erased_handle \<Rightarrow> json" where
  "workflow_id_json h = JObject [(''workflow_id'', JString (handle_id h))]"

definition http_resume :: "string \<Rightarrow> 'w rt \<Rightarrow> http_response \<times> 'w rt" where
  "http_resume i rt =
     (case manage_resume i rt of
        (Inr h, rt) \<Rightarrow> (OK (Json (workflow_id_json h)), rt)
      | (Inl e, rt) \<Rightarrow> (internal_error e, rt))"

text \<open>\<open>as i64\<close> wraps a step of \<open>2 ^ 63\<close> or more to a negative one.\<close>

definition http_fork :: "string \<Rightarrow> fork_request option \<Rightarrow> 'w rt \<Rightarrow> http_response \<times> 'w rt" where
  "http_fork i body rt =
     (let req = unwrap_or body
            \<lparr>fr_start_step = None, fr_new_workflow_id = None, fr_application_version = None\<rparr>
      in case manage_fork
             \<lparr>fo_original = i, fo_start_step = as_i64 (unwrap_or (fr_start_step req) 0),
              fo_version = fr_application_version req, fo_queue = None,
              fo_forked = fr_new_workflow_id req\<rparr> rt of
           (Inr h, rt) \<Rightarrow> (OK (Json (workflow_id_json h)), rt)
         | (Inl e, rt) \<Rightarrow> (internal_error e, rt))"

definition http_garbage_collect :: "(int option \<times> int option) option \<Rightarrow> 'w rt \<Rightarrow> http_response \<times> 'w rt" where
  "http_garbage_collect body rt =
     (let (cutoff, threshold) = unwrap_or body (None, None);
          (_, rt) = lift_db (garbage_collect cutoff threshold) rt
      in (NO_CONTENT, rt))"

definition http_global_timeout :: "int \<Rightarrow> 'w rt \<Rightarrow> http_response \<times> 'w rt" where
  "http_global_timeout cutoff rt =
     (case each_id manage_cancel (timed_out cutoff (rt_db rt)) rt of
        (Inr _, rt) \<Rightarrow> (NO_CONTENT, rt)
      | (Inl e, rt) \<Rightarrow> (internal_error e, rt))"

end
