(* ===== verification/Scheduler_Laws.thy ===== *)
theory Scheduler_Laws
  imports Scheduler
begin

text \<open>
  Correctness of \<open>Scheduler\<close>: a tick is stored once however often it is fired, a backfill ends and
  fires every missed tick, and a reconcile pass leaves exactly the active schedules firing.
\<close>

subsection \<open>Starting on a queue\<close>

lemma insert_uuids:
  assumes "insert_workflow_status input now db = (res, db')"
  shows "wf_exists db (nw_id (in_status input)) \<Longrightarrow>
           map ws_uuid (workflow_status db') = map ws_uuid (workflow_status db)"
    and "res = Inr ir \<Longrightarrow> wf_exists db' (nw_id (in_status input))"
proof -
  have up: "map ws_uuid (workflow_status db1) = map ws_uuid (workflow_status db)"
    if "upsert_status input now db = Inr db1" "wf_exists db (nw_id (in_status input))" for db1
    using that by (auto simp: upsert_status_def Let_def map_key_update_where)
  have park: "map ws_uuid (park_dead_letter i rows) = map ws_uuid rows" for i rows
    by (simp add: park_dead_letter_def map_key_update_where)
  show "wf_exists db (nw_id (in_status input)) \<Longrightarrow>
      map ws_uuid (workflow_status db') = map ws_uuid (workflow_status db)"
    using assms by (cases rule: insert_cases) (auto simp: up park dest: record_child_ws)
  show "res = Inr ir \<Longrightarrow> wf_exists db' (nw_id (in_status input))"
    using assms by (cases rule: insert_cases) (auto dest: record_child_ws)
qed

lemma queued_start:
  assumes "schema_ok (rt_db rt)" "op_workflow_id opts = Some i" "unwrap_or_default (op_queue opts) \<noteq> []"
    and "run_workflow_erased ex name text ser opts flags None rt = (res, rt')"
  shows "rt_tasks rt' = rt_tasks rt" "rt_active rt' = rt_active rt" "schema_ok (rt_db rt')"
    and "evolves (rt_db rt) (rt_db rt')" "keeps_workflows (rt_db rt) (rt_db rt')"
    and "wf_exists (rt_db rt) i \<Longrightarrow>
         map ws_uuid (workflow_status (rt_db rt')) = map ws_uuid (workflow_status (rt_db rt))"
    and "res = Inr h \<Longrightarrow> wf_exists (rt_db rt') i"
proof -
  have "rt_tasks rt' = rt_tasks rt \<and> rt_active rt' = rt_active rt \<and> schema_ok (rt_db rt')
      \<and> evolves (rt_db rt) (rt_db rt') \<and> keeps_workflows (rt_db rt) (rt_db rt')
      \<and> (wf_exists (rt_db rt) i \<longrightarrow>
         map ws_uuid (workflow_status (rt_db rt')) = map ws_uuid (workflow_status (rt_db rt)))
      \<and> (\<forall>h. res = Inr h \<longrightarrow> wf_exists (rt_db rt') i)"
  proof (cases "map_of (ex_registry ex) name = None \<or> option_error opts \<noteq> None")
    case True
    with assms(1,4) show ?thesis by (auto simp: run_workflow_erased_def split: option.splits)
  next
    case False
    then obtain entry where entry: "map_of (ex_registry ex) name = Some entry" "option_error opts = None" by auto
    obtain i' owner q e' where ins: "insert_start ex entry text ser opts flags None (rt_eng rt)
        = ((i', owner, q), e')" by (metis prod.collapse)
    from ins obtain s now where s: "insert_workflow_status s now (rt_db rt) = (q, en_db e')"
      "nw_id (in_status s) = i'" "i' = i"
      by (rule insert_start_insert [where j = i]) (use assms(2) in blast)
    have rt': "rt' = rt\<lparr>rt_eng := e'\<rparr>" "\<And>h. res = Inr h \<Longrightarrow> \<exists>ir. q = Inr ir"
      using assms(3,4) entry ins
      by (auto simp: run_workflow_erased_def lift_eng_def should_skip_def split: sum.splits if_splits)
    have "schema_ok (en_db e') \<and> evolves (rt_db rt) (en_db e') \<and> keeps_workflows (rt_db rt) (en_db e')"
      using insert_evolution [OF assms(1) refl, of s now] s(1) by simp
    with rt' insert_uuids [OF s(1)] s(2,3) show ?thesis by auto
  qed
  then show "rt_tasks rt' = rt_tasks rt" "rt_active rt' = rt_active rt" "schema_ok (rt_db rt')"
    and "evolves (rt_db rt) (rt_db rt')" "keeps_workflows (rt_db rt) (rt_db rt')"
    and "wf_exists (rt_db rt) i \<Longrightarrow>
         map ws_uuid (workflow_status (rt_db rt')) = map ws_uuid (workflow_status (rt_db rt))"
    and "res = Inr h \<Longrightarrow> wf_exists (rt_db rt') i" by blast+
qed

subsection \<open>Ticks\<close>

lemma tick_queue_set: "unwrap_or_default (op_queue (tick_options i (tick_queue row) v)) \<noteq> []"
  by (simp add: tick_options_def tick_queue_def DBOS_INTERNAL_QUEUE_NAME_def split: option.splits)

lemma internal_queue_set: "unwrap_or_default (op_queue (tick_options i DBOS_INTERNAL_QUEUE_NAME v)) \<noteq> []"
  by (simp add: tick_options_def DBOS_INTERNAL_QUEUE_NAME_def)

lemma tick_options_id [simp]: "op_workflow_id (tick_options i q v) = Some i"
  by (simp add: tick_options_def)

lemma enqueue_tick_laws:
  assumes "schema_ok (rt_db rt)" "enqueue_tick ex c row version t rt = (res, rt')"
  shows "rt_tasks rt' = rt_tasks rt" "schema_ok (rt_db rt')" "evolves (rt_db rt) (rt_db rt')"
    and "keeps_workflows (rt_db rt) (rt_db rt')"
    and "wf_exists (rt_db rt) (tick_id c (sr_name row) t) \<Longrightarrow>
         map ws_uuid (workflow_status (rt_db rt')) = map ws_uuid (workflow_status (rt_db rt))"
    and "res = Inr () \<Longrightarrow> wf_exists (rt_db rt') (tick_id c (sr_name row) t)"
proof -
  have "rt_tasks rt' = rt_tasks rt \<and> schema_ok (rt_db rt') \<and> evolves (rt_db rt) (rt_db rt')
      \<and> keeps_workflows (rt_db rt) (rt_db rt')
      \<and> (wf_exists (rt_db rt) (tick_id c (sr_name row) t) \<longrightarrow>
         map ws_uuid (workflow_status (rt_db rt')) = map ws_uuid (workflow_status (rt_db rt)))
      \<and> (res = Inr () \<longrightarrow> wf_exists (rt_db rt') (tick_id c (sr_name row) t))"
  proof (cases "encode (plain_encoder (ex_ctx ex)) (scheduled_input c (cx_codec (ex_ctx ex)) row t)")
    case (Inl e)
    with assms show ?thesis by (auto simp: enqueue_tick_def)
  next
    case (Inr enc)
    obtain r rt1 where run: "run_workflow_erased ex (sr_workflow_name row) enc
        (sz_name (plain_encoder (ex_ctx ex)))
        (tick_options (tick_id c (sr_name row) t) (tick_queue row) version) fl_default None rt = (r, rt1)"
      by fastforce
    note q = queued_start [OF assms(1) tick_options_id tick_queue_set run]
    have eqs: "res = map_ok (\<lambda>_. ()) r" "rt' = rt1"
      using assms(2) Inr run by (simp_all add: enqueue_tick_def)
    have "res = Inr () \<longrightarrow> (\<exists>h. r = Inr h)" by (cases r) (simp_all add: eqs)
    with q eqs(2) show ?thesis by blast
  qed
  then show "rt_tasks rt' = rt_tasks rt" "schema_ok (rt_db rt')" "evolves (rt_db rt) (rt_db rt')"
    and "keeps_workflows (rt_db rt) (rt_db rt')"
    and "wf_exists (rt_db rt) (tick_id c (sr_name row) t) \<Longrightarrow>
         map ws_uuid (workflow_status (rt_db rt')) = map ws_uuid (workflow_status (rt_db rt))"
    and "res = Inr () \<Longrightarrow> wf_exists (rt_db rt') (tick_id c (sr_name row) t)" by blast+
qed

lemma tick_id_inj: "cron_ok c \<Longrightarrow> tick_id c name t = tick_id c name u \<longleftrightarrow> t = u"
proof -
  assume "cron_ok c"
  then have "inj (cr_rfc3339 c)" unfolding cron_ok_def by blast
  then show ?thesis by (simp add: tick_id_def inj_eq)
qed

lemma last_fired_db [simp]:
  "workflow_status (update_schedule_last_fired n s db) = workflow_status db"
  by (simp add: update_schedule_last_fired_def)

lemma fire_db_laws:
  assumes "schema_ok (rt_db rt)" "wf_exists (rt_db rt) (tick_id c (sr_name row) t)"
  shows "map ws_uuid (workflow_status (rt_db (fire_db ex c row t rt))) = map ws_uuid (workflow_status (rt_db rt))"
    and "rt_tasks (fire_db ex c row t rt) = rt_tasks rt"
    and "wf_row (rt_db rt) i = Some r \<Longrightarrow>
         \<exists>r'. wf_row (rt_db (fire_db ex c row t rt)) i = Some r' \<and> row_evolves r r'"
proof -
  obtain res rt1 where tick: "enqueue_tick ex c row (get_latest_application_version (rt_db rt)) t rt = (res, rt1)"
    by fastforce
  note laws = enqueue_tick_laws [OF assms(1) tick]
  have ws: "workflow_status (rt_db (fire_db ex c row t rt)) = workflow_status (rt_db rt1)"
    "rt_tasks (fire_db ex c row t rt) = rt_tasks rt1"
    using tick by (auto simp: fire_db_def lift_db_def lift_eng_def split: sum.splits)
  show "map ws_uuid (workflow_status (rt_db (fire_db ex c row t rt))) = map ws_uuid (workflow_status (rt_db rt))"
    using laws(5) [OF assms(2)] ws by simp
  show "rt_tasks (fire_db ex c row t rt) = rt_tasks rt" using laws(1) ws by simp
  assume r: "wf_row (rt_db rt) i = Some r"
  then obtain r' where "wf_row (rt_db rt1) i = Some r'"
    using laws(4) by (auto simp: keeps_workflows_def)
  with r laws(3) show "\<exists>r'. wf_row (rt_db (fire_db ex c row t rt)) i = Some r' \<and> row_evolves r r'"
    unfolding ws by (auto simp: evolves_def)
qed


subsection \<open>Backfill\<close>

lemma next_tick:
  assumes "cron_ok c" "cr_next c s t = Some n"
  shows "t < n" and "is_tick c s m \<Longrightarrow> t < m \<Longrightarrow> n \<le> m"
proof -
  have law: "t < n \<and> (\<forall>u. t \<le> u \<and> u < n \<longrightarrow> cr_next c s u = Some n)"
    using assms unfolding cron_ok_def by blast
  then show "t < n" by simp
  assume m: "is_tick c s m" "t < m"
  show "n \<le> m"
  proof (rule ccontr)
    assume "\<not> n \<le> m"
    with m(2) law have "cr_next c s (m - 1) = Some n" by simp
    with m(1) \<open>\<not> n \<le> m\<close> show False by (simp add: is_tick_def)
  qed
qed

lemma no_next_tick: "cron_ok c \<Longrightarrow> cr_next c s t = None \<Longrightarrow> is_tick c s m \<Longrightarrow> m \<le> t"
  unfolding cron_ok_def is_tick_def by (metis linorder_not_le option.distinct(1) zle_diff1_eq)

lemma backfill_loop_complete:
  assumes "cron_ok c" "schema_ok (rt_db rt)" "nat (stop - t) < fuel"
  shows "\<exists>res rt'. backfill_loop fuel ex c s row version t stop rt = Some (res, rt')
     \<and> keeps_workflows (rt_db rt) (rt_db rt') \<and> rt_tasks rt' = rt_tasks rt
     \<and> (res = Inr () \<longrightarrow> (\<forall>n. is_tick c s n \<and> t < n \<and> n < stop \<longrightarrow>
           wf_exists (rt_db rt') (tick_id c (sr_name row) n)))"
  using assms(2,3)
proof (induction fuel arbitrary: t rt)
  case 0
  then show ?case by simp
next
  case (Suc k)
  show ?case
  proof (cases "cr_next c s t")
    case None
    with no_next_tick [OF assms(1) None] show ?thesis by force
  next
    case (Some n)
    note n = next_tick [OF assms(1) Some]
    show ?thesis
    proof (cases "stop \<le> n")
      case True
      have "\<not> (is_tick c s m \<and> t < m \<and> m < stop)" for m using n(2) [of m] True by force
      with Some True show ?thesis by auto
    next
      case False
      have fuel: "nat (stop - n) < k" using Suc.prems(2) n(1) False by linarith
      let ?i = "tick_id c (sr_name row) n"
      have goal: ?thesis
        if "backfill_loop (Suc k) ex c s row version t stop rt = backfill_loop k ex c s row version n stop rt1"
          and "schema_ok (rt_db rt1)" "keeps_workflows (rt_db rt) (rt_db rt1)" "rt_tasks rt1 = rt_tasks rt"
          and "wf_exists (rt_db rt1) ?i" for rt1
      proof -
        from Suc.IH [OF that(2) fuel] obtain res rt' where rest:
          "backfill_loop k ex c s row version n stop rt1 = Some (res, rt')"
          "keeps_workflows (rt_db rt1) (rt_db rt')" "rt_tasks rt' = rt_tasks rt1"
          "res = Inr () \<longrightarrow> (\<forall>m. is_tick c s m \<and> n < m \<and> m < stop \<longrightarrow>
             wf_exists (rt_db rt') (tick_id c (sr_name row) m))" by blast
        have this_tick: "wf_exists (rt_db rt') ?i"
          using rest(2) that(5) unfolding keeps_workflows_def by blast
        have "wf_exists (rt_db rt') (tick_id c (sr_name row) m)"
          if m: "res = Inr ()" "is_tick c s m" "t < m" "m < stop" for m
          using n(2) [OF m(2,3)] this_tick rest(4) m by (cases "m = n") (simp, force)
        with rest(1-3) that show ?thesis using keeps_workflows_trans [OF that(3) rest(2)] by auto
      qed
      show ?thesis
      proof (cases "wf_exists (rt_db rt) ?i")
        case True
        then have "get_workflow_status ?i (rt_db rt) \<noteq> None"
          using Suc.prems(1) by (simp add: get_workflow_status_eq schema_ok_distinct_ws)
        then show ?thesis using Some False True Suc.prems(1) by (intro goal [of rt]) simp_all
      next
        case fresh: False
        then have no: "get_workflow_status ?i (rt_db rt) = None"
          using Suc.prems(1) by (simp add: get_workflow_status_eq schema_ok_distinct_ws)
        obtain res rt1 where tick: "enqueue_tick ex c row version n rt = (res, rt1)" by fastforce
        note laws = enqueue_tick_laws [OF Suc.prems(1) tick]
        show ?thesis
        proof (cases res)
          case (Inl e)
          with Some False no tick laws(1,4) show ?thesis by simp
        next
          case (Inr u)
          with Some False no tick laws show ?thesis by (intro goal [of rt1]) simp_all
        qed
      qed
    qed
  qed
qed

text \<open>The two ways a tick can fail to be enqueued: no such workflow, and an encoder that refuses.\<close>

definition tick_ready :: "'w executor \<Rightarrow> 'c cron \<Rightarrow> schedule_row \<Rightarrow> bool" where
  "tick_ready ex c row \<longleftrightarrow>
     map_of (ex_registry ex) (sr_workflow_name row) \<noteq> None
     \<and> (\<forall>t e. encode (plain_encoder (ex_ctx ex)) (scheduled_input c (cx_codec (ex_ctx ex)) row t) \<noteq> Inl e)"

lemma enqueue_tick_ready:
  assumes "tick_ready ex c row" "\<not> wf_exists (rt_db rt) (tick_id c (sr_name row) t)"
  shows "\<exists>rt'. enqueue_tick ex c row version t rt = (Inr (), rt')"
proof -
  let ?i = "tick_id c (sr_name row) t" and ?enc = "plain_encoder (ex_ctx ex)"
  let ?opts = "tick_options ?i (tick_queue row) version"
  obtain entry where entry: "map_of (ex_registry ex) (sr_workflow_name row) = Some entry"
    using assms(1) by (auto simp: tick_ready_def)
  obtain enc where enc: "encode ?enc (scheduled_input c (cx_codec (ex_ctx ex)) row t) = Inr enc"
    using assms(1) unfolding tick_ready_def by (metis sumE)
  have opts: "op_workflow_id ?opts = Some ?i" "op_delay ?opts = None" "op_timeout ?opts = None"
    "op_dedup_id ?opts = None" "op_partition_key ?opts = None" "option_error ?opts = None"
    by (simp_all add: tick_options_def op_default_def option_error_def Let_def)
  let ?in = "start_input ex entry enc (sz_name ?enc) ?opts fl_default None ?i (rt_eng rt)"
  have "\<not> dedup_taken (new_ws_row ?in s u) rows" for s u rows
    using opts by (simp add: dedup_taken_def new_ws_row_def start_input_def new_status_def Let_def
        dedup_slot_def split: option.split)
  from insert_fresh [OF _ refl this, of "rt_db rt"] assms(2) obtain ir db where
    "insert_workflow_status ?in (en_ticks (rt_eng rt) (en_reads (rt_eng rt) + 2)) (rt_db rt) = (Inr ir, db)"
    by (auto simp: start_input_def new_status_def)
  from insert_start_plain [OF opts(1-3) this] obtain owner e where
    "insert_start ex entry enc (sz_name ?enc) ?opts fl_default None (rt_eng rt) = ((?i, owner, Inr ir), e)"
    by simp
  from run_erased_inserted [OF entry opts(6) this] enc show ?thesis by (simp add: enqueue_tick_def)
qed

lemma backfill_loop_ready:
  assumes "tick_ready ex c row"
  shows "backfill_loop fuel ex c s row version t stop rt = Some (res, rt') \<Longrightarrow> schema_ok (rt_db rt) \<Longrightarrow>
    res = Inr ()"
proof (induction fuel arbitrary: t rt)
  case (Suc k)
  show ?case
  proof (cases "cr_next c s t")
    case (Some n)
    show ?thesis
    proof (cases "stop \<le> n \<or> get_workflow_status (tick_id c (sr_name row) n) (rt_db rt) \<noteq> None")
      case False
      then have "\<not> wf_exists (rt_db rt) (tick_id c (sr_name row) n)"
        using Suc.prems(2) by (simp add: get_workflow_status_eq schema_ok_distinct_ws)
      with enqueue_tick_ready [OF assms] obtain rt1 where
        tick: "enqueue_tick ex c row version n rt = (Inr (), rt1)" by blast
      with enqueue_tick_laws(2) [OF Suc.prems(2) tick] Suc Some False show ?thesis by simp
    qed (use Suc Some in \<open>auto split: if_splits\<close>)
  qed (use Suc.prems in simp)
qed simp


text \<open>
  The automatic backfill starts one second after the last fired tick, and the iterator leaves its start
  out: a tick in that second is not enqueued.
\<close>

lemma queued_start_only:
  assumes "run_workflow_erased ex name text ser opts flags None rt = (res, rt')"
    and "op_workflow_id opts = Some i" "wf_exists (rt_db rt') j" "j \<noteq> i"
  shows "wf_exists (rt_db rt) j"
proof (cases "map_of (ex_registry ex) name = None \<or> option_error opts \<noteq> None")
  case True
  with assms(1,3) show ?thesis by (auto simp: run_workflow_erased_def split: option.splits)
next
  case False
  then obtain entry where entry: "map_of (ex_registry ex) name = Some entry" "option_error opts = None" by auto
  obtain i' owner q e' where ins: "insert_start ex entry text ser opts flags None (rt_eng rt)
      = ((i', owner, q), e')" by (metis prod.collapse)
  from ins obtain s now where s: "insert_workflow_status s now (rt_db rt) = (q, en_db e')"
    "nw_id (in_status s) = i'" "i' = i"
    by (rule insert_start_insert [where j = i]) (use assms(2) in blast)
  have db: "rt_db rt' = en_db e'"
    using assms(1) entry ins by (auto simp: run_workflow_erased_def lift_eng_def split: sum.splits if_splits)
  have up: "wf_exists (rt_db rt) j" if "upsert_status s now (rt_db rt) = Inr db1" "wf_exists db1 j" for db1
    using that s(2,3) assms(4)
    by (auto simp: upsert_status_def Let_def fetch_append fetch_Cons fetch_update_where split: if_splits option.splits)
  have park: "fetch ws_uuid j (park_dead_letter k rows) \<noteq> None \<longleftrightarrow> fetch ws_uuid j rows \<noteq> None" for k rows
    by (simp add: park_dead_letter_def fetch_update_where)
  from s(1) show ?thesis
  proof (cases rule: insert_cases)
    case refused
    with assms(3) db show ?thesis by simp
  next
    case (parked db1 row db2)
    then have "wf_exists db1 j"
      using assms(3) db record_child_ws [OF parked(4)] park [of "nw_id (in_status s)" "workflow_status db2"] by simp
    then show ?thesis by (rule up [OF parked(1)])
  next
    case (stored db1 row)
    then have "wf_exists db1 j" using assms(3) db record_child_ws [OF stored(4)] by simp
    then show ?thesis by (rule up [OF stored(1)])
  qed
qed

lemma enqueue_tick_only:
  assumes "enqueue_tick ex c row version t rt = (res, rt')" "wf_exists (rt_db rt') j"
    and "j \<noteq> tick_id c (sr_name row) t"
  shows "wf_exists (rt_db rt) j"
proof (cases "encode (plain_encoder (ex_ctx ex)) (scheduled_input c (cx_codec (ex_ctx ex)) row t)")
  case (Inl e)
  with assms show ?thesis by (auto simp: enqueue_tick_def)
next
  case (Inr enc)
  obtain r rt1 where run: "run_workflow_erased ex (sr_workflow_name row) enc
      (sz_name (plain_encoder (ex_ctx ex)))
      (tick_options (tick_id c (sr_name row) t) (tick_queue row) version) fl_default None rt = (r, rt1)"
    by fastforce
  with assms(1) Inr have "rt' = rt1" by (simp add: enqueue_tick_def)
  with queued_start_only [OF run tick_options_id _ assms(3)] assms(2) show ?thesis by simp
qed

lemma backfill_loop_only:
  assumes "cron_ok c" "backfill_loop fuel ex c s row version t stop rt = Some (res, rt')"
    and "wf_exists (rt_db rt') (tick_id c (sr_name row) m)" "m \<le> t"
  shows "wf_exists (rt_db rt) (tick_id c (sr_name row) m)"
  using assms(2-4)
proof (induction fuel arbitrary: t rt)
  case (Suc k)
  show ?case
  proof (cases "cr_next c s t")
    case (Some n)
    have n: "t < n" by (rule next_tick(1) [OF assms(1) Some])
    then have other: "tick_id c (sr_name row) m \<noteq> tick_id c (sr_name row) n"
      using tick_id_inj [OF assms(1), of "sr_name row" m n] Suc.prems(3) by simp
    obtain r rt1 where tick: "enqueue_tick ex c row version n rt = (r, rt1)" by fastforce
    consider "rt' = rt" | "backfill_loop k ex c s row version n stop rt = Some (res, rt')"
      | "rt' = rt1" | "backfill_loop k ex c s row version n stop rt1 = Some (res, rt')"
      using Suc.prems(1) Some tick by (auto split: if_splits sum.splits)
    then show ?thesis
      using Suc.IH [of n] Suc.prems(2,3) n enqueue_tick_only [OF tick _ other] by cases auto
  qed (use Suc.prems in simp)
qed simp

lemma backfill_skips_next_second:
  assumes "cron_ok c" "sr_last_fired_at row = Some text" "cr_parse_time c text = Some last_fired"
    and "is_tick c s n" "last_fired < n" "n \<le> last_fired + 1000"
    and "\<not> wf_exists (rt_db rt) (tick_id c (sr_name row) n)"
    and "auto_backfill fuel ex c row rt = Some rt'"
  shows "\<not> wf_exists (rt_db rt') (tick_id c (sr_name row) n)"
proof
  assume stored: "wf_exists (rt_db rt') (tick_id c (sr_name row) n)"
  obtain stop rt1 where now: "lift_eng now_ms rt = (stop, rt1)" by fastforce
  then have same: "rt_db rt1 = rt_db rt" by (auto simp: lift_eng_def now_ms_def)
  consider "rt_db rt' = rt_db rt"
    | res where "backfill fuel ex c row (last_fired + 1000) stop rt1 = Some (res, rt')"
    using assms(2,3,8) now same by (auto simp: auto_backfill_def Let_def split: if_splits)
  then show False
  proof cases
    case (2 res)
    then consider "rt' = rt1" | s' version
      where "backfill_loop fuel ex c s' row version (last_fired + 1000) stop rt1 = Some (res, rt')"
      by (auto simp: backfill_def split: sum.splits)
    then show False
    proof cases
      case 2
      from backfill_loop_only [OF assms(1) 2 stored assms(6)] assms(7) same show False by simp
    qed (use stored assms(7) same in simp)
  qed (use stored assms(7) in simp)
qed

subsection \<open>Reconciling\<close>

text \<open>The firing tasks that were not cancelled, and the invariant that ties them to what is installed.\<close>

definition live :: "scheduler \<Rightarrow> firing list" where
  "live sc = filter (\<lambda>f. fg_token f \<notin> set (sc_cancelled sc)) (sc_firing sc)"

definition entry_of :: "firing \<Rightarrow> string \<times> installed" where
  "entry_of f = (sr_name (fg_row f), \<lparr>is_schedule_id = sr_id (fg_row f), is_token = fg_token f\<rparr>)"

definition scheduler_ok :: "scheduler \<Rightarrow> bool" where
  "scheduler_ok sc \<longleftrightarrow>
     set (sc_installed sc) = entry_of ` set (live sc)
     \<and> distinct (map fst (sc_installed sc)) \<and> distinct (map fg_token (sc_firing sc))
     \<and> (\<forall>f\<in>set (sc_firing sc). fg_token f < sc_next_token sc)
     \<and> (\<forall>t\<in>set (sc_cancelled sc). t < sc_next_token sc)"

lemma alist_delete_filter: "AList.delete n xs = filter (\<lambda>e. fst e \<noteq> n) xs"
  by (induction xs) auto

lemma installed_remove:
  "sc_installed (remove_installed n sc) = filter (\<lambda>e. fst e \<noteq> n) (sc_installed sc)"
proof (cases "map_of (sc_installed sc) n")
  case None
  then have "\<forall>e\<in>set (sc_installed sc). fst e \<noteq> n" by (auto simp: map_of_eq_None_iff)
  with None show ?thesis by (simp add: remove_installed_def filter_id_conv)
next
  case (Some i)
  then show ?thesis by (simp add: remove_installed_def alist_delete_filter)
qed

lemma scheduler_ok_remove:
  assumes "scheduler_ok sc"
  shows "scheduler_ok (remove_installed n sc)"
proof (cases "map_of (sc_installed sc) n")
  case None
  with assms show ?thesis by (simp add: remove_installed_def)
next
  case (Some i)
  let ?sc = "remove_installed n sc"
  have inst: "set (sc_installed sc) = entry_of ` set (live sc)" "distinct (map fst (sc_installed sc))"
    and tok: "distinct (map fg_token (sc_firing sc))"
    using assms by (simp_all add: scheduler_ok_def)
  from Some have "(n, i) \<in> set (sc_installed sc)" by (rule map_of_SomeD)
  then have "(n, i) \<in> entry_of ` set (live sc)" using inst(1) by simp
  then obtain g where g: "g \<in> set (live sc)" "entry_of g = (n, i)" by (metis imageE)
  have same: "fg_token f = is_token i \<longleftrightarrow> sr_name (fg_row f) = n" if f: "f \<in> set (live sc)" for f
  proof
    assume "fg_token f = is_token i"
    moreover have "fg_token g = is_token i" using g(2) by (auto simp: entry_of_def)
    moreover have "f \<in> set (sc_firing sc)" "g \<in> set (sc_firing sc)" using f g(1) by (simp_all add: live_def)
    moreover have "inj_on fg_token (set (sc_firing sc))" using tok by (simp add: distinct_map)
    ultimately have "f = g" by (metis inj_onD)
    with g(2) show "sr_name (fg_row f) = n" by (simp add: entry_of_def)
  next
    assume "sr_name (fg_row f) = n"
    moreover have "entry_of f \<in> set (sc_installed sc)" using f inst(1) by auto
    ultimately have "map_of (sc_installed sc) n = Some (snd (entry_of f))"
      using inst(2) by (simp add: entry_of_def)
    with Some show "fg_token f = is_token i" by (auto simp: entry_of_def)
  qed
  have "set (live ?sc) = {f \<in> set (live sc). fg_token f \<noteq> is_token i}"
    by (simp add: live_def remove_installed_def Some) auto
  also have "\<dots> = {f \<in> set (live sc). sr_name (fg_row f) \<noteq> n}"
    by (rule Collect_cong) (simp add: same cong: conj_cong)
  finally have "set (live ?sc) = {f \<in> set (live sc). sr_name (fg_row f) \<noteq> n}" .
  moreover have "entry_of ` {f \<in> set (live sc). sr_name (fg_row f) \<noteq> n}
      = {e \<in> entry_of ` set (live sc). fst e \<noteq> n}"
    unfolding Compr_image_eq by (simp add: entry_of_def)
  ultimately have "set (sc_installed ?sc) = entry_of ` set (live ?sc)"
    by (simp add: installed_remove inst(1))
  moreover have "distinct (map fst (sc_installed ?sc))"
    using inst(2) by (simp add: installed_remove distinct_map_filter)
  moreover have "is_token i < sc_next_token sc"
    using assms g by (auto simp: scheduler_ok_def live_def entry_of_def)
  ultimately show ?thesis
    using assms Some by (simp add: scheduler_ok_def remove_installed_def)
qed

lemma remove_stale_fold:
  fixes current
  defines "step \<equiv> \<lambda>(n, i) sc. if stale current n i then remove_installed n sc else sc"
  assumes "scheduler_ok sc"
  shows "scheduler_ok (fold step xs sc)
    \<and> sc_installed (fold step xs sc)
      = filter (\<lambda>e. \<forall>(n, i)\<in>set xs. n = fst e \<longrightarrow> \<not> stale current n i) (sc_installed sc)"
  using assms(2)
proof (induction xs arbitrary: sc)
  case (Cons x xs)
  obtain n i where x: "x = (n, i)" by fastforce
  have "scheduler_ok (step (n, i) sc)" using Cons.prems by (simp add: step_def scheduler_ok_remove)
  from Cons.IH [OF this] show ?case by (auto simp: x step_def installed_remove intro!: filter_cong)
qed simp

lemma remove_stale_installed:
  assumes "scheduler_ok sc"
  shows "scheduler_ok (remove_stale current sc)"
    and "set (sc_installed (remove_stale current sc)) = {(n, i) \<in> set (sc_installed sc). \<not> stale current n i}"
proof -
  note f = remove_stale_fold [OF assms, of current "sc_installed sc"]
  then show "scheduler_ok (remove_stale current sc)" by (simp add: remove_stale_def)
  have "i = j" if "(n, i) \<in> set (sc_installed sc)" "(n, j) \<in> set (sc_installed sc)" for n i j
    using that assms eq_key_imp_eq_value by (fastforce simp: scheduler_ok_def)
  with f show "set (sc_installed (remove_stale current sc)) = {(n, i) \<in> set (sc_installed sc). \<not> stale current n i}"
    unfolding remove_stale_def by auto (metis (no_types, lifting) case_prodD)
qed

lemma scheduler_ok_install:
  assumes "scheduler_ok sc" "map_of (sc_installed sc) (sr_name row) = None"
  shows "scheduler_ok (install row sc)"
    and "set (sc_installed (install row sc))
       = insert (sr_name row, \<lparr>is_schedule_id = sr_id row, is_token = sc_next_token sc\<rparr>) (set (sc_installed sc))"
proof -
  let ?f = "\<lparr>fg_row = row, fg_token = sc_next_token sc\<rparr>"
  have l: "live (install row sc) = live sc @ [?f]"
    using assms(1) by (auto simp: live_def install_def scheduler_ok_def)
  show set_eq: "set (sc_installed (install row sc))
       = insert (sr_name row, \<lparr>is_schedule_id = sr_id row, is_token = sc_next_token sc\<rparr>) (set (sc_installed sc))"
    using assms(2) by (simp add: install_def alist_update_fresh)
  show "scheduler_ok (install row sc)"
    unfolding scheduler_ok_def l set_eq
    using assms by (auto simp: install_def scheduler_ok_def entry_of_def alist_update_fresh map_of_fresh_keys)
qed

definition installs :: "schedule_row list \<Rightarrow> scheduler \<Rightarrow> scheduler \<Rightarrow> bool" where
  "installs rows sc sc' \<longleftrightarrow>
     set (sc_installed sc) \<subseteq> set (sc_installed sc')
     \<and> (\<forall>row\<in>set rows. sr_status row = ACTIVE \<longrightarrow> sr_name row \<in> fst ` set (sc_installed sc'))
     \<and> (\<forall>e\<in>set (sc_installed sc'). e \<in> set (sc_installed sc) \<or>
          (\<exists>row\<in>set rows. sr_status row = ACTIVE \<and> sr_name row = fst e \<and> is_schedule_id (snd e) = sr_id row))"

lemma installs_skip:
  assumes "installs rows sc sc'" "sr_status row \<noteq> ACTIVE \<or> map_of (sc_installed sc) (sr_name row) \<noteq> None"
  shows "installs (row # rows) sc sc'"
proof -
  have "sr_name row \<in> fst ` set (sc_installed sc')" if "sr_status row = ACTIVE"
  proof -
    from that assms(2) obtain i where "(sr_name row, i) \<in> set (sc_installed sc)"
      using map_of_SomeD [of "sc_installed sc" "sr_name row"] by auto
    with assms(1) show ?thesis unfolding installs_def by force
  qed
  with assms(1) show ?thesis unfolding installs_def by auto
qed

lemma installs_install:
  assumes "installs rows (install row sc) sc'" "scheduler_ok sc" "sr_status row = ACTIVE"
    and "map_of (sc_installed sc) (sr_name row) = None"
  shows "installs (row # rows) sc sc'"
proof -
  have new: "set (sc_installed (install row sc))
      = insert (sr_name row, \<lparr>is_schedule_id = sr_id row, is_token = sc_next_token sc\<rparr>) (set (sc_installed sc))"
    by (rule scheduler_ok_install(2) [OF assms(2,4)])
  then have "(sr_name row, \<lparr>is_schedule_id = sr_id row, is_token = sc_next_token sc\<rparr>) \<in> set (sc_installed sc')"
    using assms(1) unfolding installs_def by auto
  then have "sr_name row \<in> fst ` set (sc_installed sc')" by force
  with assms(1,3) new show ?thesis unfolding installs_def by auto
qed

lemma install_active_spec:
  assumes "install_active fuel ex c rows (sc, rt) = Some (sc', rt')" "scheduler_ok sc"
  shows "scheduler_ok sc' \<and> installs rows sc sc'"
  using assms
proof (induction rows arbitrary: sc rt)
  case Nil
  then show ?case by (simp add: installs_def)
next
  case (Cons row rows)
  show ?case
  proof (cases "sr_status row \<noteq> ACTIVE \<or> map_of (sc_installed sc) (sr_name row) \<noteq> None")
    case True
    with Cons.prems(1) have "install_active fuel ex c rows (sc, rt) = Some (sc', rt')" by simp
    from Cons.IH [OF this Cons.prems(2)] installs_skip [OF _ True] show ?thesis by blast
  next
    case False
    then have f: "sr_status row = ACTIVE" "map_of (sc_installed sc) (sr_name row) = None" by simp_all
    then obtain rt1 where "install_active fuel ex c rows (install row sc, rt1) = Some (sc', rt')"
      using Cons.prems(1) by (auto split: option.splits)
    from Cons.IH [OF this scheduler_ok_install(1) [OF Cons.prems(2) f(2)]]
      installs_install [OF _ Cons.prems(2) f] show ?thesis by blast
  qed
qed

lemma live_names:
  assumes "scheduler_ok sc"
  shows "distinct (map (\<lambda>f. sr_name (fg_row f)) (live sc))"
proof -
  have inst: "set (sc_installed sc) = entry_of ` set (live sc)" "distinct (map fst (sc_installed sc))"
    and tok: "distinct (map fg_token (sc_firing sc))"
    using assms by (simp_all add: scheduler_ok_def)
  have "f = g" if fg: "f \<in> set (live sc)" "g \<in> set (live sc)" "sr_name (fg_row f) = sr_name (fg_row g)" for f g
  proof -
    have "entry_of f \<in> set (sc_installed sc)" "entry_of g \<in> set (sc_installed sc)" using fg inst(1) by simp_all
    moreover have "inj_on fst (set (sc_installed sc))" using inst(2) by (simp add: distinct_map)
    moreover have "fst (entry_of f) = fst (entry_of g)" using fg(3) by (simp add: entry_of_def)
    ultimately have "entry_of f = entry_of g" by (metis inj_onD)
    then have "fg_token f = fg_token g" by (simp add: entry_of_def)
    moreover have "f \<in> set (sc_firing sc)" "g \<in> set (sc_firing sc)" using fg(1,2) by (simp_all add: live_def)
    moreover have "inj_on fg_token (set (sc_firing sc))" using tok by (simp add: distinct_map)
    ultimately show ?thesis by (metis inj_onD)
  qed
  moreover have "distinct (live sc)" using tok by (auto simp: live_def distinct_map)
  ultimately show ?thesis by (simp add: distinct_map inj_on_def)
qed

lemma not_stale_row:
  assumes "\<not> stale (map (\<lambda>r. (sr_name r, r)) rows) n i"
  shows "\<exists>row\<in>set rows. sr_status row = ACTIVE \<and> sr_name row = n \<and> is_schedule_id i = sr_id row"
proof -
  from assms obtain row where row: "map_of (map (\<lambda>r. (sr_name r, r)) rows) n = Some row"
    "sr_status row = ACTIVE" "is_schedule_id i = sr_id row"
    by (auto simp: stale_def split: option.splits)
  from map_of_SomeD [OF row(1)] have "row \<in> set rows" "sr_name row = n" by auto
  with row show ?thesis by blast
qed

lemma installed_matches:
  assumes "installs rows sc sc'" "distinct (map sr_name rows)"
    and "\<forall>e\<in>set (sc_installed sc). \<exists>row\<in>set rows. sr_status row = ACTIVE \<and> sr_name row = fst e
           \<and> is_schedule_id (snd e) = sr_id row"
  shows "(\<lambda>e. (fst e, is_schedule_id (snd e))) ` set (sc_installed sc')
       = (\<lambda>r. (sr_name r, sr_id r)) ` {r \<in> set rows. sr_status r = ACTIVE}"
proof
  have each: "\<exists>row\<in>set rows. sr_status row = ACTIVE \<and> sr_name row = fst e \<and> is_schedule_id (snd e) = sr_id row"
    if "e \<in> set (sc_installed sc')" for e
    using that assms(1,3) unfolding installs_def by blast
  then show "(\<lambda>e. (fst e, is_schedule_id (snd e))) ` set (sc_installed sc')
      \<subseteq> (\<lambda>r. (sr_name r, sr_id r)) ` {r \<in> set rows. sr_status r = ACTIVE}" by fastforce
  show "(\<lambda>r. (sr_name r, sr_id r)) ` {r \<in> set rows. sr_status r = ACTIVE}
      \<subseteq> (\<lambda>e. (fst e, is_schedule_id (snd e))) ` set (sc_installed sc')"
  proof clarify
    fix row
    assume row: "row \<in> set rows" "sr_status row = ACTIVE"
    with assms(1) obtain e where e: "e \<in> set (sc_installed sc')" "sr_name row = fst e"
      unfolding installs_def by blast
    from each [OF e(1)] obtain row' where r': "row' \<in> set rows" "sr_name row' = fst e"
      "is_schedule_id (snd e) = sr_id row'" by blast
    have "inj_on sr_name (set rows)" using assms(2) by (simp add: distinct_map)
    with row r' e(2) have "row' = row" by (metis inj_onD)
    with e r' show "(sr_name row, sr_id row) \<in> (\<lambda>e. (fst e, is_schedule_id (snd e))) ` set (sc_installed sc')"
      by (intro image_eqI [of _ _ e]) simp_all
  qed
qed

text \<open>A pass returns: every backfill of it ends, and more fuel does not change the result.\<close>

lemma backfill_loop_mono:
  "backfill_loop k ex c s row version t stop rt = Some x \<Longrightarrow> k \<le> k' \<Longrightarrow>
   backfill_loop k' ex c s row version t stop rt = Some x"
proof (induction k arbitrary: k' t rt)
  case (Suc k)
  from Suc.prems(2) obtain j where j: "k' = Suc j" "k \<le> j" by (cases k') auto
  show ?case
  proof (cases "cr_next c s t")
    case (Some n)
    obtain r rt1 where "enqueue_tick ex c row version n rt = (r, rt1)" by fastforce
    with Suc.prems(1) Suc.IH j Some show ?thesis by (auto split: if_splits sum.splits)
  qed (use Suc.prems j in simp)
qed simp

lemma backfill_loop_schema:
  "backfill_loop fuel ex c s row version t stop rt = Some (res, rt') \<Longrightarrow> schema_ok (rt_db rt) \<Longrightarrow>
   schema_ok (rt_db rt')"
proof (induction fuel arbitrary: t rt)
  case (Suc k)
  show ?case
  proof (cases "cr_next c s t")
    case (Some n)
    obtain r rt1 where tick: "enqueue_tick ex c row version n rt = (r, rt1)" by fastforce
    with Suc Some enqueue_tick_laws(2) [OF Suc.prems(2) tick] show ?thesis
      by (auto split: if_splits sum.splits)
  qed (use Suc.prems in simp)
qed simp

lemma backfill_returns:
  assumes "cron_ok c" "schema_ok (rt_db rt)"
  shows "\<exists>k res rt'. schema_ok (rt_db rt') \<and> (\<forall>fuel\<ge>k. backfill fuel ex c row start stop rt = Some (res, rt'))"
proof (cases "parse_cron c (sr_schedule row)")
  case (Inr s)
  let ?v = "get_latest_application_version (rt_db rt)"
  from backfill_loop_complete [OF assms lessI, of stop start ex s row ?v] obtain res rt' where
    run: "backfill_loop (Suc (nat (stop - start))) ex c s row ?v start stop rt = Some (res, rt')" by blast
  from backfill_loop_schema [OF run assms(2)] backfill_loop_mono [OF run] Inr show ?thesis
    unfolding backfill_def by auto
qed (use assms(2) in \<open>auto simp: backfill_def\<close>)

lemma auto_backfill_returns:
  assumes "cron_ok c" "schema_ok (rt_db rt)"
  shows "\<exists>k rt'. schema_ok (rt_db rt') \<and> (\<forall>fuel\<ge>k. auto_backfill fuel ex c row rt = Some rt')"
proof (cases "sr_automatic_backfill row \<and> Option.bind (sr_last_fired_at row) (cr_parse_time c) \<noteq> None")
  case True
  then obtain last_fired where t: "Option.bind (sr_last_fired_at row) (cr_parse_time c) = Some last_fired"
    by blast
  obtain stop rt1 where now: "lift_eng now_ms rt = (stop, rt1)" by fastforce
  then have "schema_ok (rt_db rt1)" using assms(2) by (auto simp: lift_eng_def now_ms_def)
  from backfill_returns [OF assms(1) this, of ex row "last_fired + 1000" stop]
  obtain k res rt' where "schema_ok (rt_db rt')"
    "\<forall>fuel\<ge>k. backfill fuel ex c row (last_fired + 1000) stop rt1 = Some (res, rt')" by blast
  then have "auto_backfill fuel ex c row rt = Some (if last_fired + 1000 < stop then rt' else rt1)"
    if "k \<le> fuel" for fuel using True t now that by (simp add: auto_backfill_def Let_def)
  moreover have "schema_ok (rt_db (if last_fired + 1000 < stop then rt' else rt1))"
    using \<open>schema_ok (rt_db rt')\<close> \<open>schema_ok (rt_db rt1)\<close> by simp
  ultimately show ?thesis by blast
next
  case False
  with assms(2) show ?thesis by (auto simp: auto_backfill_def split: option.splits)
qed

lemma install_active_returns:
  assumes "cron_ok c" "schema_ok (rt_db rt)"
  shows "\<exists>k st. \<forall>fuel\<ge>k. install_active fuel ex c rows (sc, rt) = Some st"
  using assms(2)
proof (induction rows arbitrary: sc rt)
  case (Cons row rows)
  obtain k rt' where row: "schema_ok (rt_db rt')" "\<forall>fuel\<ge>k. auto_backfill fuel ex c row rt = Some rt'"
    using auto_backfill_returns [OF assms(1) Cons.prems] by blast
  obtain k1 st1 where skip: "\<forall>fuel\<ge>k1. install_active fuel ex c rows (sc, rt) = Some st1"
    using Cons.IH [OF Cons.prems] by blast
  obtain k2 st2 where rest: "\<forall>fuel\<ge>k2. install_active fuel ex c rows (install row sc, rt') = Some st2"
    using Cons.IH [OF row(1)] by blast
  show ?case
  proof (cases "sr_status row \<noteq> ACTIVE \<or> map_of (sc_installed sc) (sr_name row) \<noteq> None")
    case False
    with row(2) rest have "\<forall>fuel\<ge>max k k2. install_active fuel ex c (row # rows) (sc, rt) = Some st2"
      by simp
    then show ?thesis by blast
  next
    case True
    with skip have "\<forall>fuel\<ge>k1. install_active fuel ex c (row # rows) (sc, rt) = Some st1" by auto
    then show ?thesis by blast
  qed
qed simp

text \<open>C30. A reconcile pass leaves exactly the active schedules of the table firing: one task for each
  row that is ACTIVE, under its current id, none for a schedule that was deleted, paused or replaced,
  and the bookkeeping stays consistent.  The pass ends: from some fuel on, whatever the length of its
  backfills, it has this one result.\<close>

theorem reconcile_fires_active:
  assumes "scheduler_ok sc" "schema_ok (rt_db rt)" "cron_ok c"
  shows "\<exists>k sc' rt'. (\<forall>fuel\<ge>k. reconcile fuel ex c (sc, rt) = Some (sc', rt'))
    \<and> scheduler_ok sc' \<and> distinct (map (\<lambda>f. sr_name (fg_row f)) (live sc'))
    \<and> (\<lambda>f. (sr_name (fg_row f), sr_id (fg_row f))) ` set (live sc')
      = (\<lambda>r. (sr_name r, sr_id r)) ` {r \<in> set (workflow_schedules (rt_db rt)). sr_status r = ACTIVE}"
proof -
  let ?rows = "workflow_schedules (rt_db rt)"
  let ?sc = "remove_stale (map (\<lambda>r. (sr_name r, r)) ?rows) sc"
  note kept = remove_stale_installed [OF assms(1), of "map (\<lambda>r. (sr_name r, r)) ?rows"]
  obtain k sc' rt' where inst_act: "\<forall>fuel\<ge>k. install_active fuel ex c ?rows (?sc, rt) = Some (sc', rt')"
    using install_active_returns [OF assms(3,2), of ex ?rows ?sc] by auto
  then have rec: "\<forall>fuel\<ge>k. reconcile fuel ex c (sc, rt) = Some (sc', rt')"
    by (simp add: reconcile_def list_schedules_def Let_def)
  from install_active_spec [OF inst_act [rule_format, OF order_refl] kept(1)]
  have ok: "scheduler_ok sc'" and inst: "installs ?rows ?sc sc'" by simp_all
  have "\<forall>e\<in>set (sc_installed ?sc). \<exists>row\<in>set ?rows. sr_status row = ACTIVE \<and> sr_name row = fst e
      \<and> is_schedule_id (snd e) = sr_id row"
    unfolding kept(2) using not_stale_row by auto
  moreover have "distinct (map sr_name ?rows)" using assms(2) by (simp add: schema_defs)
  ultimately have "(\<lambda>e. (fst e, is_schedule_id (snd e))) ` set (sc_installed sc')
      = (\<lambda>r. (sr_name r, sr_id r)) ` {r \<in> set ?rows. sr_status r = ACTIVE}"
    by (intro installed_matches [OF inst])
  moreover have "set (sc_installed sc') = entry_of ` set (live sc')" using ok by (simp add: scheduler_ok_def)
  ultimately have "(\<lambda>f. (sr_name (fg_row f), sr_id (fg_row f))) ` set (live sc')
      = (\<lambda>r. (sr_name r, sr_id r)) ` {r \<in> set ?rows. sr_status r = ACTIVE}"
    by (simp add: image_image entry_of_def)
  with rec ok live_names [OF ok] show ?thesis by blast
qed

text \<open>When the reconciler ends, on shutdown, no schedule is left firing.\<close>

lemma reconcile_keeps_scheduler:
  assumes "scheduler_ok sc" "reconcile fuel ex c (sc, rt) = Some (sc', rt')"
  shows "scheduler_ok sc'"
  using install_active_spec [OF _ remove_stale_installed(1) [OF assms(1)]] assms(2)
  by (fastforce simp: reconcile_def Let_def)

lemma cancel_all_stops: "scheduler_ok sc \<Longrightarrow> live (cancel_all sc) = []"
  by (auto simp: live_def cancel_all_def scheduler_ok_def entry_of_def filter_empty_conv image_iff)

lemma reconciler_stops_all:
  "run_reconciler n fuel ex c (sc, rt) = Some (sc', rt') \<Longrightarrow> scheduler_ok sc \<Longrightarrow>
   live sc' = [] \<and> sc_installed sc' = []"
proof (induction n arbitrary: sc rt)
  case (Suc n)
  obtain sc1 rt1 where pass: "(if ex_launched ex then reconcile fuel ex c (sc, rt) else Some (sc, rt)) = Some (sc1, rt1)"
    using Suc.prems(1) by (fastforce split: option.splits)
  then have ok: "scheduler_ok sc1"
    using Suc.prems(2) reconcile_keeps_scheduler by (auto split: if_splits)
  obtain cancelled rt2 where "lift_eng nap rt1 = (cancelled, rt2)" by fastforce
  with Suc.prems(1) pass Suc.IH [OF _ ok] cancel_all_stops [OF ok] show ?case
    by (auto simp: cancel_all_def split: if_splits)
qed simp

subsection \<open>Instances\<close>

text \<open>A schedule that ticks every minute.\<close>

definition minutely :: "unit cron" where
  "minutely =
     \<lparr>cr_parse = (\<lambda>e. if e = ''0 * * * * *'' then Inr () else Inl ''unsupported''),
      cr_next = (\<lambda>_ t. Some (60000 * (t div 60000 + 1))), cr_rfc3339 = show_int,
      cr_parse_time = (\<lambda>_. None), cr_time_json = JInt\<rparr>"

definition minutely_row :: schedule_row where
  "minutely_row =
     \<lparr>sr_id = ''s1'', sr_name = ''report'', sr_workflow_name = ''charge'', sr_workflow_class_name = None,
      sr_schedule = '' * * * * *'', sr_status = ACTIVE, sr_context = ''null'', sr_last_fired_at = None,
      sr_automatic_backfill = True, sr_cron_timezone = None, sr_queue_name = None\<rparr>"

lemma minutely_ok: "cron_ok minutely"
proof -
  have next_min: "t < 60000 * (t div 60000 + 1)" for t :: int
    using minus_mult_div_eq_mod [of t 60000] pos_mod_bound [of 60000 t] by (simp add: algebra_simps)
  have same: "u div 60000 = t div 60000" if "t \<le> u" "u < 60000 * (t div 60000 + 1)" for t u :: int
    using zdiv_mono1 [OF that(1), of 60000] minus_mult_div_eq_mod [of u 60000] pos_mod_sign [of 60000 u] that(2)
    by (simp add: algebra_simps)
  show ?thesis unfolding cron_ok_def minutely_def using next_min same
    by (auto intro!: injI dest: show_int_inj)
qed

lemma minutely_parse: "parse_cron minutely (sr_schedule minutely_row) = Inr ()"
  by (simp add: parse_cron_def minutely_def minutely_row_def trim_def is_space_def)

definition fired_rt :: "nat rt" where
  "fired_rt = sample_rt\<lparr>rt_eng := sample_eng\<lparr>en_db := empty_db\<lparr>workflow_status :=
      [sample_row (tick_id minutely ''report'' 60000) Success (Some DBOS_INTERNAL_QUEUE_NAME)]\<rparr>\<rparr>\<rparr>"



text \<open>One schedule is active and one was paused while it was installed.\<close>

definition paused_scheduler :: scheduler where
  "paused_scheduler =
     \<lparr>sc_installed = [(''nightly'', \<lparr>is_schedule_id = ''s2'', is_token = 0\<rparr>)], sc_cancelled = [],
      sc_firing = [\<lparr>fg_row = minutely_row\<lparr>sr_id := ''s2'', sr_name := ''nightly''\<rparr>, fg_token = 0\<rparr>],
      sc_next_token = 1\<rparr>"

definition scheduled_rt :: "nat rt" where
  "scheduled_rt = sample_rt\<lparr>rt_eng := sample_eng\<lparr>en_db := sample_db\<lparr>workflow_schedules :=
      [minutely_row, minutely_row\<lparr>sr_id := ''s2'', sr_name := ''nightly'', sr_status := PAUSED\<rparr>]\<rparr>\<rparr>\<rparr>"

lemma reconcile_fires_active_witness:
  "\<exists>k sc' rt'. reconcile k sample_ex minutely (paused_scheduler, scheduled_rt) = Some (sc', rt')
     \<and> (\<lambda>f. (sr_name (fg_row f), sr_id (fg_row f))) ` set (live sc') = {(''report'', ''s1'')}"
proof -
  have ok: "scheduler_ok paused_scheduler"
    by (simp add: scheduler_ok_def paused_scheduler_def live_def entry_of_def)
  have schema: "schema_ok (rt_db scheduled_rt)"
    by (simp add: scheduled_rt_def schema_defs sample_simps dedup_unique_def minutely_row_def)
  have rows: "{r \<in> set (workflow_schedules (rt_db scheduled_rt)). sr_status r = ACTIVE} = {minutely_row}"
    by (auto simp: scheduled_rt_def minutely_row_def ACTIVE_def PAUSED_def)
  obtain k sc' rt' where "\<forall>fuel\<ge>k. reconcile fuel sample_ex minutely (paused_scheduler, scheduled_rt) = Some (sc', rt')"
    "(\<lambda>f. (sr_name (fg_row f), sr_id (fg_row f))) ` set (live sc')
      = (\<lambda>r. (sr_name r, sr_id r)) ` {r \<in> set (workflow_schedules (rt_db scheduled_rt)). sr_status r = ACTIVE}"
    using reconcile_fires_active [OF ok schema minutely_ok, of sample_ex] by blast
  then show ?thesis unfolding rows by (auto simp: minutely_row_def)
qed

end
