(* ===== verification/Conductor_Laws.thy ===== *)
theory Conductor_Laws
  imports Conductor Scheduler_Laws
begin

text \<open>
  The conductor protocol as a contract: every frame with a readable base is answered, once, with a
  response for its type and request id; the handlers act on the database only through its own
  operations; and the only request that may not end is a deletion on a cycle of parent links.
\<close>

subsection \<open>The handlers only use database operations\<close>

abbreviation db_steps :: "sysdb \<Rightarrow> sysdb \<Rightarrow> bool" where "db_steps \<equiv> db_step\<^sup>*\<^sup>*"

lemma db_steps_schema: "db_steps db db' \<Longrightarrow> schema_ok db \<Longrightarrow> schema_ok db'"
  by (induction rule: rtranclp_induct) (auto dest: db_step_contract)

named_theorems steps

lemma run_erased_steps [steps]:
  "db_steps (rt_db rt) (rt_db (snd (run_workflow_erased ex name input ser opts flags child rt)))"
proof (cases "map_of (ex_registry ex) name = None \<or> option_error opts \<noteq> None")
  case True
  then show ?thesis by (auto simp: run_workflow_erased_def split: option.splits)
next
  case False
  then obtain entry where entry: "map_of (ex_registry ex) name = Some entry" "option_error opts = None" by auto
  obtain i owner q e' where ins: "insert_start ex entry input ser opts flags child (rt_eng rt)
      = ((i, owner, q), e')" by (metis prod.collapse)
  from ins obtain s now where "insert_workflow_status s now (rt_db rt) = (q, en_db e')"
    by (rule insert_start_insert)
  then have "db_step (rt_db rt) (en_db e')" by (metis db_step.insert snd_conv)
  moreover have "rt_db (snd (run_workflow_erased ex name input ser opts flags child rt)) = en_db e'"
    using entry ins by (auto simp: run_workflow_erased_def lift_eng_def split: sum.splits)
  ultimately show ?thesis by simp
qed

lemma lift_eng_db: "(\<And>e. en_db (snd (f e)) = en_db e) \<Longrightarrow> rt_db (snd (lift_eng f rt)) = rt_db rt"
  by (simp add: lift_eng_def split_beta)

lemma lift_db_db: "rt_db (snd (lift_db f rt)) = snd (f (rt_db rt))"
  by (simp add: lift_db_def lift_eng_def split_beta)

lemma rt_reads [simp]:
  "rt_db (snd (lift_eng now_ms rt)) = rt_db rt" "rt_db (snd (lift_eng new_uuid rt)) = rt_db rt"
  by (simp_all add: lift_eng_db now_ms_def new_uuid_def)

lemma recover_loop_steps [steps]: "db_steps (rt_db rt) (rt_db (snd (recover_loop ex ws rt)))"
proof (induction ws arbitrary: rt)
  case (Cons w ws)
  let ?rt = "snd (lift_db (clear_queue_assignment (wv_id w)) rt)"
  have cleared: "db_step (rt_db rt) (rt_db ?rt)" unfolding lift_db_db by (rule db_step.clear)
  let ?run = "run_workflow_erased ex (wv_name w) (wv_input w) (wv_serialization w)
      (recovery_options w) recovery_flags None rt"
  have "db_steps (rt_db rt) (rt_db (snd (recover_loop ex ws (snd ?run))))"
    using run_erased_steps Cons.IH by (rule rtranclp_trans)
  moreover have "db_steps (rt_db rt) (rt_db (snd (recover_loop ex ws ?rt)))"
    using cleared Cons.IH by (rule converse_rtranclp_into_rtranclp)
  ultimately show ?case
    using Cons.IH [of rt] run_erased_steps [of rt ex "wv_name w" "wv_input w" "wv_serialization w"
        "recovery_options w" recovery_flags None]
    by (cases ?run) (auto simp: split_beta Let_def split: sum.splits)
qed simp

lemma manage_steps [steps]:
  "db_steps (rt_db rt) (rt_db (snd (manage_cancel i rt)))"
  "db_steps (rt_db rt) (rt_db (snd (manage_resume i rt)))"
  "db_steps (rt_db rt) (rt_db (snd (manage_fork opts rt)))"
  by (auto simp: manage_cancel_def manage_resume_def manage_fork_def Let_def split_beta lift_db_db
      intro: r_into_rtranclp db_step.intros)

lemma each_id_steps:
  assumes "\<And>i rt. db_steps (rt_db rt) (rt_db (snd (f i rt)))"
  shows "db_steps (rt_db rt) (rt_db (snd (each_id f is rt)))"
proof (induction "is" arbitrary: rt)
  case (Cons i "is")
  obtain r rt1 where f: "f i rt = (r, rt1)" by fastforce
  then have "db_steps (rt_db rt) (rt_db rt1)" using assms [of rt i] by simp
  then have "db_steps (rt_db rt) (rt_db (snd (each_id f is rt1)))" using Cons.IH by (rule rtranclp_trans)
  with f \<open>db_steps (rt_db rt) (rt_db rt1)\<close> show ?case by (simp split: sum.splits)
qed simp

lemma fold_delete_steps: "db_steps db (fold delete_workflow_row ids db)"
proof (induction ids arbitrary: db)
  case (Cons i ids)
  show ?case unfolding fold_simps by (rule converse_rtranclp_into_rtranclp [OF _ Cons.IH]) (rule db_step.delete)
qed simp

lemma delete_each_steps: "delete_each fuel children is db = Some db' \<Longrightarrow> db_steps db db'"
proof (induction "is" arbitrary: db)
  case (Cons i "is")
  then obtain db1 where db1: "manage_delete fuel i children db = Some db1"
    "delete_each fuel children is db1 = Some db'" by (auto simp: Option.bind_eq_Some_conv)
  then have "db_steps db db1" using fold_delete_steps by (auto simp: manage_delete_def)
  with Cons.IH [OF db1(2)] show ?case by simp
qed simp

lemma retention_steps: "db_steps (rt_db rt) (rt_db (snd (handle_retention rid body rt)))"
proof -
  let ?gc = "garbage_collect (rb_gc_cutoff_epoch_ms body) (rb_gc_rows_threshold body)"
  let ?rt = "if rb_gc_cutoff_epoch_ms body \<noteq> None \<or> rb_gc_rows_threshold body \<noteq> None
    then snd (lift_db ?gc rt) else rt"
  have "db_steps (rt_db rt) (rt_db ?rt)"
    by (auto simp: lift_db_db intro: r_into_rtranclp db_step.gc)
  moreover have "db_steps (rt_db ?rt) (rt_db (snd (timeout_before cutoff ?rt)))" for cutoff
    unfolding timeout_before_def by (rule each_id_steps) (rule manage_steps)
  ultimately show ?thesis
    unfolding handle_retention_def Let_def
    by (auto simp: split_beta split: option.split intro: rtranclp_trans)
qed

lemma toggle_steps: "db_steps (rt_db rt) (rt_db (snd (handle_schedule_toggle rid pause name rt)))"
  by (auto simp: handle_schedule_toggle_def Let_def split_beta lift_db_db pause_schedule_def
      resume_schedule_def schedule_set_status_def intro: r_into_rtranclp db_step.sched_status)

lemma handler_steps:
  "db_steps (rt_db rt) (rt_db (snd (handle_recovery ex rid executors rt)))"
  "db_steps (rt_db rt) (rt_db (snd (handle_cancel rid req rt)))"
  "db_steps (rt_db rt) (rt_db (snd (handle_resume rid req rt)))"
  "db_steps (rt_db rt) (rt_db (snd (handle_fork_workflow rid body rt)))"
  "db_steps (rt_db rt) (rt_db (snd (handle_set_latest_version rid version rt)))"
proof -
  show "db_steps (rt_db rt) (rt_db (snd (handle_recovery ex rid executors rt)))"
    by (simp add: handle_recovery_def recover_pending_workflows_def split_beta steps)
  show "db_steps (rt_db rt) (rt_db (snd (handle_cancel rid req rt)))"
    "db_steps (rt_db rt) (rt_db (snd (handle_resume rid req rt)))"
    by (simp_all add: handle_cancel_def handle_resume_def split_beta each_id_steps steps)
  show "db_steps (rt_db rt) (rt_db (snd (handle_fork_workflow rid body rt)))"
    using manage_steps(3) [where rt = rt]
    by (auto simp: handle_fork_workflow_def Let_def split: sum.splits prod.splits) (metis snd_conv)+
  show "db_steps (rt_db rt) (rt_db (snd (handle_set_latest_version rid version rt)))"
    by (auto simp: handle_set_latest_version_def Let_def split_beta lift_db_db
        intro: r_into_rtranclp db_step.latest)
qed

subsection \<open>The handlers answer\<close>

lemma respond_success_answers [simp]: "answers t rid (respond_success m rid error) \<longleftrightarrow> msg m = t"
  by (auto simp: respond_success_def response_defs split: option.split)

lemma acting_answers [simp]:
  "answers t rid (fst (handle_recovery ex rid executors rt)) \<longleftrightarrow> msg RECOVERY = t"
  "answers t rid (fst (handle_cancel rid req rt)) \<longleftrightarrow> msg CANCEL = t"
  "answers t rid (fst (handle_resume rid req rt)) \<longleftrightarrow> msg RESUME = t"
  "answers t rid (fst (handle_fork_workflow rid body rt)) \<longleftrightarrow> msg FORK_WORKFLOW = t"
  "answers t rid (fst (handle_retention rid rbody rt)) \<longleftrightarrow> msg RETENTION = t"
  "answers t rid (fst (handle_schedule_toggle rid pause name rt))
     \<longleftrightarrow> msg (if pause then PAUSE_SCHEDULE else RESUME_SCHEDULE) = t"
  "answers t rid (fst (handle_set_latest_version rid version rt)) \<longleftrightarrow> msg SET_LATEST_APPLICATION_VERSION = t"
  by (auto simp: handle_recovery_def handle_cancel_def handle_resume_def handle_fork_workflow_def
      handle_retention_def handle_schedule_toggle_def handle_set_latest_version_def response_defs Let_def
      split_beta split: sum.split prod.split)

lemma reading_answers [simp]:
  "answers t rid (handle_executor_info env ex rid) \<longleftrightarrow> msg EXECUTOR_INFO = t"
  "answers t rid (handle_list_workflows cd rid queued lb db)
     \<longleftrightarrow> msg (if queued then LIST_QUEUED_WORKFLOWS else LIST_WORKFLOWS) = t"
  "answers t rid (handle_list_steps rid i db) \<longleftrightarrow> msg LIST_STEPS = t"
  "answers t rid (handle_get_workflow cd rid gw db) \<longleftrightarrow> msg GET_WORKFLOW = t"
  "answers t rid (handle_exist_pending rid ep db) \<longleftrightarrow> msg EXIST_PENDING_WORKFLOWS = t"
  "answers t rid (handle_workflow_aggregates m rid db) \<longleftrightarrow> msg m = t"
  "answers t rid (handle_list_schedules cd rid lc db) \<longleftrightarrow> msg LIST_SCHEDULES = t"
  "answers t rid (handle_get_schedule cd rid gs db) \<longleftrightarrow> msg GET_SCHEDULE = t"
  "answers t rid (handle_get_workflow_events rid i db) \<longleftrightarrow> msg GET_WORKFLOW_EVENTS = t"
  "answers t rid (handle_get_workflow_notifications rid i db) \<longleftrightarrow> msg GET_WORKFLOW_NOTIFICATIONS = t"
  "answers t rid (handle_get_workflow_streams rid i db) \<longleftrightarrow> msg GET_WORKFLOW_STREAMS = t"
  "answers t rid (handle_step_aggregates rid db) \<longleftrightarrow> msg GET_STEP_AGGREGATES = t"
  "answers t rid (handle_list_application_versions rid db) \<longleftrightarrow> msg LIST_APPLICATION_VERSIONS = t"
  "answers t rid (handle_list_queues env ex rid) \<longleftrightarrow> msg LIST_QUEUES = t"
  "answers t rid (handle_get_queue env ex rid name) \<longleftrightarrow> msg GET_QUEUE = t"
  "answers t rid (unsupported u rid) \<longleftrightarrow> u = t"
  unfolding handle_executor_info_def handle_list_workflows_def handle_list_steps_def
    handle_get_workflow_def handle_exist_pending_def handle_workflow_aggregates_def
    handle_list_schedules_def handle_get_schedule_def handle_get_workflow_events_def
    handle_get_workflow_notifications_def handle_get_workflow_streams_def handle_step_aggregates_def
    handle_list_application_versions_def handle_list_queues_def handle_get_queue_def unsupported_def
    response_defs
  by (simp_all split: option.split)

subsection \<open>Dispatch\<close>

text \<open>What a dispatch owes its caller.\<close>

definition served :: "string \<Rightarrow> string \<Rightarrow> 'w rt \<Rightarrow> (string + json) \<times> 'w rt \<Rightarrow> bool" where
  "served t rid rt x \<longleftrightarrow>
     db_steps (rt_db rt) (rt_db (snd x))
     \<and> (case fst x of Inl _ \<Rightarrow> snd x = rt | Inr v \<Rightarrow> answers t rid v)"

lemma served_plain: "answers t rid v \<Longrightarrow> served t rid rt (Inr v, rt)"
  by (simp add: served_def)

lemma served_acting:
  assumes "\<And>req. answers t rid (fst (f req rt)) \<and> db_steps (rt_db rt) (rt_db (snd (f req rt)))"
    and "acting cd r f data rt = Some x"
  shows "served t rid rt x"
  using assms by (auto simp: acting_def served_def split_beta split: sum.splits)

lemma served_reading:
  assumes "\<And>req. answers t rid (f req (rt_db rt))" "reading cd r f data rt = Some x"
  shows "served t rid rt x"
  using assms(2) unfolding reading_def by (rule served_acting [rotated]) (simp add: assms(1))

lemma dispatch_served:
  assumes "dispatch fuel env ex t rid data rt = Some x"
  shows "served t rid rt x"
proof (cases "message_of t")
  case None
  with assms show ?thesis by (auto simp: dispatch_def intro: served_plain)
next
  case (Some m)
  then have t: "msg m = t" by (rule message_of_Some)
  note d = assms [unfolded dispatch_def Let_def Some option.case]
  show ?thesis
  proof (cases "m = DELETE")
    case True
    show ?thesis
      using d t unfolding True message.case
      by (auto simp: handle_delete_def served_def lift_db_db delete_each_steps split: sum.splits)
  next
    case False
    with d t show ?thesis
      by (cases m; simp only: message.case option.inject)
        (auto intro!: served_plain elim!: served_acting [rotated] served_reading [rotated]
          simp: handler_steps toggle_steps retention_steps)
  qed
qed

subsection \<open>Deletions end\<close>

lemma descendants_mono:
  "descendants k db queue = Some ids \<Longrightarrow> k \<le> k' \<Longrightarrow> descendants k' db queue = Some ids"
proof (induction k arbitrary: k' queue ids)
  case 0
  then show ?case by (cases queue) simp_all
next
  case (Suc k)
  from Suc.prems(2) obtain j where j: "k' = Suc j" "k \<le> j" by (cases k') auto
  show ?case
  proof (cases queue)
    case (Cons i rest)
    with Suc.prems(1) obtain rec where
      "descendants k db (rest @ get_workflow_children i db) = Some rec" "ids = get_workflow_children i db @ rec"
      by (auto simp: Let_def)
    with Suc.IH [OF _ j(2)] show ?thesis by (simp add: Cons j(1) Let_def)
  qed (use Suc.prems(1) j(1) in simp)
qed

lemma manage_delete_returns:
  assumes "schema_ok db" "acyclic (child_of db)"
  shows "\<exists>k db'. \<forall>fuel\<ge>k. manage_delete fuel i children db = Some db'"
proof -
  have "i \<notin> family db i" using assms(2) by (simp add: acyclic_def)
  moreover have "distinct (map ws_uuid (workflow_status db))" using assms(1) by (simp add: schema_defs)
  ultimately obtain ids where "descendants (Suc (length (workflow_status db))) db [i] = Some ids"
    using descendants_search [OF searching_start, of i db "Suc (length (workflow_status db))"] by auto
  from descendants_mono [OF this] have "manage_delete fuel i children db
      = Some (fold delete_workflow_row (if children then i # ids else [i]) db)"
    if "Suc (length (workflow_status db)) \<le> fuel" for fuel
    using that by (simp add: manage_delete_def)
  then show ?thesis by blast
qed

lemma child_of_deleted: "child_of (fold delete_workflow_row ids db) \<subseteq> child_of db"
  by (auto simp: child_of_def delete_rows)

lemma delete_each_returns:
  assumes "schema_ok db" "acyclic (child_of db)"
  shows "\<exists>k db'. \<forall>fuel\<ge>k. delete_each fuel children is db = Some db'"
  using assms
proof (induction "is" arbitrary: db)
  case (Cons i "is")
  obtain k db1 where k: "\<forall>fuel\<ge>k. manage_delete fuel i children db = Some db1"
    using manage_delete_returns [OF Cons.prems] by blast
  then have "manage_delete k i children db = Some db1" by simp
  then obtain ids where db1: "db1 = fold delete_workflow_row ids db" by (auto simp: manage_delete_def)
  then have "schema_ok db1" "acyclic (child_of db1)"
    using db_steps_schema [OF fold_delete_steps Cons.prems(1)] acyclic_subset [OF Cons.prems(2) child_of_deleted]
    by simp_all
  from Cons.IH [OF this] obtain k' db' where "\<forall>fuel\<ge>k'. delete_each fuel children is db1 = Some db'" by blast
  with k have "\<forall>fuel\<ge>max k k'. delete_each fuel children (i # is) db = Some db'" by simp
  then show ?case by blast
qed simp

lemma dispatch_fuel: "message_of t \<noteq> Some DELETE \<Longrightarrow> dispatch fuel env ex t rid data rt = dispatch 0 env ex t rid data rt"
proof (cases "message_of t")
  case (Some m)
  then show "message_of t \<noteq> Some DELETE \<Longrightarrow> ?thesis" by (cases m) (simp_all add: dispatch_def)
qed (simp add: dispatch_def)

lemma acting_total [simp]: "acting cd r f data rt \<noteq> None" "reading cd r g data rt \<noteq> None"
  by (simp_all add: acting_def reading_def split_beta split: sum.split)

lemma dispatch_total: "message_of t \<noteq> Some DELETE \<Longrightarrow> dispatch fuel env ex t rid data rt \<noteq> None"
proof (cases "message_of t")
  case (Some m)
  then show "message_of t \<noteq> Some DELETE \<Longrightarrow> ?thesis"
    by (cases m) (simp_all add: dispatch_def Let_def del: not_None_eq)
qed (simp add: dispatch_def)

lemma dispatch_returns:
  assumes "schema_ok (rt_db rt)" "acyclic (child_of (rt_db rt))"
  shows "\<exists>k x. \<forall>fuel\<ge>k. dispatch fuel env ex t rid data rt = Some x"
proof (cases "message_of t = Some DELETE")
  case False
  with dispatch_fuel [of t] dispatch_total [of t 0] show ?thesis by (metis not_None_eq)
next
  case True
  show ?thesis
  proof (cases "parse_request (cx_codec (ex_ctx ex)) read_workflow_ids_request data")
    case (Inr req)
    obtain k db' where "\<forall>fuel\<ge>k. delete_each fuel (wr_delete_children req) (resolve_ids req) (rt_db rt) = Some db'"
      using delete_each_returns [OF assms] by blast
    then have "\<forall>fuel\<ge>k. dispatch fuel env ex t rid data rt
        = Some (Inr (respond_success DELETE rid None), snd (lift_db (\<lambda>_. ((), db')) rt))"
      using True Inr by (simp add: dispatch_def handle_delete_def)
    then show ?thesis by blast
  qed (use True in \<open>auto simp: dispatch_def\<close>)
qed

lemma unreadable_base_ignored:
  "parse_frame (cx_codec (ex_ctx ex)) read_base_message data = Inl e \<Longrightarrow>
   handle_message fuel env ex data rt = Some (None, rt)"
  by (simp add: handle_message_def)

text \<open>C32. The conductor protocol: every frame with a readable base gets one response, which echoes the
  request's type and id.  An unknown type and an unreadable request are answered with an error message
  and change nothing; a request that is understood changes the database only by database operations, so
  every invariant of the schema survives.  As long as no workflow is its own descendant the answer comes
  after finitely many steps.\<close>

theorem conductor_answers:
  assumes "schema_ok (rt_db rt)" "acyclic (child_of (rt_db rt))"
    and "parse_frame (cx_codec (ex_ctx ex)) read_base_message data = Inr b"
  shows "\<exists>k v rt'. (\<forall>fuel\<ge>k. handle_message fuel env ex data rt = Some (Some v, rt'))
     \<and> answers (bm_type b) (bm_request_id b) v
     \<and> db_step\<^sup>*\<^sup>* (rt_db rt) (rt_db rt') \<and> schema_ok (rt_db rt')
     \<and> (message_of (bm_type b) = None \<longrightarrow> rt' = rt \<and> error_message v = Some ''unsupported command'')
     \<and> (\<forall>m y. dispatch k env ex (bm_type b) (bm_request_id b) data rt = Some (Inl m, y) \<longrightarrow>
           rt' = rt \<and> error_message v = Some m)"
proof -
  let ?t = "bm_type b" and ?r = "bm_request_id b"
  obtain k x where x: "\<forall>fuel\<ge>k. dispatch fuel env ex ?t ?r data rt = Some x"
    using dispatch_returns [OF assms(1,2)] by blast
  then have xk: "dispatch k env ex ?t ?r data rt = Some x" by simp
  from dispatch_served [OF xk] have served: "served ?t ?r rt x" .
  have unknown: "x = (Inr (unsupported ?t ?r), rt)" if "message_of ?t = None"
    using xk that by (simp add: dispatch_def)
  let ?v = "case fst x of Inl m \<Rightarrow> response (base_err ?t ?r m) [] | Inr v \<Rightarrow> v"
  have "\<forall>fuel\<ge>k. handle_message fuel env ex data rt = Some (Some ?v, snd x)"
    using x assms(3) by (cases x) (simp add: handle_message_def split: sum.split)
  moreover have "answers ?t ?r ?v" using served by (simp add: served_def split: sum.splits)
  moreover have "db_steps (rt_db rt) (rt_db (snd x))" using served by (simp add: served_def)
  moreover have "message_of ?t = None \<longrightarrow> snd x = rt \<and> error_message ?v = Some ''unsupported command''"
    using unknown by (simp add: unsupported_def error_message_response)
  moreover have "\<forall>m y. dispatch k env ex ?t ?r data rt = Some (Inl m, y) \<longrightarrow>
      snd x = rt \<and> error_message ?v = Some m"
    using served xk by (auto simp: served_def error_message_response)
  moreover have "schema_ok (rt_db (snd x))"
    using served assms(1) by (auto simp: served_def intro: db_steps_schema)
  ultimately show ?thesis by (intro exI conjI) assumption+
qed

definition sample_env :: conductor_env where
  "sample_env = \<lparr>cv_hostname = None, cv_version = ''0.1.0'', cv_secs_text = show_int\<rparr>"

definition cancel_frame :: string where
  "cancel_frame = cd_print sample_codec
     (JObject [(''request_id'', JString ''r1''), (''type'', JString ''cancel''), (''workflow_id'', JString ''w1'')])"

lemma cancel_frame_base:
  "parse_frame (cx_codec (ex_ctx sample_ex)) read_base_message cancel_frame
     = Inr \<lparr>bm_type = ''cancel'', bm_request_id = ''r1''\<rparr>"
proof -
  let ?v = "JObject [(''request_id'', JString ''r1''), (''type'', JString ''cancel''), (''workflow_id'', JString ''w1'')]"
  have "cd_parse sample_codec cancel_frame = Inr (canon ?v)"
    unfolding cancel_frame_def using sample_codec_ok by (simp add: codec_ok_def)
  moreover have "canon ?v = ?v" by (simp add: sort_key_simps less_eq_list_code)
  ultimately show ?thesis
    by (simp add: parse_frame_def sample_ex_def sample_ctx_def read_base_message_def struct_fields_def
        required_def read_string_def)
qed

lemma conductor_answers_witness:
  "\<exists>k v rt'. handle_message k sample_env sample_ex cancel_frame sample_rt = Some (Some v, rt')
     \<and> answers ''cancel'' ''r1'' v \<and> schema_ok (rt_db rt')"
proof -
  have db: "rt_db sample_rt = sample_db" by (simp add: sample_rt_def sample_eng_def)
  have "child_of sample_db = {}" by (auto simp: child_of_def sample_simps)
  then have "acyclic (child_of (rt_db sample_rt))" by (simp add: db acyclic_def)
  from conductor_answers [OF _ this cancel_frame_base, of sample_env] sample_schema
  show ?thesis unfolding db by fastforce
qed

end
