(* ===== verification/Admin_Laws.thy ===== *)
theory Admin_Laws
  imports Admin Conductor_Laws
begin

text \<open>
  The cut-off timeout, which the conductor's retention and the admin server share, and the wire forms of
  a workflow's streams and of its notifications.
\<close>

subsection \<open>The cut-off timeout\<close>

abbreviation decided :: "ws_row \<Rightarrow> bool" where
  "decided r \<equiv> ws_status r \<in> {Success, Error, Cancelled}"

lemma manage_cancel_existing:
  assumes "wf_exists (rt_db rt) i"
  shows "\<exists>rt' now. manage_cancel i rt = (Inr (), rt')
     \<and> rt_db rt' = (rt_db rt)\<lparr>workflow_status := update_where
           (\<lambda>r. ws_uuid r = i \<and> \<not> decided r) (cancel_row now) (workflow_status (rt_db rt))\<rparr>"
  using assms
  by (auto simp: manage_cancel_def lift_eng_def now_ms_def lift_db_def cancel_workflow_def
      fetch_update_where cancel_row_def Let_def)

lemma cancelled_row:
  assumes "rt_db rt' = (rt_db rt)\<lparr>workflow_status := update_where
      (\<lambda>r. ws_uuid r = i \<and> \<not> decided r) (cancel_row now) (workflow_status (rt_db rt))\<rparr>"
  shows "wf_row (rt_db rt') j
    = map_option (\<lambda>r. if j = i \<and> \<not> decided r then cancel_row now r else r) (wf_row (rt_db rt) j)"
  using assms wf_row_uuid [where db = "rt_db rt" and i = j]
  by (cases "wf_row (rt_db rt) j") (auto simp: fetch_update_where cancel_row_def)

lemma cancel_each:
  "\<forall>i\<in>set is. wf_exists (rt_db rt) i \<Longrightarrow>
   \<exists>rt'. each_id manage_cancel is rt = (Inr (), rt')
     \<and> (\<forall>j. wf_row (rt_db rt') j = None \<longleftrightarrow> wf_row (rt_db rt) j = None)
     \<and> (\<forall>j r. wf_row (rt_db rt) j = Some r \<longrightarrow>
          (if j \<in> set is \<and> \<not> decided r then \<exists>now. wf_row (rt_db rt') j = Some (cancel_row now r)
           else wf_row (rt_db rt') j = Some r))"
proof (induction "is" arbitrary: rt)
  case (Cons i "is")
  then have "wf_exists (rt_db rt) i" by simp
  from manage_cancel_existing [OF this] obtain rt1 now where run: "manage_cancel i rt = (Inr (), rt1)" and
    db1: "rt_db rt1 = (rt_db rt)\<lparr>workflow_status := update_where
           (\<lambda>r. ws_uuid r = i \<and> \<not> decided r) (cancel_row now) (workflow_status (rt_db rt))\<rparr>" by blast
  note row1 = cancelled_row [OF db1]
  have "\<forall>j\<in>set is. wf_exists (rt_db rt1) j" unfolding row1 using Cons.prems by auto
  from Cons.IH [OF this] obtain rt' where rest: "each_id manage_cancel is rt1 = (Inr (), rt')"
    "\<forall>j. wf_row (rt_db rt') j = None \<longleftrightarrow> wf_row (rt_db rt1) j = None"
    "\<And>j r. wf_row (rt_db rt1) j = Some r \<Longrightarrow>
          (if j \<in> set is \<and> \<not> decided r then \<exists>now. wf_row (rt_db rt') j = Some (cancel_row now r)
           else wf_row (rt_db rt') j = Some r)" by blast
  have "if j \<in> set (i # is) \<and> \<not> decided r then \<exists>now. wf_row (rt_db rt') j = Some (cancel_row now r)
        else wf_row (rt_db rt') j = Some r" if r: "wf_row (rt_db rt) j = Some r" for j r
  proof (cases "j = i \<and> \<not> decided r")
    case True
    with r have "wf_row (rt_db rt1) j = Some (cancel_row now r)" by (simp add: row1)
    from rest(3) [OF this] True show ?thesis by (auto simp: cancel_row_def)
  next
    case False
    with r have "wf_row (rt_db rt1) j = Some r" by (auto simp: row1)
    from rest(3) [OF this] False show ?thesis by auto
  qed
  moreover have "each_id manage_cancel (i # is) rt = (Inr (), rt')" by (simp add: run rest(1))
  moreover have "wf_row (rt_db rt') j = None \<longleftrightarrow> wf_row (rt_db rt) j = None" for j
    by (simp add: rest(2) row1)
  ultimately show ?case by blast
qed simp

text \<open>What the timeout picks.\<close>

definition overdue :: "int \<Rightarrow> ws_row \<Rightarrow> bool" where
  "overdue cutoff r \<longleftrightarrow> ws_status r \<in> {Pending, Enqueued, Delayed} \<and> ws_created_at r < cutoff"

lemma view_created: "wv_created_at_ms (row_to_status r a b) = ws_created_at r"
  by (simp add: row_to_status_def)

lemma timed_out_set:
  "set (timed_out cutoff db) = ws_uuid ` {r \<in> set (workflow_status db). overdue cutoff r}"
proof -
  let ?in = "li_default\<lparr>li_status := [Pending, Enqueued, Delayed]\<rparr>"
  have "set (list_workflows ?in db) = (\<lambda>r. row_to_status r False False)
      ` {r \<in> set (workflow_status db). ws_status r \<in> {Pending, Enqueued, Delayed}}"
    using list_workflows_unpaged [of ?in db] by (simp add: li_default_def list_matches_def any_of_def)
  then have "{w \<in> set (list_workflows ?in db). wv_created_at_ms w < cutoff}
      = (\<lambda>r. row_to_status r False False) ` {r \<in> set (workflow_status db). overdue cutoff r}"
    by (auto simp: Compr_image_eq overdue_def view_created)
  then show ?thesis by (simp add: timed_out_def image_image view_fields)
qed

text \<open>C33. The cut-off timeout cancels exactly the workflows that were created before the cutoff and are
  still pending, enqueued or delayed: it reports success over both interfaces, and no other workflow is
  touched.\<close>

theorem timeout_cancels_overdue:
  assumes "schema_ok (rt_db rt)"
  shows "\<exists>rt'. timeout_before cutoff rt = (Inr (), rt') \<and> http_global_timeout cutoff rt = (NO_CONTENT, rt')
     \<and> (\<forall>j. wf_row (rt_db rt') j = None \<longleftrightarrow> wf_row (rt_db rt) j = None)
     \<and> (\<forall>j r. wf_row (rt_db rt) j = Some r \<longrightarrow>
          (if overdue cutoff r then \<exists>now. wf_row (rt_db rt') j = Some (cancel_row now r)
           else wf_row (rt_db rt') j = Some r))"
proof -
  let ?is = "timed_out cutoff (rt_db rt)"
  have "\<forall>i\<in>set ?is. wf_exists (rt_db rt) i"
    unfolding timed_out_set fetch_not_None_iff by auto
  from cancel_each [OF this] obtain rt' where run: "each_id manage_cancel ?is rt = (Inr (), rt')" and
    rows: "\<forall>j. wf_row (rt_db rt') j = None \<longleftrightarrow> wf_row (rt_db rt) j = None"
      "\<And>j r. wf_row (rt_db rt) j = Some r \<Longrightarrow>
          (if j \<in> set ?is \<and> \<not> decided r then \<exists>now. wf_row (rt_db rt') j = Some (cancel_row now r)
           else wf_row (rt_db rt') j = Some r)" by blast
  have "j \<in> set ?is \<and> \<not> decided r \<longleftrightarrow> overdue cutoff r" if r: "wf_row (rt_db rt) j = Some r" for j r
  proof
    assume "j \<in> set ?is \<and> \<not> decided r"
    then obtain x where x: "x \<in> set (workflow_status (rt_db rt))" "ws_uuid x = j" "overdue cutoff x"
      by (auto simp: timed_out_set)
    have "inj_on ws_uuid (set (workflow_status (rt_db rt)))"
      using assms by (simp add: schema_defs distinct_map)
    from inj_onD [OF this _ x(1), of r] wf_row_uuid [OF r] x(2) have "r = x" by simp
    with x(3) show "overdue cutoff r" by simp
  next
    assume "overdue cutoff r"
    with wf_row_uuid [OF r] show "j \<in> set ?is \<and> \<not> decided r"
      by (auto simp: timed_out_set overdue_def intro!: image_eqI [where x = r])
  qed
  with rows(2) have "if overdue cutoff r then \<exists>now. wf_row (rt_db rt') j = Some (cancel_row now r)
      else wf_row (rt_db rt') j = Some r" if "wf_row (rt_db rt) j = Some r" for j r
    using that by auto
  with run rows(1) show ?thesis by (simp add: timeout_before_def http_global_timeout_def)
qed

lemma timeout_cancels_overdue_witness:
  "\<exists>rt' now. timeout_before 1001 sample_rt = (Inr (), rt')
     \<and> wf_row (rt_db rt') ''w1'' = Some (cancel_row now (sample_row ''w1'' Pending None))
     \<and> wf_row (rt_db rt') ''w3'' = Some (sample_row ''w3'' Success None)"
proof -
  have db: "rt_db sample_rt = sample_db" by (simp add: sample_rt_def sample_eng_def)
  have "schema_ok (rt_db sample_rt)" by (simp add: db sample_schema)
  from timeout_cancels_overdue [OF this, of 1001] obtain rt' where run: "timeout_before 1001 sample_rt = (Inr (), rt')"
    and rows: "\<And>j r. wf_row sample_db j = Some r \<Longrightarrow>
          (if overdue 1001 r then \<exists>now. wf_row (rt_db rt') j = Some (cancel_row now r)
           else wf_row (rt_db rt') j = Some r)" unfolding db by blast
  from rows [OF sample_rows(1)] rows [OF sample_rows(3)] run show ?thesis
    by (auto simp: overdue_def sample_row_def)
qed

subsection \<open>Streams on the wire\<close>

text \<open>Grouping loses nothing, whatever the order of the rows; over rows sorted by key, as the database
  returns them, every key has one entry.\<close>

lemma push_entry_values: "concat (map (\<lambda>(k, vs). map (Pair k) vs) (push_entry k v es))
    = concat (map (\<lambda>(k, vs). map (Pair k) vs) es) @ [(k, v)]"
  by (cases es rule: rev_cases) (auto simp: push_entry_def)

lemma group_streams_values:
  "concat (map (\<lambda>(k, vs). map (Pair k) vs) (group_streams rows)) = map (\<lambda>(k, _, v, _). (k, v)) rows"
  by (induction rows rule: rev_induct) (auto simp: group_streams_def push_entry_values split: prod.split)

lemma push_entry_keys:
  "map fst (push_entry k v es) = (if es \<noteq> [] \<and> fst (last es) = k then map fst es else map fst es @ [k])"
  by (cases es rule: rev_cases) (simp_all add: push_entry_def)

lemma group_streams_snoc: "group_streams (rows @ [(k, n, v, s)]) = push_entry k v (group_streams rows)"
  by (simp add: group_streams_def)

lemma strictly_sorted_snoc:
  fixes k :: "'a::linorder"
  shows "sorted_wrt (<) xs \<Longrightarrow> \<forall>x\<in>set xs. x \<le> k \<Longrightarrow> xs = [] \<or> last xs \<noteq> k \<Longrightarrow> sorted_wrt (<) (xs @ [k])"
  by (cases xs rule: rev_cases) (fastforce simp: sorted_wrt_append order.strict_iff_order)+

lemma group_streams_keys:
  assumes "sorted (map fst rows)"
  shows "sorted_wrt (<) (map fst (group_streams rows))
     \<and> set (map fst (group_streams rows)) = set (map fst rows)"
  using assms
proof (induction rows rule: rev_induct)
  case (snoc x rows)
  obtain k n v s where x: "x = (k, n, v, s)" by (cases x) auto
  let ?es = "group_streams rows"
  have IH: "sorted_wrt (<) (map fst ?es)" "set (map fst ?es) = set (map fst rows)"
    using snoc by (simp_all add: sorted_append)
  have le: "\<forall>a\<in>set (map fst ?es). a \<le> k"
    unfolding IH(2) using snoc.prems by (auto simp: sorted_append x)
  show ?case
  proof (cases "?es \<noteq> [] \<and> fst (last ?es) = k")
    case True
    then have "k \<in> set (map fst ?es)" by auto
    then have "k \<in> set (map fst rows)" unfolding IH(2) .
    with True IH show ?thesis unfolding x group_streams_snoc push_entry_keys by auto
  next
    case False
    then have "map fst ?es = [] \<or> last (map fst ?es) \<noteq> k" by (auto simp: last_map)
    from strictly_sorted_snoc [OF IH(1) le this] IH(2) False show ?thesis
      unfolding x group_streams_snoc push_entry_keys by auto
  qed
qed (simp add: group_streams_def)

lemma streams_sorted: "sorted (map fst (get_workflow_streams i db))"
proof -
  let ?rows = "sort_key (\<lambda>r. (st_key r, st_offset r)) (filter (\<lambda>r. st_workflow r = i) (streams db))"
  have "sorted (map (\<lambda>r. (st_key r, st_offset r)) ?rows)" by simp
  then have "sorted (map st_key ?rows)"
    by (simp add: sorted_map less_eq_prod_def) (metis (mono_tags, lifting) order.strict_iff_order sorted_wrt_mono_rel)
  then show ?thesis by (simp add: get_workflow_streams_def comp_def)
qed

text \<open>The answer to \<open>get_workflow_streams\<close> has one entry per key of the workflow, with its values in the
  order of their offsets.\<close>

lemma stream_entry_per_key:
  "distinct (map fst (group_streams (get_workflow_streams i db)))"
  using group_streams_keys [OF streams_sorted] strict_sorted_iff by blast

subsection \<open>Topics on the wire\<close>

text \<open>A message that was sent without a topic is stored under the null topic, which is not empty: its
  notification is reported with that topic and not with \<open>null\<close>.\<close>

lemma null_topic_reported:
  assumes "(DBOS_NULL_TOPIC, m, created, s, consumed) \<in> set (get_workflow_notifications i db)"
  shows "notification_output (Some DBOS_NULL_TOPIC) (unwrap_or_default m) created consumed
    \<in> set (map (\<lambda>(topic, m, created, _, consumed).
               notification_output (opt_str topic) (unwrap_or_default m) created consumed)
         (get_workflow_notifications i db))"
  using assms by (force simp: DBOS_NULL_TOPIC_def intro!: image_eqI)

end
