(* ===== verification/Debouncer.thy ===== *)
theory Debouncer
  imports Background Protocol
begin

text \<open>
  \<open>debouncer.rs\<close>: rapid calls with the same key are coalesced into one run of a target workflow.  The
  first call of a cycle starts an internal workflow that holds a deduplication slot of the internal
  queue; later calls send it their input and wait for an acknowledgement; the internal workflow collects
  inputs until its target time and then enqueues the target once.  The generic parameter of the inputs is
  a JSON value.
\<close>

subsection \<open>Messages\<close>

definition DEBOUNCER_TOPIC :: string where "DEBOUNCER_TOPIC = ''_dbos_debouncer_topic''"
definition ACK_TIMEOUT :: int where "ACK_TIMEOUT = 2000"

record debouncer_input =
  di_initial_input :: json
  di_target_workflow_name :: string
  di_target_workflow_id :: string
  di_delay_ms :: int
  di_timeout_ms :: int

definition debouncer_input_json :: "debouncer_input \<Rightarrow> json" where
  "debouncer_input_json d =
     JObject
       [(''initial_input'', di_initial_input d),
        (''target_workflow_name'', JString (di_target_workflow_name d)),
        (''target_workflow_id'', JString (di_target_workflow_id d)),
        (''delay_ms'', JInt (di_delay_ms d)), (''timeout_ms'', JInt (di_timeout_ms d))]"

definition read_debouncer_input :: "debouncer_input reader" where
  "read_debouncer_input v = do {
     fs \<leftarrow> struct_fields [''initial_input'', ''target_workflow_name'', ''target_workflow_id'', ''delay_ms'',
            ''timeout_ms''] 5 v;
     x \<leftarrow> required fs ''initial_input'' Some;
     n \<leftarrow> required fs ''target_workflow_name'' read_string;
     i \<leftarrow> required fs ''target_workflow_id'' read_string;
     d \<leftarrow> required fs ''delay_ms'' read_i64;
     t \<leftarrow> required fs ''timeout_ms'' read_i64;
     Some \<lparr>di_initial_input = x, di_target_workflow_name = n, di_target_workflow_id = i,
           di_delay_ms = d, di_timeout_ms = t\<rparr>}"

record debounce_message =
  dm_input :: json
  dm_delay_ms :: int
  dm_id :: string

definition debounce_message_json :: "debounce_message \<Rightarrow> json" where
  "debounce_message_json m =
     JObject [(''input'', dm_input m), (''delay_ms'', JInt (dm_delay_ms m)), (''id'', JString (dm_id m))]"

definition read_debounce_message :: "debounce_message reader" where
  "read_debounce_message v = do {
     fs \<leftarrow> struct_fields [''input'', ''delay_ms'', ''id''] 3 v;
     x \<leftarrow> required fs ''input'' Some;
     d \<leftarrow> required fs ''delay_ms'' read_i64;
     i \<leftarrow> required fs ''id'' read_string;
     Some \<lparr>dm_input = x, dm_delay_ms = d, dm_id = i\<rparr>}"

text \<open>The conversion of a decoded value to the type that the caller asks for.\<close>

definition typed :: "codec \<Rightarrow> 'a reader \<Rightarrow> json res \<Rightarrow> 'a res" where
  "typed cd r v =
     bind_res v (\<lambda>j. case r j of
       None \<Rightarrow> Inl (from_serialize_error (DecodeJson (cd_type_error cd j)))
     | Some x \<Rightarrow> Inr x)"

subsection \<open>The internal workflow\<close>

text \<open>The clock, read in a step so that a replay sees the same times.\<close>

definition clock_step :: "ctx \<Rightarrow> wfctx \<Rightarrow> string \<Rightarrow> 'w eng \<Rightarrow> int res \<times> 'w eng" where
  "clock_step cx wc name e =
     (let read = (\<lambda>_ e. let (t, e) = now_ms e in (Inr (JInt t), e));
          (r, e) = (if wc_within_step wc then read (en_step e) e else memoized cx wc name read e)
      in (typed (cx_codec cx) read_i64 r, e))"

definition push_back :: "int \<Rightarrow> int \<Rightarrow> int \<Rightarrow> int" where
  "push_back timeout_ms max_start t = (if timeout_ms > 0 \<and> t > max_start then max_start else t)"

text \<open>The loop that collects the inputs.  \<open>n\<close> counts its rounds, \<open>fuel\<close> the polls of each wait.\<close>

fun collect ::
  "nat \<Rightarrow> nat \<Rightarrow> ctx \<Rightarrow> wfctx \<Rightarrow> int \<Rightarrow> int \<Rightarrow> json \<Rightarrow> int \<Rightarrow> 'w eng \<Rightarrow> (json res \<times> 'w eng) option" where
  "collect 0 fuel cx wc timeout_ms max_start current target_start e = None"
| "collect (Suc n) fuel cx wc timeout_ms max_start current target_start e =
     (case clock_step cx wc ''DBOS.debounce.loopTime'' e of
        (Inl err, e) \<Rightarrow> Some (Inl err, e)
      | (Inr now, e) \<Rightarrow>
          (let remaining = sub_i64 target_start now in
           if remaining \<le> 0 then Some (Inr current, e)
           else case recv cx wc fuel DEBOUNCER_TOPIC remaining e of
                  None \<Rightarrow> None
                | Some (r, e) \<Rightarrow>
                    (case typed (cx_codec cx) read_debounce_message r of
                       Inl _ \<Rightarrow> Some (Inr current, e)
                     | Inr m \<Rightarrow>
                         collect n fuel cx wc timeout_ms max_start (dm_input m)
                           (push_back timeout_ms max_start (add_i64 now (dm_delay_ms m)))
                           (if dm_id m = [] then e else snd (set_event_op cx wc (dm_id m) (JBool True) e)))))"

definition target_options :: "string \<Rightarrow> run_options" where
  "target_options i = op_default\<lparr>op_workflow_id := Some i, op_queue := Some DBOS_INTERNAL_QUEUE_NAME\<rparr>"

definition enqueue_target ::
  "'w executor \<Rightarrow> wfctx \<Rightarrow> debouncer_input \<Rightarrow> json \<Rightarrow> 'w rt \<Rightarrow> json res \<times> 'w rt" where
  "enqueue_target ex wc d current rt =
     (let encoder = wf_encoder (ex_ctx ex) wc in
      case encode encoder current of
        Inl err \<Rightarrow> (Inl err, rt)
      | Inr encoded \<Rightarrow>
          (let (r, rt) = run_workflow_erased ex (di_target_workflow_name d) encoded (sz_name encoder)
                 (target_options (di_target_workflow_id d)) fl_default None rt
           in (map_ok (\<lambda>_. JNull) r, rt)))"

definition debouncer_run ::
  "nat \<Rightarrow> nat \<Rightarrow> 'w executor \<Rightarrow> wfctx \<Rightarrow> debouncer_input \<Rightarrow> 'w rt \<Rightarrow> (json res \<times> 'w rt) option" where
  "debouncer_run n fuel ex wc d rt =
     (case lift_eng (clock_step (ex_ctx ex) wc ''DBOS.debounce.startTime'') rt of
        (Inl err, rt) \<Rightarrow> Some (Inl err, rt)
      | (Inr start, rt) \<Rightarrow>
          (let max_start = add_i64 start (di_timeout_ms d);
               target_start = push_back (di_timeout_ms d) max_start (add_i64 start (di_delay_ms d))
           in case collect n fuel (ex_ctx ex) wc (di_timeout_ms d) max_start (di_initial_input d)
                     target_start (rt_eng rt) of
                None \<Rightarrow> None
              | Some (Inl err, e) \<Rightarrow> Some (Inl err, rt\<lparr>rt_eng := e\<rparr>)
              | Some (Inr current, e) \<Rightarrow> Some (enqueue_target ex wc d current (rt\<lparr>rt_eng := e\<rparr>))))"

text \<open>As a registered body: the input is converted first.\<close>

definition internal_debouncer_body :: "nat \<Rightarrow> nat \<Rightarrow> 'w executor \<Rightarrow> 'w body" where
  "internal_debouncer_body n fuel ex wc p rt =
     (case typed (cx_codec (ex_ctx ex)) read_debouncer_input (Inr p) of
        Inl err \<Rightarrow> Some (Returned (Inl err), rt)
      | Inr d \<Rightarrow> map_option (\<lambda>(r, rt). (Returned r, rt)) (debouncer_run n fuel ex wc d rt))"

subsection \<open>Creating a debouncer\<close>

record debouncer =
  db_target_workflow_name :: string
  db_internal_name :: string
  db_timeout_ms :: int

definition register_internal_debouncer :: "string \<Rightarrow> 'w body \<Rightarrow> 'w executor \<Rightarrow> unit res \<times> 'w executor" where
  "register_internal_debouncer internal_name body ex =
     (if map_of (ex_registry ex) internal_name \<noteq> None then (Inr (), ex)
      else register_workflow_opts internal_name body register_default ex)"

definition debouncer_new ::
  "'w body \<Rightarrow> string \<Rightarrow> int \<Rightarrow> 'w executor \<Rightarrow> debouncer res \<times> 'w executor" where
  "debouncer_new body target timeout_ms ex =
     (if ex_launched ex
      then (Inl (initialization ''cannot create a debouncer after the context has been launched''), ex)
      else
        (let internal_name = ''_dbos_internal_debouncer_'' @ target;
             (r, ex) = register_internal_debouncer internal_name body ex
         in (map_ok (\<lambda>_. \<lparr>db_target_workflow_name = target, db_internal_name = internal_name,
                          db_timeout_ms = timeout_ms\<rparr>) r, ex)))"

subsection \<open>Debouncing a call\<close>

definition decode_target_id :: "ctx \<Rightarrow> string \<Rightarrow> string \<Rightarrow> string option" where
  "decode_target_id cx raw ser =
     (case typed (cx_codec cx) read_debouncer_input (decode_stored cx ser (Some raw)) of
        Inl _ \<Rightarrow> None
      | Inr d \<Rightarrow> Some (di_target_workflow_id d))"

definition dedup_key :: "string \<Rightarrow> string" where "dedup_key key = ''_dbos_debounce_'' @ key"

definition internal_options :: "string \<Rightarrow> string \<Rightarrow> run_options" where
  "internal_options i key =
     op_default\<lparr>op_workflow_id := Some i, op_queue := Some DBOS_INTERNAL_QUEUE_NAME,
                op_dedup_id := Some (dedup_key key)\<rparr>"

text \<open>The target of the internal workflow \<open>i\<close>, as its stored input names it.\<close>

definition stored_target :: "ctx \<Rightarrow> string \<Rightarrow> sysdb \<Rightarrow> string option" where
  "stored_target cx i db =
     Option.bind (get_workflow_status i db)
       (\<lambda>s. Option.bind (wv_input s) (\<lambda>raw. decode_target_id cx raw (wv_serialization s)))"

text \<open>A new cycle is tried first; when another call holds the slot, the input is sent to it.  A call is
  tried again when the holder is gone or does not acknowledge in time; \<open>n\<close> counts the tries.\<close>

fun debounce ::
  "nat \<Rightarrow> nat \<Rightarrow> 'w executor \<Rightarrow> debouncer \<Rightarrow> string \<Rightarrow> int \<Rightarrow> json \<Rightarrow> 'w rt \<Rightarrow>
   (erased_handle res \<times> 'w rt) option" where
  "debounce 0 fuel ex d key delay_ms input rt = None"
| "debounce (Suc n) fuel ex d key delay_ms input rt =
     (let cx = ex_ctx ex;
          (internal_id, rt) = lift_eng new_uuid rt; (uuid, rt) = lift_eng new_uuid rt;
          target_id = ''_dbos_debounce_target_'' @ uuid;
          dinput = \<lparr>di_initial_input = input, di_target_workflow_name = db_target_workflow_name d,
            di_target_workflow_id = target_id, di_delay_ms = as_i64 delay_ms,
            di_timeout_ms = as_i64 (db_timeout_ms d)\<rparr>;
          encoder = resolve_encoder (cx_codec cx) False (cx_serializer cx)
      in case encode encoder (debouncer_input_json dinput) of
           Inl err \<Rightarrow> Some (Inl err, rt)
         | Inr encoded \<Rightarrow>
             (case run_workflow_erased ex (db_internal_name d) encoded (sz_name encoder)
                     (internal_options internal_id key) fl_default None rt of
                (Inr _, rt) \<Rightarrow> Some (Inr (Polling target_id), rt)
              | (Inl err, rt) \<Rightarrow>
                  if \<not> is_code err QueueDeduplicated then Some (Inl err, rt)
                  else case get_deduplicated_workflow DBOS_INTERNAL_QUEUE_NAME (dedup_key key) (rt_db rt) of
                         None \<Rightarrow> debounce n fuel ex d key delay_ms input rt
                       | Some holder \<Rightarrow>
                           (let (message_id, rt) = lift_eng new_uuid rt;
                                m = \<lparr>dm_input = input, dm_delay_ms = as_i64 delay_ms, dm_id = message_id\<rparr>
                            in case lift_eng (send_outside cx holder (debounce_message_json m) DEBOUNCER_TOPIC) rt of
                                 (Inl err, rt) \<Rightarrow> Some (Inl err, rt)
                               | (Inr _, rt) \<Rightarrow>
                                   (case get_event_outside cx fuel holder message_id ACK_TIMEOUT (rt_eng rt) of
                                      None \<Rightarrow> None
                                    | Some (Inl err, e) \<Rightarrow> Some (Inl err, rt\<lparr>rt_eng := e\<rparr>)
                                    | Some (Inr None, e) \<Rightarrow>
                                        debounce n fuel ex d key delay_ms input (rt\<lparr>rt_eng := e\<rparr>)
                                    | Some (Inr (Some v), e) \<Rightarrow>
                                        (case typed (cx_codec cx) read_bool (Inr v) of
                                           Inl err \<Rightarrow> Some (Inl err, rt\<lparr>rt_eng := e\<rparr>)
                                         | Inr _ \<Rightarrow>
                                             Some (Inr (Polling (unwrap_or (stored_target cx holder (en_db e))
                                                      target_id)), rt\<lparr>rt_eng := e\<rparr>))))))"

end
