(* ===== verification/Debouncer_Laws.thy ===== *)
theory Debouncer_Laws
  imports Debouncer Scheduler_Laws
begin

text \<open>
  What a debouncer promises: one cycle per key at a time, a capped start, one run of the target; and
  where the internal workflow ends its wait too early.
\<close>

subsection \<open>Cycles\<close>

lemma uuid_rt: "lift_eng new_uuid rt = (en_uuids (rt_eng rt) (en_reads (rt_eng rt)),
    rt\<lparr>rt_eng := (rt_eng rt)\<lparr>en_reads := Suc (en_reads (rt_eng rt))\<rparr>\<rparr>)"
  by (simp add: lift_eng_def new_uuid_def)

text \<open>The row of an internal workflow.\<close>

definition cycle_of :: "string \<Rightarrow> ws_row \<Rightarrow> bool" where
  "cycle_of key r \<longleftrightarrow> dedup_slot r = Some (DBOS_INTERNAL_QUEUE_NAME, dedup_key key)"

lemma internal_option_facts:
  "op_workflow_id (internal_options i key) = Some i" "op_delay (internal_options i key) = None"
  "op_timeout (internal_options i key) = None" "option_error (internal_options i key) = None"
  by (simp_all add: internal_options_def op_default_def option_error_def DBOS_INTERNAL_QUEUE_NAME_def
      dedup_key_def Let_def)

lemma cycle_row:
  fixes rt :: "'w rt"
  defines "inp \<equiv> \<lambda>ex entry enc ser i key (rt :: 'w rt).
      start_input ex entry enc ser (internal_options i key) fl_default None i (rt_eng rt)"
  shows "dedup_slot (new_ws_row (inp ex entry enc ser i key rt) (unwrap_or (nw_status (in_status
            (inp ex entry enc ser i key rt))) Pending) u) = Some (DBOS_INTERNAL_QUEUE_NAME, dedup_key key)"
    and "ws_status (new_ws_row (inp ex entry enc ser i key rt) (unwrap_or (nw_status (in_status
            (inp ex entry enc ser i key rt))) Pending) u) = Enqueued"
    and "ws_inputs (new_ws_row (inp ex entry enc ser i key rt) s u) = enc"
    and "nw_id (in_status (inp ex entry enc ser i key rt)) = i"
    and "in_record_child (inp ex entry enc ser i key rt) = None"
  by (simp_all add: inp_def dedup_slot_def new_ws_row_def start_input_def new_status_def start_status_def
      internal_options_def op_default_def DBOS_INTERNAL_QUEUE_NAME_def dedup_key_def Let_def)

lemma taken_cycle:
  "dedup_slot r = Some (DBOS_INTERNAL_QUEUE_NAME, dedup_key key) \<Longrightarrow>
   dedup_taken r rows \<longleftrightarrow> list_ex (cycle_of key) rows"
  by (simp add: dedup_taken_def cycle_of_def [abs_def])

lemma start_cycle_free:
  assumes "map_of (ex_registry ex) name = Some entry" "wf_row (rt_db rt) i = None"
    and "\<not> list_ex (cycle_of key) (workflow_status (rt_db rt))"
  shows "\<exists>rt' row. run_workflow_erased ex name enc ser (internal_options i key) fl_default None rt
        = (Inr (Polling i), rt')
     \<and> workflow_status (rt_db rt') = workflow_status (rt_db rt) @ [row]
     \<and> cycle_of key row \<and> ws_status row = Enqueued \<and> ws_inputs row = enc \<and> rt_tasks rt' = rt_tasks rt"
proof -
  let ?opts = "internal_options i key" and ?e = "rt_eng rt"
  let ?in = "start_input ex entry enc ser ?opts fl_default None i ?e"
  let ?now = "en_ticks ?e (en_reads ?e + 2)"
  let ?row = "new_ws_row ?in (unwrap_or (nw_status (in_status ?in)) Pending)
      (unwrap_or (nw_updated_at_ms (in_status ?in)) ?now)"
  have "\<not> dedup_taken ?row (workflow_status (rt_db rt))"
    unfolding taken_cycle [OF cycle_row(1)] by (rule assms(3))
  from insert_fresh [OF _ refl this cycle_row(5)] assms(2) have inserted: "insert_workflow_status ?in ?now (rt_db rt)
      = (Inr (insert_result_of ?row), (rt_db rt)\<lparr>workflow_status := workflow_status (rt_db rt) @ [?row]\<rparr>)"
    unfolding cycle_row(4) by blast
  let ?rt' = "rt\<lparr>rt_eng := ?e\<lparr>en_reads := en_reads ?e + 3,
      en_db := (rt_db rt)\<lparr>workflow_status := workflow_status (rt_db rt) @ [?row]\<rparr>\<rparr>\<rparr>"
  from run_erased_inserted [OF assms(1) internal_option_facts(4)
      insert_start_plain [OF internal_option_facts(1-3) inserted]]
  have run: "run_workflow_erased ex name enc ser ?opts fl_default None rt = (Inr (Polling i), ?rt')"
    by (simp add: should_skip_def internal_options_def op_default_def DBOS_INTERNAL_QUEUE_NAME_def)
  have cycle: "cycle_of key ?row" unfolding cycle_of_def by (rule cycle_row(1))
  show ?thesis
    by (intro exI [of _ ?rt'] exI [of _ ?row] conjI)
      (rule run, simp, rule cycle, rule cycle_row(2), rule cycle_row(3), simp)
qed

lemma start_cycle_held:
  assumes "map_of (ex_registry ex) name = Some entry" "wf_row (rt_db rt) i = None"
    and "list_ex (cycle_of key) (workflow_status (rt_db rt))"
  shows "\<exists>err. run_workflow_erased ex name enc ser (internal_options i key) fl_default None rt
        = (Inl err, rt\<lparr>rt_eng := (rt_eng rt)\<lparr>en_reads := en_reads (rt_eng rt) + 3\<rparr>\<rparr>)
     \<and> is_code err QueueDeduplicated"
proof -
  let ?opts = "internal_options i key" and ?e = "rt_eng rt"
  let ?in = "start_input ex entry enc ser ?opts fl_default None i ?e"
  let ?now = "en_ticks ?e (en_reads ?e + 2)"
  have "dedup_taken (new_ws_row ?in (unwrap_or (nw_status (in_status ?in)) Pending)
      (unwrap_or (nw_updated_at_ms (in_status ?in)) ?now)) (workflow_status (rt_db rt))"
    unfolding taken_cycle [OF cycle_row(1)] by (rule assms(3))
  from insert_deduplicated [OF _ this] assms(2) obtain q dd where "insert_workflow_status ?in ?now (rt_db rt)
      = (Inl (queue_deduplicated i q dd), rt_db rt)"
    unfolding cycle_row(4) by blast
  from insert_start_plain [OF internal_option_facts(1-3) this] assms(1)
  have "run_workflow_erased ex name enc ser ?opts fl_default None rt
      = (Inl (queue_deduplicated i q dd), rt\<lparr>rt_eng := ?e\<lparr>en_reads := en_reads ?e + 3, en_db := rt_db rt\<rparr>\<rparr>)"
    by (simp add: run_workflow_erased_def internal_option_facts lift_eng_def)
  moreover have "is_code (queue_deduplicated i q dd) QueueDeduplicated"
    using is_code_self [of "queue_deduplicated i q dd"] by (simp add: queue_deduplicated_def)
  ultimately show ?thesis by simp
qed

text \<open>A call on a held slot whose message is acknowledged.\<close>

lemma debounce_held:
  assumes "lift_eng new_uuid rt = (i, r1)" "lift_eng new_uuid r1 = (u, r2)"
    and "encode (plain_encoder (ex_ctx ex)) (debouncer_input_json \<lparr>di_initial_input = input,
           di_target_workflow_name = db_target_workflow_name d, di_target_workflow_id = ''_dbos_debounce_target_'' @ u,
           di_delay_ms = as_i64 delay_ms, di_timeout_ms = as_i64 (db_timeout_ms d)\<rparr>) = Inr enc"
    and "run_workflow_erased ex (db_internal_name d) enc (sz_name (plain_encoder (ex_ctx ex)))
           (internal_options i key) fl_default None r2 = (Inl err, r3)" "is_code err QueueDeduplicated"
    and "get_deduplicated_workflow DBOS_INTERNAL_QUEUE_NAME (dedup_key key) (rt_db r3) = Some holder"
    and "lift_eng new_uuid r3 = (mid, r4)"
    and "lift_eng (send_outside (ex_ctx ex) holder (debounce_message_json
           \<lparr>dm_input = input, dm_delay_ms = as_i64 delay_ms, dm_id = mid\<rparr>) DEBOUNCER_TOPIC) r4 = (Inr (), r5)"
    and "get_event_outside (ex_ctx ex) fuel holder mid ACK_TIMEOUT (rt_eng r5) = Some (Inr (Some (JBool b)), e)"
    and "stored_target (ex_ctx ex) holder (en_db e) = Some T"
  shows "debounce (Suc n) fuel ex d key delay_ms input rt = Some (Inr (Polling T), r5\<lparr>rt_eng := e\<rparr>)"
  unfolding debounce.simps Let_def plain_encoder_def [symmetric] assms(1,2) prod.case assms(3) sum.case
    assms(4,6,7,8,9) option.case typed_def bind_res_simps read_bool_def json.case
  using assms(5,10) by (simp add: unwrap_or_def)


definition sample_debouncer :: debouncer where
  "sample_debouncer =
     \<lparr>db_target_workflow_name = ''charge'', db_internal_name = ''charge'', db_timeout_ms = 0\<rparr>"

lemma plain_sample_encodes:
  "\<exists>t. encode (plain_encoder (ex_ctx sample_ex)) v = Inr (Some t)"
  by (simp add: plain_encoder_def resolve_encoder_def sample_ex_def sample_ctx_def encode_def json_serializer_def)


subsection \<open>The target runs at most once, and in time\<close>

text \<open>Enqueuing the target again, as a replay of the internal workflow does, starts nothing.\<close>

lemma target_enqueued_once:
  assumes "schema_ok (rt_db rt)" "wf_exists (rt_db rt) (di_target_workflow_id d)"
    and "enqueue_target ex wc d current rt = (r, rt')"
  shows "map ws_uuid (workflow_status (rt_db rt')) = map ws_uuid (workflow_status (rt_db rt))"
    and "rt_tasks rt' = rt_tasks rt"
proof -
  let ?enc = "wf_encoder (ex_ctx ex) wc"
  have opts: "op_workflow_id (target_options i) = Some i" "unwrap_or_default (op_queue (target_options i)) \<noteq> []" for i
    by (simp_all add: target_options_def op_default_def DBOS_INTERNAL_QUEUE_NAME_def)
  have "map ws_uuid (workflow_status (rt_db rt')) = map ws_uuid (workflow_status (rt_db rt)) \<and> rt_tasks rt' = rt_tasks rt"
  proof (cases "encode ?enc current")
    case (Inr enc)
    obtain h rt1 where run: "run_workflow_erased ex (di_target_workflow_name d) enc (sz_name ?enc)
        (target_options (di_target_workflow_id d)) fl_default None rt = (h, rt1)" by fastforce
    note q = queued_start [OF assms(1) opts run]
    show ?thesis using Inr run q(1) q(6) [OF assms(2)] assms(3) by (auto simp: enqueue_target_def Let_def)
  qed (use assms(3) in \<open>simp add: enqueue_target_def Let_def\<close>)
  then show "map ws_uuid (workflow_status (rt_db rt')) = map ws_uuid (workflow_status (rt_db rt))"
    "rt_tasks rt' = rt_tasks rt" by simp_all
qed

text \<open>With a timeout the start is never pushed beyond the cap, and a round that reads the clock at or
  after the target start ends the collection with the input at hand, whatever is waiting.\<close>

lemma push_back_capped: "timeout_ms > 0 \<Longrightarrow> push_back timeout_ms max_start t \<le> max_start"
  by (simp add: push_back_def)

lemma collect_ends_at_start:
  assumes "clock_step cx wc ''DBOS.debounce.loopTime'' e = (Inr now, e1)" "sub_i64 target_start now \<le> 0"
  shows "collect (Suc n) fuel cx wc timeout_ms max_start current target_start e = Some (Inr current, e1)"
  using assms by simp

text \<open>
  Any error of the wait for a message ends the collection too, and the target is then enqueued: a
  cancelled internal workflow is not distinguished from a timeout.
\<close>

lemma collect_swallows_errors:
  assumes "clock_step cx wc ''DBOS.debounce.loopTime'' e = (Inr now, e1)" "\<not> sub_i64 target_start now \<le> 0"
    and "recv cx wc fuel DEBOUNCER_TOPIC (sub_i64 target_start now) e1 = Some (Inl err, e2)"
  shows "collect (Suc n) fuel cx wc timeout_ms max_start current target_start e = Some (Inr current, e2)"
  using assms by (simp add: typed_def)

subsection \<open>Shutdown ends a wait for good\<close>

text \<open>A context that is shut down ends the wait of \<open>recv\<close>; the end is recorded as the timeout of the
  step, whatever time was left, so a later run sees the timeout again and does not wait.\<close>

lemma wait_until_shut:
  assumes "\<And>k db. en_env e k db = db" and "\<And>k. en_cancel e k"
  shows "\<exists>r. wait_until (Suc n) deadline ready e = Some (e\<lparr>en_reads := r\<rparr>)"
proof -
  have "e = e\<lparr>en_reads := en_reads e\<rparr>" "e\<lparr>en_reads := r, en_db := en_db e\<rparr> = e\<lparr>en_reads := r\<rparr>" for r by simp_all
  with assms show ?thesis unfolding wait_until_step by metis
qed

lemma comms_record_row:
  assumes "wf_exists (en_db e) (wc_id wc)" "op_of (en_db e) (wc_id wc) k = None"
  shows "\<exists>e' row. comms_record wc k name out err ser e = (Inr (), e')
    \<and> op_of (en_db e') (wc_id wc) k = Some row \<and> op_function_name row = name \<and> op_error row = err"
proof -
  let ?input = "\<lparr>ri_workflow_id = wc_id wc, ri_step_id = k, ri_step_name = name, ri_output = out, ri_error = err,
      ri_child = None, ri_started_at_ms = en_ticks e (en_reads e),
      ri_completed_at_ms = en_ticks e (Suc (en_reads e)), ri_serialization = ser\<rparr>"
  obtain db where db: "record_operation_result ?input (en_db e) = (Inr (), db)"
    using assms by (simp add: record_operation_result_def)
  then have "op_of db (wc_id wc) k = Some (recorded_row ?input)"
    using assms op_of_record [where input = ?input and db = "en_db e" and i = "wc_id wc" and k = k] by simp
  with db show ?thesis by (simp add: comms_record_def now_ms_def Let_def recorded_row_def)
qed

lemma shutdown_times_out_recv:
  assumes wc: "\<not> wc_within_step wc" "live_workflow (en_db e) (wc_id wc)"
    and fresh: "op_of (en_db e) (wc_id wc) (en_step e + 1) = None" "op_of (en_db e) (wc_id wc) (en_step e + 2) = None"
    and enc: "encode (json_serializer (cx_codec cx))
        (JInt (add_i64 (en_ticks e (en_reads e)) (as_i64 timeout_ms))) = Inr t"
    and none: "\<not> list_ex (waiting (wc_id wc) (resolve_topic topic)) (notifications (en_db e))"
    and quiet: "\<And>k db. en_env e k db = db" and shut: "\<And>k. en_cancel e k"
  shows "\<exists>e' row. recv cx wc (Suc n) topic timeout_ms e
      = Some (Inl (timeout_error (wc_id wc) ''DBOS.recv''
          (''no message received within '' @ cx_duration cx timeout_ms)), e')
    \<and> op_of (en_db e') (wc_id wc) (en_step e + 1) = Some row \<and> op_function_name row = ''DBOS.recv''
    \<and> op_error row \<noteq> None"
proof -
  let ?i = "wc_id wc" and ?k = "en_step e + 1" and ?topic = "resolve_topic topic"
  let ?e2 = "e\<lparr>en_step := en_step e + 2\<rparr>" and ?at = "add_i64 (en_ticks e (en_reads e)) (as_i64 timeout_ms)"
  have chk: "check_operation_execution ?i ?k ''DBOS.recv'' (en_db e) = Inr None"
    using wc fresh by (auto simp: check_operation_execution_def live_workflow_def split: option.splits)
  obtain rec where dl: "durable_deadline_ms cx wc (en_step e + 2) timeout_ms ?e2
      = (Inr ?at, ?e2\<lparr>en_reads := en_reads e + 3, en_db := snd (record_operation_result rec (en_db e))\<rparr>)"
    and rec: "ri_workflow_id rec = ?i" "ri_step_id rec = en_step e + 2"
    by (rule durable_time_fresh [where e = ?e2 and wc = wc and k = "en_step e + 2" and cx = cx
          and d = timeout_ms and t = t and m = "''no recorded deadline''"])
      (use wc fresh enc in \<open>simp_all add: durable_deadline_ms_def\<close>)
  let ?db = "snd (record_operation_result rec (en_db e))"
  let ?e3 = "?e2\<lparr>en_reads := en_reads e + 3, en_db := ?db\<rparr>"
  have nts: "notifications ?db = notifications (en_db e)" by (simp add: record_operation_result_def)
  have free: "op_of ?db ?i ?k = None" using fresh rec by (simp add: op_of_record)
  have exists: "wf_exists ?db ?i" using wc(2) by (auto simp: live_workflow_def split: option.splits)
  obtain r where wait: "wait_until (Suc n) ?at (has_unconsumed_notification ?i ?topic) ?e3 = Some (?e3\<lparr>en_reads := r\<rparr>)"
    using wait_until_shut [of ?e3 n ?at "has_unconsumed_notification ?i ?topic"] quiet shut
    by (auto simp del: wait_until.simps)
  have "filter (waiting ?i ?topic) (notifications (en_db e)) = []"
    using none by (auto simp: filter_empty_conv list_ex_iff)
  then have c: "consume_oldest_notification ?i ?topic ?db = (None, ?db)"
    by (simp add: consume_oldest_notification_def nts)
  let ?err = "timeout_error ?i ''DBOS.recv'' (''no message received within '' @ cx_duration cx timeout_ms)"
  obtain e' row where rec: "comms_record wc ?k ''DBOS.recv'' None
      (Some (serialize_workflow_error (cx_codec cx) ?err (sz_name (wf_encoder cx wc)))) (sz_name (wf_encoder cx wc))
      (?e3\<lparr>en_reads := r\<rparr>) = (Inr (), e')"
    "op_of (en_db e') ?i ?k = Some row" "op_function_name row = ''DBOS.recv''" "op_error row \<noteq> None"
    using comms_record_row [where e = "?e3\<lparr>en_reads := r\<rparr>" and wc = wc and k = ?k] free exists by force
  have same: "?e3\<lparr>en_reads := r, en_db := ?db\<rparr> = ?e3\<lparr>en_reads := r\<rparr>"
    and c': "consume_oldest_notification ?i ?topic (en_db (?e3\<lparr>en_reads := r\<rparr>)) = (None, ?db)" using c by simp_all
  have fin: "recv_finish cx wc ?k ?topic timeout_ms (?e3\<lparr>en_reads := r\<rparr>) = (Inl ?err, e')"
    unfolding recv_finish_def Let_def c' prod.case option.case same rec(1) sum.case ..
  moreover have "recv cx wc (Suc n) topic timeout_ms e
      = Some (recv_finish cx wc ?k ?topic timeout_ms (?e3\<lparr>en_reads := r\<rparr>))"
    using wc(1) chk dl wait by (simp add: add.commute [of 2 "en_step e"] recv_def next_step_id_def Let_def del: wait_until.simps)
  ultimately show ?thesis using rec fin by auto
qed

end
