(* ===== verification/Retry.thy ===== *)
theory Retry
  imports Background
begin

text \<open>
  \<open>db/retry.rs\<close>: the decorator that retries a database operation while it fails with a transient
  error.  An attempt goes through a connection that may lose the request (nothing happened) or the
  reply (the operation was committed, but the caller sees an error).
\<close>

subsection \<open>Transient errors\<close>

definition transient_sqlx :: "sqlx_error \<Rightarrow> bool" where
  "transient_sqlx e =
     (case sqlx_variant e of
        Database code _ \<Rightarrow>
          (case code of None \<Rightarrow> False | Some c \<Rightarrow> take 2 c = ''08'' \<or> take 3 c = ''57P'')
      | RowNotFound \<Rightarrow> False
      | TypeNotFound \<Rightarrow> False
      | ColumnIndexOutOfBounds \<Rightarrow> False
      | ColumnNotFound \<Rightarrow> False
      | ColumnDecode \<Rightarrow> False
      | Decode \<Rightarrow> False
      | Configuration \<Rightarrow> False
      | _ \<Rightarrow> True)"

fun first_sqlx :: "err_source list \<Rightarrow> sqlx_error option" where
  "first_sqlx [] = None"
| "first_sqlx (SrcSqlx e # _) = Some e"
| "first_sqlx (_ # ss) = first_sqlx ss"

definition is_transient :: "dbos_error \<Rightarrow> bool" where
  "is_transient e =
     (case first_sqlx (source_chain e) of None \<Rightarrow> False | Some s \<Rightarrow> transient_sqlx s)"

lemma is_transient_sql_err: "is_transient (sql_err ctx e) = transient_sqlx e"
  by (simp add: is_transient_def sql_err_def source_chain_unfold error_new_def with_source_def)

lemma no_source_not_transient: "err_source e = None \<Longrightarrow> \<not> is_transient e"
  by (simp add: is_transient_def source_chain_unfold)

subsection \<open>The loop\<close>

text \<open>\<open>f n\<close> is the \<open>n\<close>-th attempt; \<open>within n\<close> says that the time after it is still below the limit.
  Fuel bounds the attempts.\<close>

fun retry :: "nat \<Rightarrow> (nat \<Rightarrow> bool) \<Rightarrow> (nat \<Rightarrow> 's \<Rightarrow> 'a res \<times> 's) \<Rightarrow> nat \<Rightarrow> 's \<Rightarrow> ('a res \<times> 's) option" where
  "retry 0 within f n s = None"
| "retry (Suc k) within f n s =
     (case f n s of
        (Inr v, s) \<Rightarrow> Some (Inr v, s)
      | (Inl e, s) \<Rightarrow>
          if is_transient e \<and> within n then retry k within f (Suc n) s else Some (Inl e, s))"

datatype fault = Fine | Lost_request dbos_error | Lost_reply dbos_error

definition attempt :: "fault \<Rightarrow> ('s \<Rightarrow> 'a res \<times> 's) \<Rightarrow> 's \<Rightarrow> 'a res \<times> 's" where
  "attempt fault call s =
     (case fault of
        Fine \<Rightarrow> call s
      | Lost_request e \<Rightarrow> (Inl e, s)
      | Lost_reply e \<Rightarrow> (Inl e, snd (call s)))"

text \<open>Every method of \<open>RetryingDb\<close> is its inner method under \<open>retry\<close>.\<close>

definition retrying ::
  "nat \<Rightarrow> (nat \<Rightarrow> bool) \<Rightarrow> (nat \<Rightarrow> fault) \<Rightarrow> ('s \<Rightarrow> 'a res \<times> 's) \<Rightarrow> 's \<Rightarrow> ('a res \<times> 's) option" where
  "retrying fuel within faults call s = retry fuel within (\<lambda>n. attempt (faults n) call) 0 s"

lemma attempt_simps [simp]:
  "attempt Fine call s = call s" "attempt (Lost_request e) call s = (Inl e, s)"
  "attempt (Lost_reply e) call s = (Inl e, snd (call s))"
  by (simp_all add: attempt_def)

definition lossy :: "fault \<Rightarrow> bool" where
  "lossy fault \<longleftrightarrow> (case fault of Fine \<Rightarrow> False | Lost_request e \<Rightarrow> is_transient e | Lost_reply e \<Rightarrow> is_transient e)"

lemma retry_returns:
  assumes "\<not> within (n + k)"
  shows "retry (Suc k) within f n s \<noteq> None"
  using assms
proof (induction k arbitrary: n s)
  case (Suc k)
  then show ?case using Suc.IH [of "Suc n"] by (auto split: prod.splits sum.splits)
qed (auto split: prod.splits sum.splits)

subsection \<open>Operations that can be repeated\<close>

text \<open>The contract of an operation the decorator may repeat: a second call gives the same answer and
  changes nothing, and its own errors are not transient.\<close>

locale repeatable =
  fixes call :: "'s \<Rightarrow> 'a res \<times> 's"
  assumes again: "call (snd (call s)) = call s"
    and own_errors: "fst (call s) = Inl e \<Longrightarrow> \<not> is_transient e"
begin

lemma fine_attempt:
  "retry (Suc k) within (\<lambda>n. attempt (faults n) call) n s = Some (call s)" if "faults n = Fine"
  using that own_errors [of s] by (cases "call s"; cases "fst (call s)") auto

lemma transparent:
  assumes "\<And>j. j < k \<Longrightarrow> lossy (faults (n + j)) \<and> within (n + j)" "faults (n + k) = Fine"
    and "k < fuel"
  shows "retry fuel within (\<lambda>n. attempt (faults n) call) n s = Some (call s)"
  using assms
proof (induction k arbitrary: n s fuel)
  case 0
  then obtain m where "fuel = Suc m" by (cases fuel) auto
  with 0 show ?case using fine_attempt [of faults n m within s] by simp
next
  case (Suc k)
  then obtain m where m: "fuel = Suc m" "k < m" by (cases fuel) auto
  have first: "lossy (faults n)" "within n" using Suc.prems(1) [of 0] by simp_all
  have next_ok: "retry m within (\<lambda>n. attempt (faults n) call) (Suc n) t = Some (call t)" for t
    by (rule Suc.IH) (use Suc.prems(1) [of "Suc _"] Suc.prems(2) m(2) in auto)
  show ?case
    using first next_ok [of s] next_ok [of "snd (call s)"] again [of s]
    by (cases "faults n") (simp_all add: m(1) lossy_def)
qed

lemma retrying_transparent:
  assumes "\<forall>j<k. lossy (faults j) \<and> within j" "faults k = Fine" "k < fuel"
  shows "retrying fuel within faults call s = Some (call s)"
  unfolding retrying_def by (rule transparent [where k = k]) (use assms in simp_all)

end

subsection \<open>Which operations are repeatable\<close>

text \<open>The calls as the trait has them; a read leaves the database alone.\<close>

definition ok_call :: "(sysdb \<Rightarrow> 'a \<times> sysdb) \<Rightarrow> sysdb \<Rightarrow> 'a res \<times> sysdb" where
  "ok_call f db = (let (x, db') = f db in (Inr x, db'))"

definition read_call :: "(sysdb \<Rightarrow> 'a res) \<Rightarrow> sysdb \<Rightarrow> 'a res \<times> sysdb" where
  "read_call look db = (look db, db)"

lemma cancel_again: "cancel_workflow i now (snd (cancel_workflow i now db)) = cancel_workflow i now db"
  by (simp add: cancel_workflow_def Let_def update_where_again cancel_row_def fetch_update_where)

lemma resume_again: "resume_workflow i now (resume_workflow i now db) = resume_workflow i now db"
  by (simp add: resume_workflow_def update_where_again resume_row_def)

lemma transition_again:
  "transition_delayed_workflows now (transition_delayed_workflows now db) = transition_delayed_workflows now db"
  by (simp add: transition_delayed_workflows_def update_where_again)

lemma version_again:
  "create_application_version v u now (create_application_version v u now db) = create_application_version v u now db"
  by (auto simp: create_application_version_def fetch_append fetch_Cons split: option.splits)

lemma check_own_errors:
  "check_operation_execution i k n db = Inl e \<Longrightarrow> err_source e = None"
  by (auto simp: check_operation_execution_def non_existent_workflow_def workflow_cancelled_def
      unexpected_step_def error_new_def split: option.splits if_splits)

interpretation cancel_call: repeatable "ok_call (cancel_workflow i now)" for i now
  by unfold_locales (auto simp: ok_call_def cancel_again split_beta Let_def)

interpretation resume_call: repeatable "ok_call (\<lambda>db. ((), resume_workflow i now db))" for i now
  by unfold_locales (auto simp: ok_call_def resume_again Let_def)

interpretation transition_call: repeatable "ok_call (\<lambda>db. ((), transition_delayed_workflows now db))" for now
  by unfold_locales (auto simp: ok_call_def transition_again Let_def)

interpretation version_call: repeatable "ok_call (\<lambda>db. ((), create_application_version v u now db))" for v u now
  by unfold_locales (auto simp: ok_call_def version_again Let_def)

interpretation check_call: repeatable "read_call (check_operation_execution i k n)" for i k n
  by unfold_locales (auto simp: read_call_def dest: check_own_errors no_source_not_transient)

subsection \<open>Correctness\<close>


definition drop_first :: "nat \<Rightarrow> fault" where
  "drop_first n = (if n = 0 then Lost_reply (sql_err ''connection'' (SqlxError Io ''reset'')) else Fine)"

lemma io_transient: "is_transient (sql_err c (SqlxError Io t))"
  by (simp add: is_transient_sql_err transient_sqlx_def)


text \<open>
  Recording a step is not repeatable.  When the reply to a record is lost, the step is recorded once,
  with its result, but the retry reports it as a conflict.
\<close>

lemma lost_reply_conflicts:
  assumes "record_operation_result input db = (Inr (), db')" "is_transient e" "within 0"
    and "faults 0 = Lost_reply e" "faults 1 = Fine" "1 < fuel"
  shows "retrying fuel within faults (record_operation_result input) db
       = Some (Inl (workflow_conflict_id (ri_workflow_id input)), db')"
proof -
  obtain m where fuel: "fuel = Suc (Suc m)" using assms(6) by (metis One_nat_def less_imp_Suc_add add_Suc)
  have op: "op_of db' (ri_workflow_id input) (ri_step_id input) = Some (recorded_row input)"
    by (rule record_ok(1) [OF assms(1)])
  have "err_source (workflow_conflict_id (ri_workflow_id input)) = None"
    by (cases "ri_workflow_id input") (simp_all add: workflow_conflict_id_def error_new_def)
  then have "\<not> is_transient (workflow_conflict_id (ri_workflow_id input))" by (rule no_source_not_transient)
  moreover have "record_operation_result input db' = (Inl (workflow_conflict_id (ri_workflow_id input)), db')"
    using op by (simp add: record_operation_result_def)
  ultimately show ?thesis
    using assms(1-5) by (simp add: retrying_def fuel)
qed

text \<open>The conflict then stops the workflow: a body that passes this error on makes its task wait for
  the outcome of another execution, and when there is none, so that the row stays PENDING whatever the
  environment does between the polls, the task never ends, whatever the number of polls.\<close>

theorem conflicting_task_never_ends:
  assumes "is_code err ConflictingId"
    and "\<forall>k. \<exists>r. wf_row (observed (rt_eng rt) k) (wc_id (tk_wc t)) = Some r \<and> ws_status r = Pending"
  shows "finish_task cx fuel t (Inl err) rt = None"
proof -
  have "await_poll (wc_id (tk_wc t)) (observed (rt_eng rt) k) = None" for k
    using assms(2) [rule_format, of k] by (auto simp: await_poll_def)
  then have "await_workflow_result fuel (wc_id (tk_wc t)) (observed (rt_eng rt)) = None"
    by (simp add: await_first_decided split: option.splits)
  with await_outcome_refines [of fuel "wc_id (tk_wc t)" "rt_eng rt"]
  have "await_outcome fuel (wc_id (tk_wc t)) (rt_eng rt) = None" by simp
  with assms(1) show ?thesis by (simp add: finish_task_def Let_def)
qed

lemma conflicting_task_never_ends_witness:
  "\<forall>fuel. finish_task sample_ctx fuel \<lparr>tk_name = ''charge'', tk_wc = sample_wfctx, tk_input = None,
        tk_serialization = ''DBOS_JSON'', tk_deadline = None\<rparr> (Inl (workflow_conflict_id ''w1'')) sample_rt = None"
proof (rule allI, rule conflicting_task_never_ends)
  show "is_code (workflow_conflict_id ''w1'') ConflictingId"
    using is_code_self [of "workflow_conflict_id ''w1''"] by simp
  have "observed sample_eng k = sample_db" for k by (induction k) (simp_all add: sample_eng_def)
  then show "\<forall>k. \<exists>r. wf_row (observed (rt_eng sample_rt) k) (wc_id (tk_wc \<lparr>tk_name = ''charge'', tk_wc = sample_wfctx,
      tk_input = None, tk_serialization = ''DBOS_JSON'', tk_deadline = None\<rparr>)) = Some r \<and> ws_status r = Pending"
    using sample_rows(1) by (simp add: sample_rt_def sample_wfctx_def sample_row_def)
qed

end
