(* ===== verification/Postgres_Shared.thy ===== *)
theory Postgres_Shared
  imports Postgres Store_Queue Store_List Store_Schedules "HOL-Library.Multiset"
begin

text \<open>
  The operations of \<open>db/postgres.rs\<close> that \<open>Postgres\<close> and \<open>Postgres_Dequeue\<close> leave out.  The statements
  that change rows are those of SQLite up to the placeholders and agree with them exactly.  What is
  different is the order of a result: a SELECT without ORDER BY, or with equal sort keys, returns rows
  in the order of the heap, which moves as rows are updated.  That order is a parameter, \<open>scans\<close>.
\<close>

subsection \<open>Statements on single rows\<close>

definition pg_update_workflow_outcome ::
  "string \<Rightarrow> workflow_status_type \<Rightarrow> string option \<Rightarrow> string \<Rightarrow> int \<Rightarrow> int \<Rightarrow> sysdb \<Rightarrow> sysdb" where
  "pg_update_workflow_outcome i status output err_str now1 now2 db =
     db\<lparr>workflow_status :=
       update_where (\<lambda>r. ws_uuid r = i \<and> \<not> (ws_status r = Cancelled \<and> status \<in> {Success, Error}))
         (\<lambda>r. r\<lparr>ws_status := status, ws_output := output, ws_error := opt_str err_str,
                 ws_updated_at := now1, ws_completed_at := Some now2, ws_dedup_id := None\<rparr>)
         (workflow_status db)\<rparr>"

definition pg_clear_queue_assignment :: "string \<Rightarrow> sysdb \<Rightarrow> bool \<times> sysdb" where
  "pg_clear_queue_assignment i db =
     (let P = (\<lambda>r. ws_uuid r = i \<and> ws_queue_name r \<noteq> None \<and> ws_status r = Pending) in
      (count_where P (workflow_status db) > 0,
       db\<lparr>workflow_status :=
         update_where P (\<lambda>r. r\<lparr>ws_status := Enqueued, ws_started_at := None\<rparr>) (workflow_status db)\<rparr>))"

definition pg_get_deduplicated_workflow :: "string \<Rightarrow> string \<Rightarrow> sysdb \<Rightarrow> string option" where
  "pg_get_deduplicated_workflow queue dedup db =
     map_option ws_uuid
       (fetch (\<lambda>r. (ws_queue_name r, ws_dedup_id r)) (Some queue, Some dedup) (workflow_status db))"

definition pg_transition_delayed_workflows :: "int \<Rightarrow> sysdb \<Rightarrow> sysdb" where
  "pg_transition_delayed_workflows now db =
     db\<lparr>workflow_status :=
       update_where (\<lambda>r. ws_status r = Delayed
           \<and> (case ws_delay_until r of None \<Rightarrow> False | Some t \<Rightarrow> t \<le> now))
         (\<lambda>r. r\<lparr>ws_status := Enqueued\<rparr>) (workflow_status db)\<rparr>"

definition pg_cancel_workflow :: "string \<Rightarrow> int \<Rightarrow> sysdb \<Rightarrow> bool \<times> sysdb" where
  "pg_cancel_workflow i now db =
     (let db' = db\<lparr>workflow_status :=
            update_where (\<lambda>r. ws_uuid r = i \<and> ws_status r \<notin> {Success, Error, Cancelled})
              (cancel_row now) (workflow_status db)\<rparr>
      in (wf_exists db' i, db'))"

definition pg_resume_workflow :: "string \<Rightarrow> int \<Rightarrow> sysdb \<Rightarrow> sysdb" where
  "pg_resume_workflow i now db =
     db\<lparr>workflow_status :=
       update_where (\<lambda>r. ws_uuid r = i \<and> ws_status r \<notin> {Success, Error}) (resume_row now)
         (workflow_status db)\<rparr>"

definition pg_delete_workflow_row :: "string \<Rightarrow> sysdb \<Rightarrow> sysdb" where
  "pg_delete_workflow_row i db = delete_cascade (\<lambda>r. ws_uuid r = i) db"

definition pg_set_workflow_status_pending :: "string \<Rightarrow> int \<Rightarrow> sysdb \<Rightarrow> sysdb" where
  "pg_set_workflow_status_pending i now db =
     db\<lparr>workflow_status :=
       update_where (\<lambda>r. ws_uuid r = i)
         (\<lambda>r. r\<lparr>ws_status := Pending, ws_output := None, ws_error := None, ws_started_at := None,
                 ws_updated_at := now\<rparr>) (workflow_status db)\<rparr>"

definition pg_send_notification ::
  "string \<Rightarrow> string \<Rightarrow> string option \<Rightarrow> string \<Rightarrow> string \<Rightarrow> int \<Rightarrow> sysdb \<Rightarrow> unit res \<times> sysdb" where
  "pg_send_notification dest topic message ser uuid now db =
     (case message of
        None \<Rightarrow> (Inl (sql_err ''failed to insert notification'' (violation db NotNullViolation)), db)
      | Some m \<Rightarrow>
          if fetch nt_uuid uuid (notifications db) \<noteq> None
          then (Inl (sql_err ''failed to insert notification'' (violation db UniqueViolation)), db)
          else if \<not> wf_exists db dest then (Inl (non_existent_workflow dest), db)
          else (Inr (), db\<lparr>notifications := notifications db @
                 [\<lparr>nt_uuid = uuid, nt_destination = dest, nt_topic = topic, nt_message = m,
                   nt_created_at = now, nt_serialization = ser, nt_consumed = False\<rparr>]\<rparr>))"

definition pg_get_event :: "string \<Rightarrow> string \<Rightarrow> sysdb \<Rightarrow> (string option \<times> string) option" where
  "pg_get_event target key db =
     map_option (\<lambda>r. (Some (ev_value r), ev_serialization r)) (fetch ev_pk (target, key) (workflow_events db))"

definition pg_create_application_version :: "string \<Rightarrow> string \<Rightarrow> int \<Rightarrow> sysdb \<Rightarrow> sysdb" where
  "pg_create_application_version version_name new_uuid now db =
     (if fetch av_name version_name (application_versions db) \<noteq> None then db
      else db\<lparr>application_versions := application_versions db @
        [\<lparr>av_id = new_uuid, av_name = version_name, av_timestamp = now, av_created_at = now\<rparr>]\<rparr>)"

definition pg_set_latest_application_version :: "string \<Rightarrow> int \<Rightarrow> sysdb \<Rightarrow> sysdb" where
  "pg_set_latest_application_version version_name now db =
     db\<lparr>application_versions :=
       update_where (\<lambda>r. av_name r = version_name) (\<lambda>r. r\<lparr>av_timestamp := now\<rparr>) (application_versions db)\<rparr>"

definition pg_create_schedule :: "schedule_row \<Rightarrow> sysdb \<Rightarrow> unit res \<times> sysdb" where
  "pg_create_schedule row db =
     (if fetch sr_name (sr_name row) (workflow_schedules db) \<noteq> None
         \<or> fetch sr_id (sr_id row) (workflow_schedules db) \<noteq> None
      then (Inl (error_new ConflictingId (''schedule already exists: '' @ sr_name row)), db)
      else (Inr (), db\<lparr>workflow_schedules :=
             workflow_schedules db @ [row\<lparr>sr_last_fired_at := None\<rparr>]\<rparr>))"

definition pg_get_schedule :: "string \<Rightarrow> sysdb \<Rightarrow> schedule_row option" where
  "pg_get_schedule name db = fetch sr_name name (workflow_schedules db)"

definition pg_set_schedule_status :: "string \<Rightarrow> string \<Rightarrow> sysdb \<Rightarrow> sysdb" where
  "pg_set_schedule_status name status db =
     db\<lparr>workflow_schedules :=
       update_where (\<lambda>r. sr_name r = name) (\<lambda>r. r\<lparr>sr_status := status, sr_last_fired_at := None\<rparr>)
         (workflow_schedules db)\<rparr>"

definition pg_update_schedule_last_fired :: "string \<Rightarrow> string \<Rightarrow> sysdb \<Rightarrow> sysdb" where
  "pg_update_schedule_last_fired name t db =
     db\<lparr>workflow_schedules :=
       update_where (\<lambda>r. sr_name r = name) (\<lambda>r. r\<lparr>sr_last_fired_at := Some t\<rparr>) (workflow_schedules db)\<rparr>"

definition pg_delete_schedule_row :: "string \<Rightarrow> sysdb \<Rightarrow> sysdb" where
  "pg_delete_schedule_row name db =
     db\<lparr>workflow_schedules := delete_where (\<lambda>r. sr_name r = name) (workflow_schedules db)\<rparr>"

definition pg_await_poll :: "string \<Rightarrow> sysdb \<Rightarrow> await_result res option" where
  "pg_await_poll i db =
     (case wf_row db i of
        None \<Rightarrow> None
      | Some r \<Rightarrow>
          (case ws_status r of
             Success \<Rightarrow> Some (Inr \<lparr>aw_output = ws_output r, aw_error = non_empty_opt (ws_error r),
                                  aw_serialization = ws_serialization r\<rparr>)
           | Error \<Rightarrow> Some (Inr \<lparr>aw_output = ws_output r, aw_error = non_empty_opt (ws_error r),
                                aw_serialization = ws_serialization r\<rparr>)
           | Cancelled \<Rightarrow> Some (Inl (awaited_workflow_cancelled i))
           | MaxRecoveryAttemptsExceeded \<Rightarrow>
               Some (Inl (dead_letter_queue i (ws_recovery_attempts r - 2)))
           | _ \<Rightarrow> None))"

fun pg_await_workflow_result :: "nat \<Rightarrow> string \<Rightarrow> (nat \<Rightarrow> sysdb) \<Rightarrow> await_result res option" where
  "pg_await_workflow_result 0 i obs = None"
| "pg_await_workflow_result (Suc n) i obs =
     (case pg_await_poll i (obs 0) of
        None \<Rightarrow> pg_await_workflow_result n i (\<lambda>k. obs (Suc k))
      | Some r \<Rightarrow> Some r)"

definition pg_has_unconsumed_notification :: "string \<Rightarrow> string \<Rightarrow> sysdb \<Rightarrow> bool" where
  "pg_has_unconsumed_notification dest topic db \<longleftrightarrow> list_ex (waiting dest topic) (notifications db)"

lemmas pg_same_defs =
  pg_update_workflow_outcome_def update_workflow_outcome_def pg_clear_queue_assignment_def
  clear_queue_assignment_def pg_get_deduplicated_workflow_def get_deduplicated_workflow_def
  pg_transition_delayed_workflows_def transition_delayed_workflows_def pg_cancel_workflow_def
  cancel_workflow_def pg_resume_workflow_def resume_workflow_def pg_delete_workflow_row_def
  delete_workflow_row_def pg_set_workflow_status_pending_def set_workflow_status_pending_def
  pg_send_notification_def send_notification_def pg_get_event_def get_event_def
  pg_create_application_version_def create_application_version_def
  pg_set_latest_application_version_def set_latest_application_version_def pg_create_schedule_def
  create_schedule_def pg_get_schedule_def get_schedule_def pg_set_schedule_status_def
  set_schedule_status_def pg_update_schedule_last_fired_def update_schedule_last_fired_def
  pg_delete_schedule_row_def delete_schedule_row_def pg_await_poll_def await_poll_def
  pg_has_unconsumed_notification_def has_unconsumed_notification_def

lemma pg_rows_agree:
  "pg_update_workflow_outcome = update_workflow_outcome" "pg_clear_queue_assignment = clear_queue_assignment"
  "pg_get_deduplicated_workflow = get_deduplicated_workflow"
  "pg_transition_delayed_workflows = transition_delayed_workflows" "pg_cancel_workflow = cancel_workflow"
  "pg_resume_workflow = resume_workflow" "pg_delete_workflow_row = delete_workflow_row"
  "pg_set_workflow_status_pending = set_workflow_status_pending" "pg_send_notification = send_notification"
  "pg_get_event = get_event" "pg_create_application_version = create_application_version"
  "pg_set_latest_application_version = set_latest_application_version" "pg_create_schedule = create_schedule"
  "pg_get_schedule = get_schedule" "pg_set_schedule_status = set_schedule_status"
  "pg_update_schedule_last_fired = update_schedule_last_fired" "pg_delete_schedule_row = delete_schedule_row"
  "pg_await_poll = await_poll" "pg_has_unconsumed_notification = has_unconsumed_notification"
  by (intro ext; simp only: pg_same_defs)+

lemma pg_await_agrees: "pg_await_workflow_result n i obs = await_workflow_result n i obs"
  by (induction n arbitrary: obs) (simp_all add: pg_rows_agree split: option.split)

subsection \<open>Reads of several rows\<close>

record scans =
  sc_ws :: "ws_row list \<Rightarrow> ws_row list"
  sc_op :: "op_row list \<Rightarrow> op_row list"
  sc_nt :: "nt_row list \<Rightarrow> nt_row list"
  sc_ev :: "ev_row list \<Rightarrow> ev_row list"
  sc_st :: "st_row list \<Rightarrow> st_row list"
  sc_av :: "av_row list \<Rightarrow> av_row list"
  sc_sr :: "schedule_row list \<Rightarrow> schedule_row list"

definition scans_ok :: "scans \<Rightarrow> bool" where
  "scans_ok s \<longleftrightarrow>
     (\<forall>xs. mset (sc_ws s xs) = mset xs) \<and> (\<forall>xs. mset (sc_op s xs) = mset xs)
     \<and> (\<forall>xs. mset (sc_nt s xs) = mset xs) \<and> (\<forall>xs. mset (sc_ev s xs) = mset xs)
     \<and> (\<forall>xs. mset (sc_st s xs) = mset xs) \<and> (\<forall>xs. mset (sc_av s xs) = mset xs)
     \<and> (\<forall>xs. mset (sc_sr s xs) = mset xs)"

definition pg_get_workflow_children :: "scans \<Rightarrow> string \<Rightarrow> sysdb \<Rightarrow> string list" where
  "pg_get_workflow_children s i db =
     map ws_uuid (filter (\<lambda>r. ws_parent_id r = Some i) (sc_ws s (workflow_status db)))"

definition pg_get_workflow_steps :: "scans \<Rightarrow> string \<Rightarrow> sysdb \<Rightarrow> step_info list" where
  "pg_get_workflow_steps s i db =
     map step_info_of
       (sort_key op_function_id (filter (\<lambda>r. op_workflow r = i) (sc_op s (operation_outputs db))))"

definition pg_get_workflow_status_counts :: "scans \<Rightarrow> sysdb \<Rightarrow> (string \<times> int) list" where
  "pg_get_workflow_status_counts s db =
     (let rows = sc_ws s (workflow_status db)
      in map (\<lambda>st. (as_str st, count_where (\<lambda>r. ws_status r = st) rows)) (remdups (map ws_status rows)))"

definition pg_get_step_aggregates :: "scans \<Rightarrow> sysdb \<Rightarrow> (string \<times> int) list" where
  "pg_get_step_aggregates s db =
     (let rows = sc_op s (operation_outputs db)
      in map (\<lambda>n. (n, count_where (\<lambda>r. op_function_name r = n) rows)) (remdups (map op_function_name rows)))"

definition pg_get_workflow_events :: "scans \<Rightarrow> string \<Rightarrow> sysdb \<Rightarrow> (string \<times> string option \<times> string) list" where
  "pg_get_workflow_events s i db =
     map (\<lambda>r. (ev_key r, Some (ev_value r), ev_serialization r))
       (filter (\<lambda>r. ev_workflow r = i) (sc_ev s (workflow_events db)))"

definition pg_get_workflow_notifications ::
  "scans \<Rightarrow> string \<Rightarrow> sysdb \<Rightarrow> (string \<times> string option \<times> int \<times> string \<times> bool) list" where
  "pg_get_workflow_notifications s i db =
     map (\<lambda>r. (nt_topic r, Some (nt_message r), nt_created_at r, nt_serialization r, nt_consumed r))
       (sort_key nt_created_at (filter (\<lambda>r. nt_destination r = i) (sc_nt s (notifications db))))"

text \<open>Keys are compared byte by byte, as under the collation C.\<close>

definition pg_get_workflow_streams :: "scans \<Rightarrow> string \<Rightarrow> sysdb \<Rightarrow> (string \<times> int \<times> string \<times> string) list" where
  "pg_get_workflow_streams s i db =
     map (\<lambda>r. (st_key r, st_offset r, st_value r, st_serialization r))
       (sort_key (\<lambda>r. (st_key r, st_offset r)) (filter (\<lambda>r. st_workflow r = i) (sc_st s (streams db))))"

definition pg_get_latest_application_version :: "scans \<Rightarrow> sysdb \<Rightarrow> string option" where
  "pg_get_latest_application_version s db =
     (case sort_key (\<lambda>r. - av_timestamp r) (sc_av s (application_versions db)) of
        [] \<Rightarrow> None | r # _ \<Rightarrow> Some (av_name r))"

definition pg_list_application_versions :: "scans \<Rightarrow> sysdb \<Rightarrow> (string \<times> string \<times> int \<times> int) list" where
  "pg_list_application_versions s db =
     map (\<lambda>r. (av_id r, av_name r, av_timestamp r, av_created_at r))
       (sort_key (\<lambda>r. - av_timestamp r) (sc_av s (application_versions db)))"

definition pg_list_schedules :: "scans \<Rightarrow> sysdb \<Rightarrow> schedule_row list" where
  "pg_list_schedules s db = sc_sr s (workflow_schedules db)"

subsection \<open>The reads agree up to the order of the heap\<close>

lemma sort_scanned:
  assumes "mset xs = mset ys" "inj_on f (set (filter P ys))"
  shows "sort_key f (filter P xs) = sort_key f (filter P ys)"
proof (rule sort_key_inj_key_eq)
  show "mset (filter P xs) = mset (sort_key f (filter P ys))" using assms(1) by simp
  show "inj_on f (set (filter P xs))" using assms mset_eq_setD [OF assms(1)] by simp
qed simp

lemma count_scanned: "mset xs = mset ys \<Longrightarrow> count_where P xs = count_where P ys"
  using mset_filter [of P xs] mset_filter [of P ys] by (simp add: count_where_def flip: size_mset)

lemma groups_scanned:
  assumes "mset xs = mset ys"
  shows "mset (map (\<lambda>k. (g k, count_where (\<lambda>r. f r = k) xs)) (remdups (map f xs)))
       = mset (map (\<lambda>k. (g k, count_where (\<lambda>r. f r = k) ys)) (remdups (map f ys)))"
proof -
  have "mset (remdups (map f xs)) = mset (remdups (map f ys))"
    using mset_eq_setD [OF assms] by (simp add: set_eq_iff_mset_remdups_eq [symmetric])
  then show ?thesis using count_scanned [OF assms] by simp
qed

lemma pg_reads_agree:
  assumes "scans_ok s" "schema_ok db"
  shows "mset (pg_get_workflow_children s i db) = mset (get_workflow_children i db)"
    and "pg_get_workflow_steps s i db = get_workflow_steps i db"
    and "mset (pg_get_workflow_status_counts s db) = mset (get_workflow_status_counts db)"
    and "mset (pg_get_step_aggregates s db) = mset (get_step_aggregates db)"
    and "mset (pg_get_workflow_events s i db) = mset (get_workflow_events i db)"
    and "mset (pg_get_workflow_notifications s i db) = mset (get_workflow_notifications i db)"
    and "pg_get_workflow_streams s i db = get_workflow_streams i db"
    and "mset (pg_list_application_versions s db) = mset (list_application_versions db)"
    and "mset (pg_list_schedules s db) = mset (list_schedules db)"
proof -
  have scan: "mset (sc_ws s (workflow_status db)) = mset (workflow_status db)"
    "mset (sc_op s (operation_outputs db)) = mset (operation_outputs db)"
    "mset (sc_nt s (notifications db)) = mset (notifications db)"
    "mset (sc_ev s (workflow_events db)) = mset (workflow_events db)"
    "mset (sc_st s (streams db)) = mset (streams db)"
    "mset (sc_av s (application_versions db)) = mset (application_versions db)"
    "mset (sc_sr s (workflow_schedules db)) = mset (workflow_schedules db)"
    using assms(1) by (simp_all add: scans_ok_def)
  show "mset (pg_get_workflow_children s i db) = mset (get_workflow_children i db)"
    "mset (pg_get_workflow_events s i db) = mset (get_workflow_events i db)"
    "mset (pg_get_workflow_notifications s i db) = mset (get_workflow_notifications i db)"
    "mset (pg_list_application_versions s db) = mset (list_application_versions db)"
    "mset (pg_list_schedules s db) = mset (list_schedules db)"
    by (simp_all add: pg_get_workflow_children_def get_workflow_children_def pg_get_workflow_events_def
        get_workflow_events_def pg_get_workflow_notifications_def get_workflow_notifications_def
        pg_list_application_versions_def list_application_versions_def pg_list_schedules_def list_schedules_def
        scan)
  show "mset (pg_get_workflow_status_counts s db) = mset (get_workflow_status_counts db)"
    unfolding pg_get_workflow_status_counts_def get_workflow_status_counts_def Let_def
    by (rule groups_scanned [OF scan(1)])
  show "mset (pg_get_step_aggregates s db) = mset (get_step_aggregates db)"
    unfolding pg_get_step_aggregates_def get_step_aggregates_def Let_def
    by (rule groups_scanned [OF scan(2)])
  have "inj_on op_function_id (set (filter (\<lambda>r. op_workflow r = i) (operation_outputs db)))"
    "inj_on (\<lambda>r. (st_key r, st_offset r)) (set (filter (\<lambda>r. st_workflow r = i) (streams db)))"
    using assms(2) by (auto simp: schema_defs distinct_map inj_on_def)
  then show "pg_get_workflow_steps s i db = get_workflow_steps i db"
    "pg_get_workflow_streams s i db = get_workflow_streams i db"
    by (simp_all add: pg_get_workflow_steps_def get_workflow_steps_def pg_get_workflow_streams_def
        get_workflow_streams_def sort_scanned [OF scan(2)] sort_scanned [OF scan(5)])
qed

text \<open>The latest version is the same one unless two versions were stamped in the same millisecond.\<close>

lemma pg_latest_agrees:
  assumes "scans_ok s" "distinct (map av_timestamp (application_versions db))"
  shows "pg_get_latest_application_version s db = get_latest_application_version db"
proof -
  have "inj_on (\<lambda>r. - av_timestamp r) (set (application_versions db))"
    using assms(2) by (auto simp: distinct_map inj_on_def)
  then have "sort_key (\<lambda>r. - av_timestamp r) (sc_av s (application_versions db))
      = sort_key (\<lambda>r. - av_timestamp r) (application_versions db)"
    using sort_scanned [of "sc_av s (application_versions db)" "application_versions db" _ "\<lambda>_. True"] assms(1)
    by (simp add: scans_ok_def)
  then show ?thesis by (simp add: pg_get_latest_application_version_def get_latest_application_version_def)
qed

end
