(* ===== verification/Strings.thy ===== *)
theory Strings
  imports Prelude "HOL-Library.Sublist"
begin

text \<open>
  The string functions of Rust that the source uses on text it has to take apart: \<open>trim\<close>,
  \<open>trim_start\<close>, \<open>trim_end_matches\<close>, \<open>lines\<close>, \<open>split\<close>, \<open>to_ascii_lowercase\<close>, \<open>replacen\<close>.  A
  string is the list of its UTF-8 bytes; white space is what Unicode calls so, recognised by its
  encoding.
\<close>

subsection \<open>White space\<close>

text \<open>The length of the white-space character that a text starts with, 0 if it starts with none.\<close>

definition space_len :: "string \<Rightarrow> nat" where
  "space_len s =
     (case map of_char s :: nat list of
        c # t \<Rightarrow>
          if 9 \<le> c \<and> c \<le> 13 \<or> c = 32 then 1
          else (case t of
            d # u \<Rightarrow>
              if c = 0xC2 \<and> (d = 0x85 \<or> d = 0xA0) then 2
              else (case u of
                e # _ \<Rightarrow>
                  if c = 0xE1 \<and> d = 0x9A \<and> e = 0x80
                     \<or> c = 0xE2 \<and> d = 0x80 \<and> (0x80 \<le> e \<and> e \<le> 0x8A \<or> e = 0xA8 \<or> e = 0xA9 \<or> e = 0xAF)
                     \<or> c = 0xE2 \<and> d = 0x81 \<and> e = 0x9F
                     \<or> c = 0xE3 \<and> d = 0x80 \<and> e = 0x80
                  then 3 else 0
              | [] \<Rightarrow> 0)
          | [] \<Rightarrow> 0)
      | [] \<Rightarrow> 0)"

function trim_start :: "string \<Rightarrow> string" where
  "trim_start s = (if s = [] \<or> space_len s = 0 then s else trim_start (drop (space_len s) s))"
  by auto
termination by (relation "measure length") auto

declare trim_start.simps [simp del]

fun trim_end :: "string \<Rightarrow> string" where
  "trim_end [] = []"
| "trim_end (c # s) = (if trim_start (c # s) = [] then [] else c # trim_end s)"

definition trim :: "string \<Rightarrow> string" where
  "trim s = trim_end (trim_start s)"

lemma trim_Nil [simp]: "trim_start [] = []" "trim [] = []"
  by (simp_all add: trim_def trim_start.simps)

lemma trim_start_plain: "space_len s = 0 \<Longrightarrow> trim_start s = s"
  by (simp add: trim_start.simps)

lemma trim_end_prefix: "prefix (trim_end s) s"
  by (induction s) auto

lemma trim_start_suffix: "suffix (trim_start s) s"
proof (induction s rule: trim_start.induct)
  case (1 s)
  then show ?case
    by (subst trim_start.simps) (auto intro: suffix_order.trans suffix_drop)
qed

subsection \<open>Pieces\<close>

text \<open>\<open>split\<close> at a character: the pieces between its occurrences, at least one.\<close>

fun split_on :: "char \<Rightarrow> string \<Rightarrow> string list" where
  "split_on d [] = [[]]"
| "split_on d (c # s) =
     (if c = d then [] # split_on d s else (c # hd (split_on d s)) # tl (split_on d s))"

lemma split_on_nonempty [simp]: "split_on d s \<noteq> []"
  by (induction s) auto

text \<open>The pieces hold no separator, and put together with one between each two they give the text back.\<close>

lemma split_on_pieces: "p \<in> set (split_on d s) \<Longrightarrow> d \<notin> set p"
proof (induction s arbitrary: p)
  case (Cons c s)
  have "hd (split_on d s) \<in> set (split_on d s)" by simp
  with Cons show ?case by (auto split: if_splits dest: list.set_sel(2) [rotated])
qed simp

fun join_with :: "string \<Rightarrow> string list \<Rightarrow> string" where
  "join_with sep [] = []"
| "join_with sep [p] = p"
| "join_with sep (p # q # ps) = p @ sep @ join_with sep (q # ps)"

lemma join_with_Cons: "ps \<noteq> [] \<Longrightarrow> join_with sep (p # ps) = p @ sep @ join_with sep ps"
  by (cases ps) simp_all

lemma join_split_on: "join_with [d] (split_on d s) = s"
proof (induction s)
  case (Cons c s)
  obtain p ps where ps: "split_on d s = p # ps" by (cases "split_on d s") auto
  have "join_with [d] ((c # p) # ps) = c # join_with [d] (p # ps)" by (cases ps) simp_all
  with Cons ps show ?case by (auto simp: join_with_Cons)
qed simp

text \<open>\<open>lines\<close>: a line ends with a line feed, with or without a carriage return before it; a last line
  need not, and is then kept as it is.\<close>

abbreviation LF :: char where "LF \<equiv> CHR 0x0A"
abbreviation CR :: char where "CR \<equiv> CHR 0x0D"

definition strip_cr :: "string \<Rightarrow> string" where
  "strip_cr s = (if s \<noteq> [] \<and> last s = CR then butlast s else s)"

definition str_lines :: "string \<Rightarrow> string list" where
  "str_lines s =
     (let ps = split_on LF s
      in map strip_cr (butlast ps) @ (if last ps = [] then [] else [last ps]))"

lemma str_lines_no_LF: "l \<in> set (str_lines s) \<Longrightarrow> LF \<notin> set l"
  using split_on_pieces [of _ LF s] last_in_set [of "split_on LF s"]
  by (auto simp: str_lines_def strip_cr_def Let_def split: if_splits dest: in_set_butlastD)

subsection \<open>Matching and replacing\<close>

definition ascii_lower :: "char \<Rightarrow> char" where
  "ascii_lower c =
     (let n = of_char c :: nat in if 65 \<le> n \<and> n \<le> 90 then char_of (n + 32) else c)"

definition to_ascii_lowercase :: "string \<Rightarrow> string" where
  "to_ascii_lowercase s = map ascii_lower s"

definition trim_end_matches :: "char \<Rightarrow> string \<Rightarrow> string" where
  "trim_end_matches c s = rev (dropWhile (\<lambda>x. x = c) (rev s))"

text \<open>\<open>replacen\<close> with the count 1: the first occurrence, wherever it is.\<close>

fun replace_first :: "string \<Rightarrow> string \<Rightarrow> string \<Rightarrow> string" where
  "replace_first pat by [] = (if pat = [] then by else [])"
| "replace_first pat by (c # s) =
     (if prefix pat (c # s) then by @ drop (length pat) (c # s) else c # replace_first pat by s)"

definition contains :: "string \<Rightarrow> string \<Rightarrow> bool" where
  "contains pat s \<longleftrightarrow> sublist pat s"

lemma trim_end_matches_last: "trim_end_matches c s = [] \<or> last (trim_end_matches c s) \<noteq> c"
proof (cases "dropWhile (\<lambda>x. x = c) (rev s)")
  case (Cons a as)
  then have "a \<noteq> c" using hd_dropWhile [of "\<lambda>x. x = c" "rev s"] by auto
  with Cons show ?thesis by (simp add: trim_end_matches_def)
qed (simp add: trim_end_matches_def)

lemma trim_end_matches_prefix: "\<exists>k. s = trim_end_matches c s @ replicate k c"
proof -
  have "rev s = takeWhile (\<lambda>x. x = c) (rev s) @ dropWhile (\<lambda>x. x = c) (rev s)" by simp
  then have s: "s = trim_end_matches c s @ rev (takeWhile (\<lambda>x. x = c) (rev s))"
    unfolding trim_end_matches_def by (metis rev_append rev_rev_ident)
  have "rev (takeWhile (\<lambda>x. x = c) (rev s)) = replicate (length (takeWhile (\<lambda>x. x = c) (rev s))) c"
    by (rule replicate_eqI) (auto dest: set_takeWhileD)
  with s show ?thesis by metis
qed

end
