(* ===== verification/Migrations.thy ===== *)
theory Migrations
  imports Strings Errors
begin

text \<open>
  Schema migrations: \<open>split_statements\<close> and \<open>run_migrations\<close> of \<open>db/sqlite.rs\<close> and
  \<open>db/postgres.rs\<close>.  What a statement does to the tables is the engine's: \<open>sq_exec\<close> is a parameter,
  and \<open>'d\<close> is whatever the tables are.  Every migration commits in a transaction of its own, so a
  process that dies leaves one of the states \<open>committed\<close> behind; the laws say that the next start
  continues from it.
\<close>

subsection \<open>Splitting a script\<close>

definition is_comment :: "string \<Rightarrow> bool" where
  "is_comment line \<longleftrightarrow> prefix ''--'' (trim_start line)"

definition split_statements :: "string \<Rightarrow> string list" where
  "split_statements body =
     (let clean = concat (map (\<lambda>l. l @ [LF]) (filter (\<lambda>l. \<not> is_comment l) (str_lines body)))
      in filter (\<lambda>s. s \<noteq> []) (map trim (split_on (CHR '';'') clean)))"

text \<open>The same function of the Postgres back end.\<close>

definition pg_split_statements :: "string \<Rightarrow> string list" where
  "pg_split_statements body =
     (let clean = concat (map (\<lambda>l. l @ [LF]) (filter (\<lambda>l. \<not> is_comment l) (str_lines body)))
      in filter (\<lambda>s. s \<noteq> []) (map trim (split_on (CHR '';'') clean)))"

subsection \<open>Running migrations\<close>

text \<open>The database: the rows of the migrations table, if there is one, and the other tables.\<close>

record 'd migrated =
  mg_versions :: "int list option"
  mg_tables :: 'd

text \<open>The engine: a statement's effect on the other tables, and the error of a second row with the same
  version.\<close>

record 'd sql_engine =
  sq_exec :: "string \<Rightarrow> 'd \<Rightarrow> sqlx_error + 'd"
  sq_duplicate :: sqlx_error

fun exec_all :: "'d sql_engine \<Rightarrow> string list \<Rightarrow> 'd \<Rightarrow> sqlx_error + 'd" where
  "exec_all eng [] d = Inr d"
| "exec_all eng (s # ss) d = (case sq_exec eng s d of Inl e \<Rightarrow> Inl e | Inr d \<Rightarrow> exec_all eng ss d)"

definition ensure_table :: "'d migrated \<Rightarrow> 'd migrated" where
  "ensure_table db = (if mg_versions db = None then db\<lparr>mg_versions := Some []\<rparr> else db)"

definition current_version :: "'d migrated \<Rightarrow> int" where
  "current_version db = (case mg_versions db of Some (v # _) \<Rightarrow> v | _ \<Rightarrow> 0)"

text \<open>The transaction of one migration: its statements and the new version, or nothing.\<close>

definition set_version :: "'d sql_engine \<Rightarrow> int \<Rightarrow> int \<Rightarrow> int list \<Rightarrow> dbos_error + int list" where
  "set_version eng current version vs =
     (if current = 0
      then if version \<in> set vs then Inl (sql_err ''failed to insert migration version'' (sq_duplicate eng))
           else Inr (vs @ [version])
      else if length vs > 1 then Inl (sql_err ''failed to update migration version'' (sq_duplicate eng))
           else Inr (map (\<lambda>_. version) vs))"

definition apply_migration ::
  "(string \<Rightarrow> string list) \<Rightarrow> 'd sql_engine \<Rightarrow> int \<Rightarrow> int \<times> string \<Rightarrow> 'd migrated \<Rightarrow> unit res \<times> 'd migrated" where
  "apply_migration splitting eng current m db =
     (case exec_all eng (splitting (trim (snd m))) (mg_tables db) of
        Inl e \<Rightarrow> (Inl (sql_err (''failed to execute migration '' @ show_int (fst m)) e), db)
      | Inr d \<Rightarrow>
          (case set_version eng current (fst m) (unwrap_or (mg_versions db) []) of
             Inl e \<Rightarrow> (Inl e, db)
           | Inr vs \<Rightarrow> (Inr (), \<lparr>mg_versions = Some vs, mg_tables = d\<rparr>)))"

fun migrate_from ::
  "(string \<Rightarrow> string list) \<Rightarrow> 'd sql_engine \<Rightarrow> int \<Rightarrow> (int \<times> string) list \<Rightarrow> 'd migrated \<Rightarrow> unit res \<times> 'd migrated" where
  "migrate_from splitting eng current [] db = (Inr (), db)"
| "migrate_from splitting eng current (m # ms) db =
     (if fst m \<le> current then migrate_from splitting eng current ms db
      else case apply_migration splitting eng current m db of
             (Inl e, db) \<Rightarrow> (Inl e, db)
           | (Inr _, db) \<Rightarrow> migrate_from splitting eng (fst m) ms db)"

definition run_migrations :: "'d sql_engine \<Rightarrow> (int \<times> string) list \<Rightarrow> 'd migrated \<Rightarrow> unit res \<times> 'd migrated" where
  "run_migrations eng migrations db =
     (let db = ensure_table db in migrate_from split_statements eng (current_version db) migrations db)"

definition pg_run_migrations :: "'d sql_engine \<Rightarrow> (int \<times> string) list \<Rightarrow> 'd migrated \<Rightarrow> unit res \<times> 'd migrated" where
  "pg_run_migrations eng migrations db =
     (let db = ensure_table db in migrate_from pg_split_statements eng (current_version db) migrations db)"

text \<open>The one migration both back ends share, with the text of \<open>0001_initial_schema.sql\<close>.\<close>

definition MIGRATIONS :: "string \<Rightarrow> (int \<times> string) list" where
  "MIGRATIONS initial_schema = [(1, initial_schema)]"

subsection \<open>Crashes\<close>

text \<open>The states that a run commits, one after the other: what a process that dies can leave behind.\<close>

fun commits ::
  "'d sql_engine \<Rightarrow> int \<Rightarrow> (int \<times> string) list \<Rightarrow> 'd migrated \<Rightarrow> 'd migrated list" where
  "commits eng current [] db = [db]"
| "commits eng current (m # ms) db =
     (if fst m \<le> current then commits eng current ms db
      else case apply_migration split_statements eng current m db of
             (Inl e, _) \<Rightarrow> [db]
           | (Inr _, db') \<Rightarrow> db # commits eng (fst m) ms db')"

definition committed :: "'d sql_engine \<Rightarrow> (int \<times> string) list \<Rightarrow> 'd migrated \<Rightarrow> 'd migrated set" where
  "committed eng migrations db =
     {db} \<union> set (commits eng (current_version (ensure_table db)) migrations (ensure_table db))"

text \<open>Starts that die, any number of them.\<close>

inductive crashed :: "'d sql_engine \<Rightarrow> (int \<times> string) list \<Rightarrow> 'd migrated \<Rightarrow> 'd migrated \<Rightarrow> bool"
  for eng migrations where
  fresh: "crashed eng migrations db db"
| again: "crashed eng migrations db db' \<Longrightarrow> db'' \<in> committed eng migrations db' \<Longrightarrow>
          crashed eng migrations db db''"

text \<open>Versions are positive and increase; the table has one row at most, of a positive version.\<close>

definition versions_ok :: "(int \<times> string) list \<Rightarrow> bool" where
  "versions_ok ms \<longleftrightarrow> sorted_wrt (<) (map fst ms) \<and> (\<forall>m\<in>set ms. fst m > 0)"

definition migrated_ok :: "'d migrated \<Rightarrow> bool" where
  "migrated_ok db \<longleftrightarrow>
     (case mg_versions db of None \<Rightarrow> True | Some [] \<Rightarrow> True | Some [v] \<Rightarrow> v > 0 | _ \<Rightarrow> False)"

definition last_version :: "(int \<times> string) list \<Rightarrow> int" where
  "last_version ms = (if ms = [] then 0 else fst (last ms))"

text \<open>What an uninterrupted run does to a database without tables: every statement of every script, in
  order, once.\<close>

definition whole_script :: "(int \<times> string) list \<Rightarrow> string list" where
  "whole_script ms = concat (map (\<lambda>m. split_statements (trim (snd m))) ms)"

subsection \<open>The next start goes on\<close>

lemma set_version_ok:
  "migrated_ok db \<Longrightarrow> mg_versions db = Some vs \<Longrightarrow> current_version db < v \<Longrightarrow>
   set_version eng (current_version db) v vs = Inr [v]"
  by (auto simp: migrated_ok_def current_version_def set_version_def split: list.splits)

lemma apply_ok:
  assumes "migrated_ok db" "mg_versions db \<noteq> None" "current_version db < fst m"
    "apply_migration split_statements eng (current_version db) m db = (Inr (), db')"
  shows "migrated_ok db'" "mg_versions db' = Some [fst m]" "current_version db' = fst m"
    "exec_all eng (split_statements (trim (snd m))) (mg_tables db) = Inr (mg_tables db')"
  using assms
  by (auto simp: apply_migration_def migrated_ok_def current_version_def set_version_def unwrap_or_def
      split: sum.splits list.splits option.splits if_splits)

lemma migrate_from_skip:
  "\<forall>m\<in>set pre. fst m \<le> current \<Longrightarrow>
   migrate_from splitting eng current (pre @ ms) db = migrate_from splitting eng current ms db"
  by (induction pre) auto

lemma commits_resume:
  assumes "s \<in> set (commits eng current ms db)" "migrated_ok db" "mg_versions db \<noteq> None"
    "current_version db = current" "\<forall>m\<in>set pre. fst m \<le> current" "sorted_wrt (<) (map fst (pre @ ms))"
  shows "migrated_ok s \<and> mg_versions s \<noteq> None
    \<and> migrate_from split_statements eng (current_version s) (pre @ ms) s
        = migrate_from split_statements eng current ms db"
  using assms
proof (induction ms arbitrary: current db pre)
  case Nil
  then show ?case using migrate_from_skip [of pre "current_version s" split_statements eng "[]" s] by simp
next
  case (Cons m ms)
  have at_db: ?case if "s = db"
    using that Cons.prems migrate_from_skip [of pre current split_statements eng "m # ms" db] by simp
  have later: "\<forall>p\<in>set pre. fst p \<le> fst m" using Cons.prems(6) by (auto simp: sorted_wrt_append)
  show ?case
  proof (cases "fst m \<le> current")
    case True
    have "migrated_ok s \<and> mg_versions s \<noteq> None
        \<and> migrate_from split_statements eng (current_version s) ((pre @ [m]) @ ms) s
            = migrate_from split_statements eng current ms db"
      by (rule Cons.IH) (use Cons.prems True in auto)
    with True show ?thesis by simp
  next
    case False
    show ?thesis
    proof (cases "apply_migration split_statements eng current m db")
      case (Pair r db')
      show ?thesis
      proof (cases r)
        case (Inl e)
        with Pair False Cons.prems(1) show ?thesis by (intro at_db) simp
      next
        case (Inr u)
        note ok = apply_ok [OF Cons.prems(2,3), of m eng db']
        from False Pair Inr Cons.prems(4) have db': "migrated_ok db'" "mg_versions db' \<noteq> None"
          "current_version db' = fst m" using ok by simp_all
        from Cons.prems(1) False Pair Inr consider "s = db" | "s \<in> set (commits eng (fst m) ms db')" by auto
        then show ?thesis
        proof cases
          case 2
          have "migrated_ok s \<and> mg_versions s \<noteq> None
              \<and> migrate_from split_statements eng (current_version s) ((pre @ [m]) @ ms) s
                  = migrate_from split_statements eng (fst m) ms db'"
            by (rule Cons.IH [OF 2 db']) (use later Cons.prems(6) in auto)
          with False Pair Inr show ?thesis by simp
        qed (rule at_db)
      qed
    qed
  qed
qed

lemma commits_last:
  "snd (migrate_from split_statements eng current ms db) \<in> set (commits eng current ms db)"
proof (induction ms arbitrary: current db)
  case (Cons m ms)
  then show ?case
    by (cases "apply_migration split_statements eng current m db")
      (auto simp: apply_migration_def split: sum.splits)
qed simp

lemma ensure_ok: "migrated_ok db \<Longrightarrow> migrated_ok (ensure_table db)" "mg_versions (ensure_table db) \<noteq> None"
  by (auto simp: ensure_table_def migrated_ok_def)

lemma ensure_idle: "mg_versions db \<noteq> None \<Longrightarrow> ensure_table db = db"
  by (simp add: ensure_table_def)

lemma committed_resume:
  assumes "s \<in> committed eng ms db" "migrated_ok db" "versions_ok ms"
  shows "migrated_ok s \<and> run_migrations eng ms s = run_migrations eng ms db"
proof (cases "s = db")
  case False
  with assms(1) have "s \<in> set (commits eng (current_version (ensure_table db)) ms (ensure_table db))"
    by (simp add: committed_def)
  from commits_resume [OF this ensure_ok(1) [OF assms(2)] ensure_ok(2) refl, of "[]"] assms(3)
  show ?thesis by (simp add: run_migrations_def ensure_idle versions_ok_def Let_def)
qed (use assms in simp)

lemma crashed_resume:
  assumes "crashed eng ms db s" "migrated_ok db" "versions_ok ms"
  shows "migrated_ok s \<and> run_migrations eng ms s = run_migrations eng ms db"
  using assms
proof induction
  case (again db db' db'')
  then show ?case using committed_resume by metis
qed simp

text \<open>On a database without tables the whole script runs.\<close>

lemma exec_all_append:
  "exec_all eng (xs @ ys) d = (case exec_all eng xs d of Inl e \<Rightarrow> Inl e | Inr d \<Rightarrow> exec_all eng ys d)"
  by (induction xs arbitrary: d) (auto split: sum.splits)

lemma migrate_all:
  assumes "sorted_wrt (<) (map fst ms)" "\<forall>m\<in>set ms. current < fst m" "migrated_ok db"
    "mg_versions db \<noteq> None" "current_version db = current" "current \<ge> 0"
    "exec_all eng (whole_script ms) (mg_tables db) = Inr d"
  shows "migrate_from split_statements eng current ms db
    = (Inr (), \<lparr>mg_versions = (if ms = [] then mg_versions db else Some [last_version ms]), mg_tables = d\<rparr>)"
  using assms
proof (induction ms arbitrary: current db)
  case Nil
  then show ?case by (simp add: whole_script_def)
next
  case (Cons m ms)
  from Cons.prems(7) obtain t where t: "exec_all eng (split_statements (trim (snd m))) (mg_tables db) = Inr t"
    "exec_all eng (whole_script ms) t = Inr d"
    by (auto simp: whole_script_def exec_all_append split: sum.splits)
  have new: "current < fst m" using Cons.prems(2) by simp
  obtain db' where db': "apply_migration split_statements eng current m db = (Inr (), db')"
  proof -
    obtain vs where vs: "mg_versions db = Some vs" using Cons.prems(4) by blast
    have "set_version eng current (fst m) vs = Inr [fst m]"
      using set_version_ok [OF Cons.prems(3) vs, of "fst m" eng] new Cons.prems(5) by simp
    with t(1) vs that show thesis by (simp add: apply_migration_def)
  qed
  note ok = apply_ok [OF Cons.prems(3,4), of m eng db', unfolded Cons.prems(5), OF new db']
  have "migrate_from split_statements eng (fst m) ms db'
      = (Inr (), \<lparr>mg_versions = (if ms = [] then mg_versions db' else Some [last_version ms]), mg_tables = d\<rparr>)"
    by (rule Cons.IH) (use Cons.prems new ok t in auto)
  with db' new ok show ?case by (simp add: last_version_def)
qed

lemma migrated_again:
  assumes "migrated_ok db" "versions_ok ms"
  shows "run_migrations eng ms (snd (run_migrations eng ms db)) = run_migrations eng ms db"
proof -
  have "snd (run_migrations eng ms db) \<in> committed eng ms db"
    using commits_last by (auto simp: committed_def run_migrations_def Let_def)
  from committed_resume [OF this assms] show ?thesis by simp
qed

text \<open>C35. Migrations survive crashes: however many starts died on the way, the next run ends in the state,
  and with the answer, of a run that was never interrupted; on a database without tables that state has
  run every statement of every script once, in order, and carries the last version; and running once more
  changes nothing.\<close>

theorem migrations_crash_safe:
  assumes "versions_ok ms" "migrated_ok db" "crashed eng ms db db'"
  shows "run_migrations eng ms db' = run_migrations eng ms db
    \<and> (mg_versions db = None \<and> ms \<noteq> [] \<and> exec_all eng (whole_script ms) (mg_tables db) = Inr d \<longrightarrow>
        run_migrations eng ms db' = (Inr (), \<lparr>mg_versions = Some [last_version ms], mg_tables = d\<rparr>))
    \<and> run_migrations eng ms (snd (run_migrations eng ms db')) = run_migrations eng ms db'"
proof (intro conjI impI)
  from crashed_resume [OF assms(3,2,1)] have ok: "migrated_ok db'"
    and same: "run_migrations eng ms db' = run_migrations eng ms db" by simp_all
  show "run_migrations eng ms db' = run_migrations eng ms db" by (rule same)
  show "run_migrations eng ms (snd (run_migrations eng ms db')) = run_migrations eng ms db'"
    by (rule migrated_again [OF ok assms(1)])
  assume fresh: "mg_versions db = None \<and> ms \<noteq> [] \<and> exec_all eng (whole_script ms) (mg_tables db) = Inr d"
  have "migrate_from split_statements eng 0 ms (ensure_table db)
      = (Inr (), \<lparr>mg_versions = (if ms = [] then mg_versions (ensure_table db) else Some [last_version ms]),
           mg_tables = d\<rparr>)"
    by (rule migrate_all) (use assms(1) fresh in \<open>simp_all add: versions_ok_def ensure_table_def migrated_ok_def
        current_version_def\<close>)
  with fresh have "run_migrations eng ms db = (Inr (), \<lparr>mg_versions = Some [last_version ms], mg_tables = d\<rparr>)"
    by (simp add: run_migrations_def ensure_table_def current_version_def)
  with same show "run_migrations eng ms db' = (Inr (), \<lparr>mg_versions = Some [last_version ms], mg_tables = d\<rparr>)"
    by simp
qed

text \<open>A log of the statements as the tables, and two scripts; a comment may hold a semicolon.\<close>

definition logging_engine :: "string list sql_engine" where
  "logging_engine = \<lparr>sq_exec = \<lambda>s d. Inr (d @ [s]), sq_duplicate = SqlxError OtherSqlx ''''\<rparr>"

definition sample_scripts :: "(int \<times> string) list" where
  "sample_scripts = [(1, ''A;B;''), (2, ''-- x;y'' @ [LF] @ '' C'')]"

lemma sample_split:
  "split_statements (trim ''A;B;'') = [''A'', ''B'']"
  "split_statements (trim (''-- x;y'' @ [LF] @ '' C'')) = [''C'']"
  by code_simp+

lemma migrations_crash_safe_witness:
  "crashed logging_engine sample_scripts \<lparr>mg_versions = None, mg_tables = []\<rparr>
     \<lparr>mg_versions = Some [1], mg_tables = [''A'', ''B'']\<rparr>
   \<and> run_migrations logging_engine sample_scripts \<lparr>mg_versions = Some [1], mg_tables = [''A'', ''B'']\<rparr>
       = (Inr (), \<lparr>mg_versions = Some [2], mg_tables = [''A'', ''B'', ''C'']\<rparr>)"
proof -
  let ?db = "\<lparr>mg_versions = None, mg_tables = [] :: string list\<rparr>"
  let ?crash = "\<lparr>mg_versions = Some [1], mg_tables = [''A'', ''B'']\<rparr>"
  have "?crash \<in> committed logging_engine sample_scripts ?db"
    by (simp add: committed_def sample_scripts_def logging_engine_def apply_migration_def sample_split
        ensure_table_def current_version_def set_version_def unwrap_or_def del: append.simps)
  then have c: "crashed logging_engine sample_scripts ?db ?crash"
    by (rule crashed.again [OF crashed.fresh])
  have ok: "versions_ok sample_scripts" "migrated_ok ?db"
    by (simp_all add: versions_ok_def sample_scripts_def migrated_ok_def)
  have script: "exec_all logging_engine (whole_script sample_scripts) [] = Inr [''A'', ''B'', ''C'']"
    by (simp add: whole_script_def sample_scripts_def sample_split(1) sample_split(2) [unfolded append.simps] logging_engine_def)
  have last: "last_version sample_scripts = 2" "sample_scripts \<noteq> []"
    by (simp_all add: sample_scripts_def last_version_def)
  from migrations_crash_safe [OF ok c, THEN conjunct2, THEN conjunct1, THEN mp] script last c
  show ?thesis by simp
qed

subsection \<open>Two first starts at the same time\<close>

text \<open>Nothing keeps two processes from migrating together: one that read the version before the other
  committed runs the script again, and its first \<open>CREATE TABLE\<close> fails, so its launch fails.\<close>

lemma second_migrator_fails:
  assumes "run_migrations eng ms db = (Inr (), db1)" "ms = m # rest" "fst m > current"
    and "split_statements (trim (snd m)) = s # ss" "sq_exec eng s (mg_tables db1) = Inl e"
  shows "migrate_from split_statements eng current ms db1
    = (Inl (sql_err (''failed to execute migration '' @ show_int (fst m)) e), db1)"
  using assms by (simp add: apply_migration_def)

text \<open>Both back ends split and migrate alike.\<close>

lemma pg_run_migrations_eq: "pg_run_migrations = run_migrations"
proof -
  have "pg_split_statements = split_statements"
    by (simp add: fun_eq_iff pg_split_statements_def split_statements_def)
  then show ?thesis by (intro ext) (simp add: pg_run_migrations_def run_migrations_def)
qed

end
