(* ===== verification/Retry_Methods.thy ===== *)
theory Retry_Methods
  imports Retry Postgres_Shared Migrations
begin

text \<open>
  The methods of \<open>RetryingDb\<close> (\<open>db/retry.rs\<close>), each the Postgres operation under \<open>retry\<close>.  An attempt
  reads the clock and draws its identifiers anew, so they are indexed by the attempt.  The laws say
  which methods a lost reply leaves alone, and what it does to the others.
\<close>

text \<open>The connection: the faults of the attempts, the time limit, and what the attempts read; \<open>cn_fuel\<close>
  bounds the attempts.\<close>

record conn =
  cn_fuel :: nat
  cn_within :: "nat \<Rightarrow> bool"
  cn_faults :: "nat \<Rightarrow> fault"
  cn_uuid :: "nat \<Rightarrow> string"
  cn_now :: "nat \<Rightarrow> nat \<Rightarrow> int"
  cn_scans :: "nat \<Rightarrow> scans"

definition under_retry :: "conn \<Rightarrow> (nat \<Rightarrow> 's \<Rightarrow> 'a res \<times> 's) \<Rightarrow> 's \<Rightarrow> ('a res \<times> 's) option" where
  "under_retry c call s = retry (cn_fuel c) (cn_within c) (\<lambda>n. attempt (cn_faults c n) (call n)) 0 s"

abbreviation act :: "(sysdb \<Rightarrow> sysdb) \<Rightarrow> sysdb \<Rightarrow> unit res \<times> sysdb" where
  "act f \<equiv> ok_call (\<lambda>db. ((), f db))"

abbreviation look :: "(sysdb \<Rightarrow> 'a) \<Rightarrow> sysdb \<Rightarrow> 'a res \<times> sysdb" where
  "look f \<equiv> read_call (\<lambda>db. Inr (f db))"

subsection \<open>The methods\<close>

definition rdb_run_migrations :: "conn \<Rightarrow> 'd sql_engine \<Rightarrow> (int \<times> string) list \<Rightarrow> 'd migrated \<Rightarrow> (unit res \<times> 'd migrated) option" where
  "rdb_run_migrations c eng ms = under_retry c (\<lambda>n. pg_run_migrations eng ms)"

definition rdb_insert_workflow_status :: "conn \<Rightarrow> insert_input \<Rightarrow> sysdb \<Rightarrow> (insert_result res \<times> sysdb) option" where
  "rdb_insert_workflow_status c input = under_retry c (\<lambda>n. pg_insert_workflow_status input (cn_now c n 0))"

definition rdb_update_workflow_outcome ::
  "conn \<Rightarrow> string \<Rightarrow> workflow_status_type \<Rightarrow> string option \<Rightarrow> string \<Rightarrow> sysdb \<Rightarrow> (unit res \<times> sysdb) option" where
  "rdb_update_workflow_outcome c i status out err =
     under_retry c (\<lambda>n. act (pg_update_workflow_outcome i status out err (cn_now c n 0) (cn_now c n 1)))"

definition rdb_record_operation_result :: "conn \<Rightarrow> record_input \<Rightarrow> sysdb \<Rightarrow> (unit res \<times> sysdb) option" where
  "rdb_record_operation_result c input = under_retry c (\<lambda>n. pg_record_operation_result input)"

definition rdb_check_child_workflow :: "conn \<Rightarrow> string \<Rightarrow> int \<Rightarrow> sysdb \<Rightarrow> (string option res \<times> sysdb) option" where
  "rdb_check_child_workflow c i k = under_retry c (\<lambda>n. look (pg_check_child_workflow i k))"

definition rdb_check_operation_execution ::
  "conn \<Rightarrow> string \<Rightarrow> int \<Rightarrow> string \<Rightarrow> sysdb \<Rightarrow> (recorded_result option res \<times> sysdb) option" where
  "rdb_check_operation_execution c i k name = under_retry c (\<lambda>n. read_call (pg_check_operation_execution i k name))"

definition rdb_list_workflows :: "conn \<Rightarrow> list_input \<Rightarrow> sysdb \<Rightarrow> (workflow_status_view list res \<times> sysdb) option" where
  "rdb_list_workflows c input = under_retry c (\<lambda>n. read_call (pg_list_workflows input))"

definition rdb_get_workflow_status :: "conn \<Rightarrow> string \<Rightarrow> sysdb \<Rightarrow> (workflow_status_view option res \<times> sysdb) option" where
  "rdb_get_workflow_status c i = under_retry c (\<lambda>n. read_call (pg_get_workflow_status i))"

definition rdb_clear_queue_assignment :: "conn \<Rightarrow> string \<Rightarrow> sysdb \<Rightarrow> (bool res \<times> sysdb) option" where
  "rdb_clear_queue_assignment c i = under_retry c (\<lambda>n. ok_call (pg_clear_queue_assignment i))"

text \<open>The dequeue without another executor in between, which is the atomic one.\<close>

definition rdb_dequeue_workflows :: "conn \<Rightarrow> dequeue_input \<Rightarrow> sysdb \<Rightarrow> (dequeued_workflow list res \<times> sysdb) option" where
  "rdb_dequeue_workflows c input = under_retry c (\<lambda>n. ok_call (dequeue_workflows input (cn_now c n)))"

definition rdb_transition_delayed_workflows :: "conn \<Rightarrow> sysdb \<Rightarrow> (unit res \<times> sysdb) option" where
  "rdb_transition_delayed_workflows c = under_retry c (\<lambda>n. act (pg_transition_delayed_workflows (cn_now c n 0)))"

definition rdb_get_deduplicated_workflow :: "conn \<Rightarrow> string \<Rightarrow> string \<Rightarrow> sysdb \<Rightarrow> (string option res \<times> sysdb) option" where
  "rdb_get_deduplicated_workflow c queue dedup = under_retry c (\<lambda>n. look (pg_get_deduplicated_workflow queue dedup))"

definition rdb_cancel_workflow :: "conn \<Rightarrow> string \<Rightarrow> sysdb \<Rightarrow> (bool res \<times> sysdb) option" where
  "rdb_cancel_workflow c i = under_retry c (\<lambda>n. ok_call (pg_cancel_workflow i (cn_now c n 0)))"

definition rdb_resume_workflow :: "conn \<Rightarrow> string \<Rightarrow> sysdb \<Rightarrow> (unit res \<times> sysdb) option" where
  "rdb_resume_workflow c i = under_retry c (\<lambda>n. act (pg_resume_workflow i (cn_now c n 0)))"

definition rdb_delete_workflow :: "conn \<Rightarrow> string \<Rightarrow> sysdb \<Rightarrow> (unit res \<times> sysdb) option" where
  "rdb_delete_workflow c i = under_retry c (\<lambda>n. act (pg_delete_workflow_row i))"

definition rdb_get_workflow_children :: "conn \<Rightarrow> string \<Rightarrow> sysdb \<Rightarrow> (string list res \<times> sysdb) option" where
  "rdb_get_workflow_children c i = under_retry c (\<lambda>n. look (pg_get_workflow_children (cn_scans c n) i))"

definition rdb_get_workflow_steps :: "conn \<Rightarrow> string \<Rightarrow> sysdb \<Rightarrow> (step_info list res \<times> sysdb) option" where
  "rdb_get_workflow_steps c i = under_retry c (\<lambda>n. look (pg_get_workflow_steps (cn_scans c n) i))"

definition rdb_fork_workflow :: "conn \<Rightarrow> fork_input \<Rightarrow> sysdb \<Rightarrow> (string res \<times> sysdb) option" where
  "rdb_fork_workflow c input = under_retry c (\<lambda>n. pg_fork_workflow input (cn_uuid c n) (cn_now c n 0))"

definition rdb_get_workflow_status_counts :: "conn \<Rightarrow> sysdb \<Rightarrow> ((string \<times> int) list res \<times> sysdb) option" where
  "rdb_get_workflow_status_counts c = under_retry c (\<lambda>n. look (pg_get_workflow_status_counts (cn_scans c n)))"

definition rdb_garbage_collect :: "conn \<Rightarrow> int option \<Rightarrow> int option \<Rightarrow> sysdb \<Rightarrow> (int res \<times> sysdb) option" where
  "rdb_garbage_collect c cutoff threshold = under_retry c (\<lambda>n. pg_garbage_collect cutoff threshold)"

definition rdb_set_workflow_status_pending :: "conn \<Rightarrow> string \<Rightarrow> sysdb \<Rightarrow> (unit res \<times> sysdb) option" where
  "rdb_set_workflow_status_pending c i = under_retry c (\<lambda>n. act (pg_set_workflow_status_pending i (cn_now c n 0)))"

definition rdb_send_notification ::
  "conn \<Rightarrow> string \<Rightarrow> string \<Rightarrow> string option \<Rightarrow> string \<Rightarrow> sysdb \<Rightarrow> (unit res \<times> sysdb) option" where
  "rdb_send_notification c dest topic message ser =
     under_retry c (\<lambda>n. pg_send_notification dest topic message ser (cn_uuid c n) (cn_now c n 0))"

definition rdb_has_unconsumed_notification :: "conn \<Rightarrow> string \<Rightarrow> string \<Rightarrow> sysdb \<Rightarrow> (bool res \<times> sysdb) option" where
  "rdb_has_unconsumed_notification c dest topic = under_retry c (\<lambda>n. look (pg_has_unconsumed_notification dest topic))"

text \<open>The transaction that consumes a message: a SELECT and an UPDATE.\<close>

definition pg_consume_oldest_notification ::
  "string \<Rightarrow> string \<Rightarrow> sysdb \<Rightarrow> (string option \<times> string) option \<times> sysdb" where
  "pg_consume_oldest_notification dest topic db =
     (case pg_consume_select dest topic db of None \<Rightarrow> (None, db) | Some u \<Rightarrow> pg_consume_update u db)"

definition rdb_consume_oldest_notification ::
  "conn \<Rightarrow> string \<Rightarrow> string \<Rightarrow> sysdb \<Rightarrow> ((string option \<times> string) option res \<times> sysdb) option" where
  "rdb_consume_oldest_notification c dest topic =
     under_retry c (\<lambda>n. ok_call (pg_consume_oldest_notification dest topic))"

definition rdb_set_event ::
  "conn \<Rightarrow> string \<Rightarrow> int \<Rightarrow> string \<Rightarrow> string option \<Rightarrow> string \<Rightarrow> sysdb \<Rightarrow> (unit res \<times> sysdb) option" where
  "rdb_set_event c i k key v ser = under_retry c (\<lambda>n. pg_set_event i k key v ser)"

definition rdb_get_event :: "conn \<Rightarrow> string \<Rightarrow> string \<Rightarrow> sysdb \<Rightarrow> ((string option \<times> string) option res \<times> sysdb) option" where
  "rdb_get_event c target key = under_retry c (\<lambda>n. look (pg_get_event target key))"

definition rdb_write_stream ::
  "conn \<Rightarrow> string \<Rightarrow> string \<Rightarrow> string \<Rightarrow> int \<Rightarrow> string \<Rightarrow> sysdb \<Rightarrow> (unit res \<times> sysdb) option" where
  "rdb_write_stream c i key v k ser = under_retry c (\<lambda>n. pg_write_stream i key v k ser)"

definition rdb_read_stream ::
  "conn \<Rightarrow> string \<Rightarrow> string \<Rightarrow> int \<Rightarrow> sysdb \<Rightarrow> (((string \<times> int \<times> string) list \<times> bool) res \<times> sysdb) option" where
  "rdb_read_stream c i key from_offset = under_retry c (\<lambda>n. look (pg_read_stream i key from_offset))"

definition rdb_create_application_version :: "conn \<Rightarrow> string \<Rightarrow> sysdb \<Rightarrow> (unit res \<times> sysdb) option" where
  "rdb_create_application_version c v =
     under_retry c (\<lambda>n. act (pg_create_application_version v (cn_uuid c n) (cn_now c n 0)))"

definition rdb_get_latest_application_version :: "conn \<Rightarrow> sysdb \<Rightarrow> (string option res \<times> sysdb) option" where
  "rdb_get_latest_application_version c = under_retry c (\<lambda>n. look (pg_get_latest_application_version (cn_scans c n)))"

definition rdb_get_workflow_events ::
  "conn \<Rightarrow> string \<Rightarrow> sysdb \<Rightarrow> ((string \<times> string option \<times> string) list res \<times> sysdb) option" where
  "rdb_get_workflow_events c i = under_retry c (\<lambda>n. look (pg_get_workflow_events (cn_scans c n) i))"

definition rdb_get_workflow_notifications ::
  "conn \<Rightarrow> string \<Rightarrow> sysdb \<Rightarrow> ((string \<times> string option \<times> int \<times> string \<times> bool) list res \<times> sysdb) option" where
  "rdb_get_workflow_notifications c i = under_retry c (\<lambda>n. look (pg_get_workflow_notifications (cn_scans c n) i))"

definition rdb_get_workflow_streams ::
  "conn \<Rightarrow> string \<Rightarrow> sysdb \<Rightarrow> ((string \<times> int \<times> string \<times> string) list res \<times> sysdb) option" where
  "rdb_get_workflow_streams c i = under_retry c (\<lambda>n. look (pg_get_workflow_streams (cn_scans c n) i))"

definition rdb_get_step_aggregates :: "conn \<Rightarrow> sysdb \<Rightarrow> ((string \<times> int) list res \<times> sysdb) option" where
  "rdb_get_step_aggregates c = under_retry c (\<lambda>n. look (pg_get_step_aggregates (cn_scans c n)))"

definition rdb_list_application_versions ::
  "conn \<Rightarrow> sysdb \<Rightarrow> ((string \<times> string \<times> int \<times> int) list res \<times> sysdb) option" where
  "rdb_list_application_versions c = under_retry c (\<lambda>n. look (pg_list_application_versions (cn_scans c n)))"

definition rdb_set_latest_application_version :: "conn \<Rightarrow> string \<Rightarrow> sysdb \<Rightarrow> (unit res \<times> sysdb) option" where
  "rdb_set_latest_application_version c v =
     under_retry c (\<lambda>n. act (pg_set_latest_application_version v (cn_now c n 0)))"

definition rdb_create_schedule :: "conn \<Rightarrow> schedule_row \<Rightarrow> sysdb \<Rightarrow> (unit res \<times> sysdb) option" where
  "rdb_create_schedule c row = under_retry c (\<lambda>n. pg_create_schedule row)"

definition rdb_list_schedules :: "conn \<Rightarrow> sysdb \<Rightarrow> (schedule_row list res \<times> sysdb) option" where
  "rdb_list_schedules c = under_retry c (\<lambda>n. look (pg_list_schedules (cn_scans c n)))"

definition rdb_get_schedule :: "conn \<Rightarrow> string \<Rightarrow> sysdb \<Rightarrow> (schedule_row option res \<times> sysdb) option" where
  "rdb_get_schedule c name = under_retry c (\<lambda>n. look (pg_get_schedule name))"

definition rdb_set_schedule_status :: "conn \<Rightarrow> string \<Rightarrow> string \<Rightarrow> sysdb \<Rightarrow> (unit res \<times> sysdb) option" where
  "rdb_set_schedule_status c name status = under_retry c (\<lambda>n. act (pg_set_schedule_status name status))"

definition rdb_update_schedule_last_fired :: "conn \<Rightarrow> string \<Rightarrow> string \<Rightarrow> sysdb \<Rightarrow> (unit res \<times> sysdb) option" where
  "rdb_update_schedule_last_fired c name t = under_retry c (\<lambda>n. act (pg_update_schedule_last_fired name t))"

definition rdb_delete_schedule :: "conn \<Rightarrow> string \<Rightarrow> sysdb \<Rightarrow> (unit res \<times> sysdb) option" where
  "rdb_delete_schedule c name = under_retry c (\<lambda>n. act (pg_delete_schedule_row name))"

subsection \<open>Methods that absorb a repetition\<close>

text \<open>A later attempt overwrites what an earlier one did: the answer and the effect are those of the last
  attempt alone.\<close>

locale absorbing =
  fixes call :: "nat \<Rightarrow> 's \<Rightarrow> 'a res \<times> 's"
  assumes absorb: "call m (snd (call n s)) = call m s"
begin

lemma retry_absorbs:
  assumes "\<And>j. j < k \<Longrightarrow> lossy (faults (n + j)) \<and> within (n + j)" "faults (n + k) = Fine" "k < fuel"
    and "\<And>e. fst (call (n + k) s) = Inl e \<Longrightarrow> \<not> is_transient e"
  shows "retry fuel within (\<lambda>n. attempt (faults n) (call n)) n s = Some (call (n + k) s)"
  using assms
proof (induction k arbitrary: n s fuel)
  case 0
  then obtain m where "fuel = Suc m" by (cases fuel) auto
  with 0 show ?case by (cases "call n s"; cases "fst (call n s)") auto
next
  case (Suc k)
  then obtain m where m: "fuel = Suc m" "k < m" by (cases fuel) auto
  have first: "lossy (faults n)" "within n" using Suc.prems(1) [of 0] by simp_all
  have next_ok: "retry m within (\<lambda>n. attempt (faults n) (call n)) (Suc n) t = Some (call (Suc n + k) t)"
    if "call (Suc n + k) t = call (Suc n + k) s" for t
    by (rule Suc.IH) (use Suc.prems(1) [of "Suc _"] Suc.prems(2,4) m(2) that in auto)
  show ?case
    using first next_ok [OF refl] next_ok [OF absorb, of n] absorb [of "Suc n + k" n s]
    by (cases "faults n") (simp_all add: m(1) lossy_def)
qed

lemma under_retry_absorbs:
  assumes "\<forall>j<k. lossy (cn_faults c j) \<and> cn_within c j" "cn_faults c k = Fine" "k < cn_fuel c"
    and "\<And>e. fst (call k s) = Inl e \<Longrightarrow> \<not> is_transient e"
  shows "under_retry c call s = Some (call k s)"
  unfolding under_retry_def using retry_absorbs [of k "cn_faults c" 0 "cn_within c" "cn_fuel c" s] assms by simp

end

sublocale repeatable \<subseteq> absorbing "\<lambda>n. call"
  by unfold_locales (rule again)

lemma update_where_overwrites:
  assumes "\<And>r. P r \<Longrightarrow> P (f r)" "\<And>r. g (f r) = g r"
  shows "update_where P g (update_where P f rows) = update_where P g rows"
  using assms by (induction rows) (auto simp: update_where_def)

interpretation outcome_call: absorbing "\<lambda>n. act (pg_update_workflow_outcome i status out err (now n) (now' n))"
  for i status out err now now'
proof
  let ?P = "\<lambda>r :: ws_row. ws_uuid r = i \<and> \<not> (ws_status r = Cancelled \<and> status \<in> {Success, Error})"
  let ?f = "\<lambda>n (r :: ws_row). r\<lparr>ws_status := status, ws_output := out, ws_error := opt_str err, ws_updated_at := now n,
      ws_completed_at := Some (now' n), ws_dedup_id := None\<rparr>"
  have "update_where ?P (?f m) (update_where ?P (?f n) rows) = update_where ?P (?f m) rows" for m n rows
    by (rule update_where_overwrites) auto
  then show "act (pg_update_workflow_outcome i status out err (now m) (now' m))
      (snd (act (pg_update_workflow_outcome i status out err (now n) (now' n)) s))
    = act (pg_update_workflow_outcome i status out err (now m) (now' m)) s" for m n s
    by (simp add: ok_call_def pg_update_workflow_outcome_def)
qed

interpretation resume_calls: absorbing "\<lambda>n. act (pg_resume_workflow i (now n))" for i now
  by unfold_locales (auto simp: ok_call_def pg_resume_workflow_def resume_row_def update_where_def)

interpretation pending_call: absorbing "\<lambda>n. act (pg_set_workflow_status_pending i (now n))" for i now
  by unfold_locales (auto simp: ok_call_def pg_set_workflow_status_pending_def update_where_def)

interpretation latest_call: absorbing "\<lambda>n. act (pg_set_latest_application_version v (now n))" for v now
  by unfold_locales (auto simp: ok_call_def pg_set_latest_application_version_def update_where_def)

interpretation schedule_status_call: absorbing "\<lambda>n. act (pg_set_schedule_status name status)" for name status
  by unfold_locales (auto simp: ok_call_def pg_set_schedule_status_def update_where_def)

interpretation last_fired_call: absorbing "\<lambda>n. act (pg_update_schedule_last_fired name t)" for name t
  by unfold_locales (auto simp: ok_call_def pg_update_schedule_last_fired_def update_where_def)

interpretation read_calls: absorbing "\<lambda>n. look (f n)" for f :: "nat \<Rightarrow> sysdb \<Rightarrow> 'a"
  by unfold_locales (auto simp: read_call_def)

interpretation set_event_call: absorbing "\<lambda>n. pg_set_event i k key v ser" for i k key v ser
proof
  have upd: "upsert ev_pk (\<lambda>r. r\<lparr>ev_value := x, ev_serialization := ser\<rparr>) w
      (upsert ev_pk (\<lambda>r. r\<lparr>ev_value := x, ev_serialization := ser\<rparr>) w rows)
    = upsert ev_pk (\<lambda>r. r\<lparr>ev_value := x, ev_serialization := ser\<rparr>) w rows"
    if "w\<lparr>ev_value := x, ev_serialization := ser\<rparr> = w" for x w rows
    by (rule upsert_twice) (use that in auto)
  have hist: "upsert eh_pk (\<lambda>r. r\<lparr>eh_value := x, eh_serialization := ser\<rparr>) w
      (upsert eh_pk (\<lambda>r. r\<lparr>eh_value := x, eh_serialization := ser\<rparr>) w rows)
    = upsert eh_pk (\<lambda>r. r\<lparr>eh_value := x, eh_serialization := ser\<rparr>) w rows"
    if "w\<lparr>eh_value := x, eh_serialization := ser\<rparr> = w" for x w rows
    by (rule upsert_twice) (use that in auto)
  show "pg_set_event i k key v ser (snd (pg_set_event i k key v ser s)) = pg_set_event i k key v ser s" for s
    by (auto simp: pg_set_event_def upd hist split: option.split)
qed

subsection \<open>Methods that a lost reply repeats\<close>

text \<open>The reply of the first attempt is lost, the second gets through.\<close>

definition loses_first_reply :: "conn \<Rightarrow> bool" where
  "loses_first_reply c \<longleftrightarrow>
     (case cn_faults c 0 of Lost_reply e \<Rightarrow> is_transient e | _ \<Rightarrow> False)
     \<and> cn_within c 0 \<and> cn_faults c 1 = Fine \<and> 1 < cn_fuel c"

lemma lost_reply_repeats:
  assumes "loses_first_reply c" "call 1 (snd (call 0 s)) = (r, s')" "\<And>e. r = Inl e \<Longrightarrow> \<not> is_transient e"
  shows "under_retry c call s = Some (r, s')"
proof -
  obtain m where fuel: "cn_fuel c = Suc (Suc m)"
    using assms(1) by (metis One_nat_def add_Suc less_imp_Suc_add loses_first_reply_def)
  obtain e where "cn_faults c 0 = Lost_reply e" "is_transient e"
    using assms(1) by (auto simp: loses_first_reply_def split: fault.splits)
  with assms fuel show ?thesis by (cases r) (auto simp: under_retry_def loses_first_reply_def)
qed

lemma consume_only_message:
  assumes "filter (waiting dest topic) (notifications db) = [r]" "distinct (map nt_uuid (notifications db))"
    "pg_consume_oldest_notification dest topic db = (got, db')"
  shows "filter (waiting dest topic) (notifications db') = []" "got = Some (Some (nt_message r), nt_serialization r)"
proof -
  have r: "r \<in> set (notifications db)" using assms(1) by (metis filter_eq_ConsD in_set_conv_decomp)
  then have "fetch nt_uuid (nt_uuid r) (notifications db) = Some r"
    using assms(2) by (simp add: fetch_Some_iff_distinct)
  then have eq: "got = Some (Some (nt_message r), nt_serialization r)" "notifications db' =
      update_where (\<lambda>x. nt_uuid x = nt_uuid r) (\<lambda>x. x\<lparr>nt_consumed := True\<rparr>) (notifications db)"
    using assms(1,3) by (auto simp: pg_consume_oldest_notification_def pg_consume_select_def pg_consume_update_def)
  show "filter (waiting dest topic) (notifications db') = []"
    unfolding eq using consume_waiting [OF assms(2) r, of dest topic, unfolded assms(1)] by simp
  show "got = Some (Some (nt_message r), nt_serialization r)" by (rule eq(1))
qed

lemma lost_message:
  assumes "loses_first_reply c" "schema_ok db" "filter (waiting dest topic) (notifications db) = [r]"
  shows "\<exists>db'. rdb_consume_oldest_notification c dest topic db = Some (Inr None, db')
    \<and> filter (waiting dest topic) (notifications db') = []"
proof -
  obtain got db' where first: "pg_consume_oldest_notification dest topic db = (got, db')" by fastforce
  have gone: "filter (waiting dest topic) (notifications db') = []"
    by (rule consume_only_message [OF assms(3) _ first]) (use assms(2) in \<open>simp add: schema_defs\<close>)
  then have "pg_consume_oldest_notification dest topic db' = (None, db')"
    by (simp add: pg_consume_oldest_notification_def pg_consume_select_def)
  with first have "rdb_consume_oldest_notification c dest topic db = Some (Inr None, db')"
    unfolding rdb_consume_oldest_notification_def by (intro lost_reply_repeats [OF assms(1)]) (simp_all add: ok_call_def)
  with gone show ?thesis by blast
qed

lemma doubled_message:
  assumes "loses_first_reply c" "wf_exists db dest" "cn_uuid c 0 \<noteq> cn_uuid c 1"
    "\<forall>n. fetch nt_uuid (cn_uuid c n) (notifications db) = None"
  shows "\<exists>m1 m2. rdb_send_notification c dest topic (Some msg) ser db
      = Some (Inr (), db\<lparr>notifications := notifications db @ [m1, m2]\<rparr>)
    \<and> nt_message m1 = msg \<and> nt_message m2 = msg \<and> nt_topic m1 = topic \<and> nt_topic m2 = topic"
proof -
  let ?m = "\<lambda>n. \<lparr>nt_uuid = cn_uuid c n, nt_destination = dest, nt_topic = topic, nt_message = msg,
      nt_created_at = cn_now c n 0, nt_serialization = ser, nt_consumed = False\<rparr>"
  have "rdb_send_notification c dest topic (Some msg) ser db
      = Some (Inr (), db\<lparr>notifications := notifications db @ [?m 0, ?m 1]\<rparr>)"
    unfolding rdb_send_notification_def
    by (rule lost_reply_repeats [OF assms(1)]) (use assms(2-4) in \<open>simp_all add: pg_send_notification_def fetch_append fetch_Cons\<close>)
  then show ?thesis by (intro exI [of _ "?m 0"] exI [of _ "?m 1"]) simp
qed

lemma pg_write_stream_rows:
  assumes "pg_write_stream i key v k ser db = (Inr (), db')"
  shows "map st_value (stream_rows i key db') = map st_value (stream_rows i key db) @ [v]"
  using assms by (auto simp: pg_write_stream_def stream_rows_def Let_def split: if_splits)

lemma doubled_entry:
  assumes "loses_first_reply c" "pg_write_stream i key v k ser db = (Inr (), db1)"
    "pg_write_stream i key v k ser db1 = (Inr (), db2)"
  shows "rdb_write_stream c i key v k ser db = Some (Inr (), db2)
    \<and> map st_value (stream_rows i key db2) = map st_value (stream_rows i key db) @ [v, v]"
proof
  show "rdb_write_stream c i key v k ser db = Some (Inr (), db2)"
    unfolding rdb_write_stream_def by (rule lost_reply_repeats [OF assms(1)]) (use assms(2,3) in simp_all)
  show "map st_value (stream_rows i key db2) = map st_value (stream_rows i key db) @ [v, v]"
    using pg_write_stream_rows [OF assms(2)] pg_write_stream_rows [OF assms(3)] by simp
qed

lemma stranded_claims:
  assumes "loses_first_reply c" "schema_ok db" "dequeue_workflows input (cn_now c 0) db = (out, db1)"
  shows "\<exists>out' db'. rdb_dequeue_workflows c input db = Some (Inr out', db')
    \<and> set (map dw_id out') \<inter> set (map dw_id out) = {}
    \<and> (\<forall>i\<in>set (map dw_id out). \<exists>r. wf_row db' i = Some r \<and> ws_status r = Pending)"
proof -
  obtain out' db' where second: "dequeue_workflows input (cn_now c 1) db1 = (out', db')" by fastforce
  have ok: "schema_ok db1" using dequeue_evolution [OF assms(2), of db1 input "cn_now c 0"] assms(3) by simp
  have apart: "set (map dw_id out) \<inter> set (map dw_id out') = {}"
    by (rule dequeue_disjoint [OF assms(2,3) second])
  have claimed: "\<exists>r. wf_row db' i = Some r \<and> ws_status r = Pending" if "i \<in> set (map dw_id out)" for i
  proof -
    have "\<exists>r. wf_row db1 i = Some r \<and> ws_status r = Pending"
      using dequeue_claimed [OF assms(3,2)] that claim_simps(2) unfolding claimed_rows_def by blast
    moreover have "wf_row db' i = wf_row db1 i"
      using dequeue_claimed [OF second ok] that apart unfolding claimed_rows_def by blast
    ultimately show ?thesis by simp
  qed
  have "rdb_dequeue_workflows c input db = Some (Inr out', db')"
    unfolding rdb_dequeue_workflows_def by (rule lost_reply_repeats [OF assms(1)]) (use assms(3) second in \<open>simp_all add: ok_call_def\<close>)
  with apart claimed show ?thesis by blast
qed

text \<open>C36. What the retry decorator does to operations that are not repeatable.  When the reply to the first
  attempt is lost, a receiver whose only message was taken is told that there is none, and the message is
  gone; a message is sent twice; a stream gets its entry twice; and the workflows that a dequeue claimed
  are PENDING but not among those it returns, so nobody runs them.\<close>

theorem lost_reply_repeats_effects:
  assumes "loses_first_reply c"
  shows "(schema_ok db \<and> filter (waiting dest topic) (notifications db) = [r] \<longrightarrow>
        (\<exists>db'. rdb_consume_oldest_notification c dest topic db = Some (Inr None, db')
           \<and> filter (waiting dest topic) (notifications db') = []))
    \<and> (wf_exists db dest \<and> cn_uuid c 0 \<noteq> cn_uuid c 1
        \<and> (\<forall>n. fetch nt_uuid (cn_uuid c n) (notifications db) = None) \<longrightarrow>
        (\<exists>m1 m2. rdb_send_notification c dest topic (Some msg) ser db
            = Some (Inr (), db\<lparr>notifications := notifications db @ [m1, m2]\<rparr>)
          \<and> nt_message m1 = msg \<and> nt_message m2 = msg \<and> nt_topic m1 = topic \<and> nt_topic m2 = topic))
    \<and> (pg_write_stream i key v k ser db = (Inr (), db1) \<and> pg_write_stream i key v k ser db1 = (Inr (), db2) \<longrightarrow>
        rdb_write_stream c i key v k ser db = Some (Inr (), db2)
        \<and> map st_value (stream_rows i key db2) = map st_value (stream_rows i key db) @ [v, v])
    \<and> (schema_ok db \<and> dequeue_workflows input (cn_now c 0) db = (out, db3) \<longrightarrow>
        (\<exists>out' db'. rdb_dequeue_workflows c input db = Some (Inr out', db')
          \<and> set (map dw_id out') \<inter> set (map dw_id out) = {}
          \<and> (\<forall>j\<in>set (map dw_id out). \<exists>r. wf_row db' j = Some r \<and> ws_status r = Pending)))"
  by (rule conjI, rule impI, elim conjE, rule lost_message [OF assms], assumption+,
      rule conjI, rule impI, elim conjE, rule doubled_message [OF assms], assumption+,
      rule conjI, rule impI, elim conjE, rule doubled_entry [OF assms], assumption+,
      rule impI, elim conjE, rule stranded_claims [OF assms])

definition flaky :: conn where
  "flaky = \<lparr>cn_fuel = 2, cn_within = \<lambda>_. True, cn_faults = drop_first, cn_uuid = (\<lambda>n. ''m'' @ show_nat n),
     cn_now = (\<lambda>_ _. 7), cn_scans = \<lambda>_. \<lparr>sc_ws = id, sc_op = id, sc_nt = id, sc_ev = id, sc_st = id,
       sc_av = id, sc_sr = id\<rparr>\<rparr>"

lemma flaky_loses: "loses_first_reply flaky"
  by (simp add: loses_first_reply_def flaky_def drop_first_def io_transient)

text \<open>The mailbox with the one message of \<open>Workflow_Comms\<close>: it is lost; another one arrives twice, and a
  stream entry is written twice.\<close>

lemma lost_reply_repeats_effects_witness:
  "(\<exists>db'. rdb_consume_oldest_notification flaky ''w1'' DBOS_NULL_TOPIC mailbox_db = Some (Inr None, db')
      \<and> filter (waiting ''w1'' DBOS_NULL_TOPIC) (notifications db') = [])
   \<and> (\<exists>m1 m2. rdb_send_notification flaky ''w1'' ''t'' (Some ''hi'') ''s'' mailbox_db
        = Some (Inr (), mailbox_db\<lparr>notifications := notifications mailbox_db @ [m1, m2]\<rparr>)
      \<and> nt_message m1 = ''hi'' \<and> nt_message m2 = ''hi'')
   \<and> (\<exists>db2. rdb_write_stream flaky ''w1'' ''k'' ''v'' 0 ''s'' mailbox_db = Some (Inr (), db2)
      \<and> map st_value (stream_rows ''w1'' ''k'' db2) = [''v'', ''v''])"
proof -
  let ?db = mailbox_db
  have rows: "notifications ?db = [\<lparr>nt_uuid = ''m'', nt_destination = ''w1'', nt_topic = DBOS_NULL_TOPIC,
      nt_message = NIL_MARKER, nt_created_at = 1, nt_serialization = ''DBOS_JSON'', nt_consumed = False\<rparr>]"
    by (simp add: mailbox_db_def)
  have w1: "wf_exists ?db ''w1''" and st: "streams ?db = []" by (simp_all add: mailbox_db_def sample_simps)
  have uuids: "cn_uuid flaky 0 \<noteq> cn_uuid flaky 1" "fetch nt_uuid (cn_uuid flaky n) (notifications ?db) = None" for n
    using show_nat_nonempty [of n] show_nat_inj [of 0 1] by (auto simp: flaky_def rows fetch_Cons)
  obtain db1 where db1: "pg_write_stream ''w1'' ''k'' ''v'' 0 ''s'' ?db = (Inr (), db1)"
    using w1 st by (simp add: pg_write_stream_def stream_rows_def next_offset_def in_i32_def)
  then have one: "stream_rows ''w1'' ''k'' db1 = [\<lparr>st_workflow = ''w1'', st_key = ''k'', st_value = ''v'',
      st_offset = 0, st_function_id = as_i32 0, st_serialization = ''s''\<rparr>]" "wf_exists db1 ''w1''"
    using w1 st by (auto simp: pg_write_stream_def stream_rows_def next_offset_def in_i32_def)
  then obtain db2 where db2: "pg_write_stream ''w1'' ''k'' ''v'' 0 ''s'' db1 = (Inr (), db2)"
    by (simp add: pg_write_stream_def next_offset_def in_i32_def DBOS_STREAM_CLOSED_SENTINEL_def)
  have empty: "stream_rows ''w1'' ''k'' ?db = []" by (simp add: stream_rows_def st)
  note all = lost_reply_repeats_effects [OF flaky_loses]
  show ?thesis
    using all [of ?db "''w1''" DBOS_NULL_TOPIC, THEN conjunct1] mailbox_ok
      all [where db = ?db and dest = "''w1''" and topic = "''t''" and msg = "''hi''" and ser = "''s''", THEN conjunct2, THEN conjunct1] w1 uuids
      all [where db = ?db and i = "''w1''" and key = "''k''" and v = "''v''" and k = 0 and ser = "''s''"
        and ?db1.0 = db1 and ?db2.0 = db2, THEN conjunct2, THEN conjunct2, THEN conjunct1] db1 db2 empty
    by (simp add: rows waiting_def) blast
qed

end
