(* ===== verification/Connection.thy ===== *)
theory Connection
  imports Conductor_Laws Strings
begin

text \<open>
  The connection to the conductor (\<open>conductor/mod.rs\<close>): the loop that dials, backs off and dials
  again, and the loop that serves one connection under a ping watchdog.  What the socket, the timers and
  the rest of the process do is given as a list of wake-ups of the \<open>select!\<close>; whatever branches are
  ready at a wake-up, the first one in the order of the code is taken.  The jitter on a pause is not
  modelled, the pause it varies is.
\<close>

subsection \<open>Durations\<close>

text \<open>\<open>Duration\<close>, in milliseconds, with its order.\<close>

datatype duration = Millis (millis: nat)

instantiation duration :: linorder
begin

definition less_eq_duration :: "duration \<Rightarrow> duration \<Rightarrow> bool" where
  "less_eq_duration a b \<longleftrightarrow> millis a \<le> millis b"

definition less_duration :: "duration \<Rightarrow> duration \<Rightarrow> bool" where
  "less_duration a b \<longleftrightarrow> millis a < millis b"

instance
  by standard (auto simp: less_eq_duration_def less_duration_def duration.expand)

end

lemma millis_min [simp]: "millis (min a b) = min (millis a) (millis b)"
  by (auto simp: min_def less_eq_duration_def)

definition PING_INTERVAL :: duration where "PING_INTERVAL = Millis 20000"
definition PING_TIMEOUT :: duration where "PING_TIMEOUT = Millis 30000"
definition INITIAL_RECONNECT_WAIT :: duration where "INITIAL_RECONNECT_WAIT = Millis 1000"
definition MAX_RECONNECT_WAIT :: duration where "MAX_RECONNECT_WAIT = Millis 30000"

definition next_backoff :: "duration \<Rightarrow> duration" where
  "next_backoff current = min (Millis (millis current * 2)) MAX_RECONNECT_WAIT"

definition build_ws_url :: "string \<Rightarrow> string \<Rightarrow> string \<Rightarrow> string" where
  "build_ws_url base_url app_name api_key =
     trim_end_matches (CHR ''/'') base_url @ ''/websocket/'' @ app_name @ ''/'' @ api_key"

subsection \<open>One connection\<close>

datatype frame = Text_frame string | Ping_frame string | Pong_frame string | Close_frame | Other_frame

datatype incoming = Frame frame | Read_error | Stream_end

datatype outgoing = Out_text string | Out_ping | Out_pong string | Out_close

text \<open>Why serving ended.\<close>

datatype conn_end =
    Shut_down | Ping_failed | Deadline_reached | Send_failed | Peer_closed | Unexpected_frame
  | Read_failed | Stream_ended

text \<open>A wake-up: the time, the branches that are ready, whether a write succeeds now, and what the other
  tasks of the process did since the last one.\<close>

record 'w wake =
  wk_now :: nat
  wk_cancelled :: bool
  wk_tick :: bool
  wk_incoming :: "incoming option"
  wk_send_ok :: bool
  wk_others :: "'w rt \<Rightarrow> 'w rt"

text \<open>The read deadline, and what went over the socket: the frames read, with their times, and the frames
  written.\<close>

record link =
  ln_deadline :: nat
  ln_read :: "(nat \<times> frame) list"
  ln_sent :: "outgoing list"

definition sending :: "'w wake \<Rightarrow> outgoing \<Rightarrow> link \<Rightarrow> link" where
  "sending w out ln = (if wk_send_ok w then ln\<lparr>ln_sent := ln_sent ln @ [out]\<rparr> else ln)"

definition serve_frame ::
  "nat \<Rightarrow> conductor_env \<Rightarrow> 'w executor \<Rightarrow> 'w wake \<Rightarrow> frame \<Rightarrow> link \<Rightarrow> 'w rt \<Rightarrow> (conn_end option \<times> link \<times> 'w rt) option" where
  "serve_frame fuel env ex w f ln rt =
     (let ln = ln\<lparr>ln_deadline := wk_now w + millis PING_TIMEOUT, ln_read := ln_read ln @ [(wk_now w, f)]\<rparr>
      in case f of
           Text_frame data \<Rightarrow>
             (case handle_message fuel env ex data rt of
                None \<Rightarrow> None
              | Some (None, rt) \<Rightarrow> Some (None, ln, rt)
              | Some (Some v, rt) \<Rightarrow>
                  Some (if wk_send_ok w then None else Some Send_failed, sending w (Out_text (reply_text ex v)) ln, rt))
         | Ping_frame payload \<Rightarrow> Some (None, sending w (Out_pong payload) ln, rt)
         | Pong_frame _ \<Rightarrow> Some (None, ln, rt)
         | Close_frame \<Rightarrow> Some (Some Peer_closed, ln, rt)
         | Other_frame \<Rightarrow> Some (Some Unexpected_frame, ln, rt))"

text \<open>The branches in their order: shutdown, ping, read deadline, frame.\<close>

definition serve_step ::
  "nat \<Rightarrow> conductor_env \<Rightarrow> 'w executor \<Rightarrow> 'w wake \<Rightarrow> link \<Rightarrow> 'w rt \<Rightarrow> (conn_end option \<times> link \<times> 'w rt) option" where
  "serve_step fuel env ex w ln rt =
     (if wk_cancelled w then Some (Some Shut_down, sending w Out_close ln, rt)
      else if wk_tick w
      then Some (if wk_send_ok w then None else Some Ping_failed, sending w Out_ping ln, rt)
      else if ln_deadline ln \<le> wk_now w then Some (Some Deadline_reached, sending w Out_close ln, rt)
      else case wk_incoming w of
             None \<Rightarrow> Some (None, ln, rt)
           | Some (Frame f) \<Rightarrow> serve_frame fuel env ex w f ln rt
           | Some Read_error \<Rightarrow> Some (Some Read_failed, ln, rt)
           | Some Stream_end \<Rightarrow> Some (Some Stream_ended, ln, rt))"

fun serve_loop ::
  "nat \<Rightarrow> conductor_env \<Rightarrow> 'w executor \<Rightarrow> 'w wake list \<Rightarrow> link \<Rightarrow> 'w rt \<Rightarrow> (conn_end option \<times> link \<times> 'w rt) option" where
  "serve_loop fuel env ex [] ln rt = Some (None, ln, rt)"
| "serve_loop fuel env ex (w # ws) ln rt =
     (case serve_step fuel env ex w ln (wk_others w rt) of
        None \<Rightarrow> None
      | Some (Some e, ln, rt) \<Rightarrow> Some (Some e, ln, rt)
      | Some (None, ln, rt) \<Rightarrow> serve_loop fuel env ex ws ln rt)"

definition new_link :: "nat \<Rightarrow> link" where
  "new_link now = \<lparr>ln_deadline = now + millis PING_TIMEOUT, ln_read = [], ln_sent = []\<rparr>"

definition serve_connection ::
  "nat \<Rightarrow> conductor_env \<Rightarrow> 'w executor \<Rightarrow> nat \<Rightarrow> 'w wake list \<Rightarrow> 'w rt \<Rightarrow> (conn_end option \<times> link \<times> 'w rt) option" where
  "serve_connection fuel env ex now ws rt = serve_loop fuel env ex ws (new_link now) rt"

subsection \<open>Dialling\<close>

text \<open>A round of the outer loop: the token is cancelled at its start or while it dials; the conductor
  refuses, and the token may be cancelled during the pause; or it accepts, and the connection is served,
  after which the token may turn out to be cancelled.\<close>

datatype 'w dial =
    Dial_cancelled
  | Refused bool
  | Connected nat "'w wake list" bool

text \<open>The result says whether the loop returned (it goes on otherwise), and lists the pauses, before their
  jitter, and the links.\<close>

fun run_loop ::
  "nat \<Rightarrow> conductor_env \<Rightarrow> 'w executor \<Rightarrow> 'w dial list \<Rightarrow> duration \<Rightarrow> 'w rt \<Rightarrow>
   (bool \<times> duration list \<times> link list \<times> 'w rt) option" where
  "run_loop fuel env ex [] wait rt = Some (False, [], [], rt)"
| "run_loop fuel env ex (Dial_cancelled # ds) wait rt = Some (True, [], [], rt)"
| "run_loop fuel env ex (Refused cancelled # ds) wait rt =
     (if cancelled then Some (True, [wait], [], rt)
      else map_option (\<lambda>(stopped, waits, lns, rt). (stopped, wait # waits, lns, rt))
             (run_loop fuel env ex ds (next_backoff wait) rt))"
| "run_loop fuel env ex (Connected now ws cancelled # ds) wait rt =
     (case serve_connection fuel env ex now ws rt of
        None \<Rightarrow> None
      | Some (None, ln, rt) \<Rightarrow> Some (False, [], [ln], rt)
      | Some (Some e, ln, rt) \<Rightarrow>
          if e = Shut_down \<or> cancelled then Some (True, [], [ln], rt)
          else map_option (\<lambda>(stopped, waits, lns, rt). (stopped, waits, ln # lns, rt))
                 (run_loop fuel env ex ds INITIAL_RECONNECT_WAIT rt))"

definition conductor_run ::
  "nat \<Rightarrow> conductor_env \<Rightarrow> 'w executor \<Rightarrow> 'w dial list \<Rightarrow> 'w rt \<Rightarrow> (bool \<times> duration list \<times> link list \<times> 'w rt) option" where
  "conductor_run fuel env ex ds rt = run_loop fuel env ex ds INITIAL_RECONNECT_WAIT rt"

subsection \<open>Answers in order\<close>

text \<open>The requests among the frames read, and the texts among the frames written.\<close>

definition readable :: "'w executor \<Rightarrow> (nat \<times> frame) list \<Rightarrow> base_message list" where
  "readable ex reads =
     concat (map (\<lambda>(t, f). case f of
         Text_frame data \<Rightarrow>
           (case parse_frame (cx_codec (ex_ctx ex)) read_base_message data of Inl _ \<Rightarrow> [] | Inr b \<Rightarrow> [b])
       | _ \<Rightarrow> []) reads)"

definition texts :: "outgoing list \<Rightarrow> string list" where
  "texts outs = concat (map (\<lambda>x. case x of Out_text t \<Rightarrow> [t] | _ \<Rightarrow> []) outs)"

definition echoes :: "'w executor \<Rightarrow> base_message \<Rightarrow> string \<Rightarrow> bool" where
  "echoes ex b t \<longleftrightarrow> (\<exists>v. t = reply_text ex v \<and> answers (bm_type b) (bm_request_id b) v)"

lemma readable_snoc [simp]:
  "readable ex (reads @ [(t, f)]) = readable ex reads @ (case f of
     Text_frame data \<Rightarrow>
       (case parse_frame (cx_codec (ex_ctx ex)) read_base_message data of Inl _ \<Rightarrow> [] | Inr b \<Rightarrow> [b])
   | _ \<Rightarrow> [])"
  by (simp add: readable_def)

lemma texts_snoc [simp]: "texts (outs @ [x]) = texts outs @ (case x of Out_text t \<Rightarrow> [t] | _ \<Rightarrow> [])"
  by (simp add: texts_def)

text \<open>Every request read so far is answered, in order; only the last one may lack its answer.\<close>

definition answered :: "'w executor \<Rightarrow> conn_end option \<Rightarrow> link \<Rightarrow> bool" where
  "answered ex e ln \<longleftrightarrow>
     list_all2 (echoes ex)
       (if e = Some Send_failed then butlast (readable ex (ln_read ln)) else readable ex (ln_read ln))
       (texts (ln_sent ln))"

lemma sending_simps [simp]:
  "ln_read (sending w out ln) = ln_read ln" "ln_deadline (sending w out ln) = ln_deadline ln"
  "ln_sent (sending w out ln) = ln_sent ln @ (if wk_send_ok w then [out] else [])"
  by (simp_all add: sending_def)

lemma handled_reply:
  assumes "handle_message fuel env ex data rt = Some (v, rt')"
  shows "case v of
      None \<Rightarrow> \<exists>m. parse_frame (cx_codec (ex_ctx ex)) read_base_message data = Inl m
    | Some v \<Rightarrow> \<exists>b. parse_frame (cx_codec (ex_ctx ex)) read_base_message data = Inr b \<and> echoes ex b (reply_text ex v)"
proof (cases "parse_frame (cx_codec (ex_ctx ex)) read_base_message data")
  case (Inl m)
  with assms show ?thesis by (simp add: handle_message_def)
next
  case (Inr b)
  with assms obtain x rt1 where x: "dispatch fuel env ex (bm_type b) (bm_request_id b) data rt = Some (x, rt1)"
    by (auto simp: handle_message_def split: option.splits)
  from dispatch_served [OF x] Inr assms x show ?thesis
    by (cases x) (auto simp: handle_message_def served_def echoes_def intro!: exI answers_response)
qed

lemma serve_step_answered:
  assumes "serve_step fuel env ex w ln rt = Some (e, ln', rt')" "answered ex None ln"
  shows "answered ex e ln'"
proof (cases "wk_cancelled w \<or> wk_tick w \<or> ln_deadline ln \<le> wk_now w")
  case True
  with assms show ?thesis by (auto simp: serve_step_def answered_def split: if_splits)
next
  case False
  show ?thesis
  proof (cases "\<exists>data. wk_incoming w = Some (Frame (Text_frame data))")
    case True
    then obtain data where data: "wk_incoming w = Some (Frame (Text_frame data))" by blast
    with assms(1) False obtain v rt1 where v: "handle_message fuel env ex data rt = Some (v, rt1)"
      by (auto simp: serve_step_def serve_frame_def Let_def split: option.splits)
    from handled_reply [OF v] False data v assms show ?thesis
      by (cases v) (auto simp: serve_step_def serve_frame_def Let_def answered_def list_all2_appendI
          split: if_splits)
  next
    case other: False
    with False assms show ?thesis
      by (auto simp: serve_step_def serve_frame_def Let_def answered_def split: option.splits incoming.splits frame.splits)
  qed
qed

lemma serve_loop_answered:
  assumes "serve_loop fuel env ex ws ln rt = Some (e, ln', rt')" "answered ex None ln"
  shows "answered ex e ln'"
  using assms
proof (induction ws arbitrary: ln rt)
  case (Cons w ws)
  from Cons.prems(1) obtain e1 ln1 rt1 where step: "serve_step fuel env ex w ln (wk_others w rt) = Some (e1, ln1, rt1)"
    by (auto split: option.splits)
  note ok = serve_step_answered [OF step Cons.prems(2)]
  show ?case
  proof (cases e1)
    case None
    with Cons.prems(1) step have "serve_loop fuel env ex ws ln1 rt1 = Some (e, ln', rt')" by simp
    with None ok show ?thesis using Cons.IH by blast
  qed (use ok Cons.prems(1) step in simp)
qed simp

subsection \<open>The watchdog\<close>

text \<open>The times of the frames read, after the start: each one less than the timeout after the one before.\<close>

definition watched :: "nat \<Rightarrow> link \<Rightarrow> bool" where
  "watched start ln \<longleftrightarrow>
     successively (\<lambda>s t. t < s + millis PING_TIMEOUT) (start # map fst (ln_read ln))
     \<and> ln_deadline ln = last (start # map fst (ln_read ln)) + millis PING_TIMEOUT"

lemma serve_step_watched:
  assumes "serve_step fuel env ex w ln rt = Some (e, ln', rt')" "watched start ln"
  shows "watched start ln'"
proof -
  have read: "watched start (ln\<lparr>ln_deadline := wk_now w + millis PING_TIMEOUT, ln_read := ln_read ln @ [(wk_now w, f)]\<rparr>)"
    if "\<not> ln_deadline ln \<le> wk_now w" for f
  proof -
    have "successively (\<lambda>s t. t < s + millis PING_TIMEOUT) ((start # map fst (ln_read ln)) @ [wk_now w])"
      unfolding successively_append_iff using assms(2) that by (simp add: watched_def)
    then show ?thesis by (simp add: watched_def)
  qed
  have keeps: "watched start (sending w out l) \<longleftrightarrow> watched start l" for out l by (simp add: watched_def)
  show ?thesis
    using assms read
    by (auto simp: serve_step_def serve_frame_def Let_def keeps split: if_splits option.splits incoming.splits frame.splits)
qed

lemma serve_loop_watched:
  assumes "serve_loop fuel env ex ws ln rt = Some (e, ln', rt')" "watched start ln"
  shows "watched start ln'"
  using assms
proof (induction ws arbitrary: ln rt)
  case (Cons w ws)
  from Cons.prems(1) obtain e1 ln1 rt1 where step: "serve_step fuel env ex w ln (wk_others w rt) = Some (e1, ln1, rt1)"
    by (auto split: option.splits)
  note ok = serve_step_watched [OF step Cons.prems(2)]
  show ?case
  proof (cases e1)
    case None
    with Cons.prems(1) step have "serve_loop fuel env ex ws ln1 rt1 = Some (e, ln', rt')" by simp
    then show ?thesis using Cons.IH ok by blast
  qed (use ok Cons.prems(1) step in simp)
qed simp


text \<open>A session of one request: it is answered, and after thirty silent seconds the connection ends.\<close>

definition quiet_wake :: "nat \<Rightarrow> incoming option \<Rightarrow> nat wake" where
  "quiet_wake t f = \<lparr>wk_now = t, wk_cancelled = False, wk_tick = False, wk_incoming = f, wk_send_ok = True,
     wk_others = id\<rparr>"


text \<open>
  The read deadline is set when a frame arrives, before it is handled, and at the next wake-up it comes
  before the socket: a request that takes thirty seconds to handle costs the connection, whatever has
  arrived meanwhile.
\<close>

lemma slow_request_drops_connection:
  assumes "wk_incoming w = Some (Frame (Text_frame data))" "\<not> wk_cancelled w" "\<not> wk_tick w" "wk_now w < ln_deadline ln"
    and "handle_message fuel env ex data (wk_others w rt) = Some (v, rt1)" "wk_send_ok w"
    and "\<not> wk_cancelled w'" "\<not> wk_tick w'" "wk_now w + 30000 \<le> wk_now w'" "wk_incoming w' = Some (Frame f)"
  shows "\<exists>ln'. serve_loop fuel env ex (w # w' # ws) ln rt = Some (Some Deadline_reached, ln', wk_others w' rt1)
    \<and> ln_read ln' = ln_read ln @ [(wk_now w, Text_frame data)]"
  using assms by (cases v) (simp_all add: serve_step_def serve_frame_def Let_def PING_TIMEOUT_def)

subsection \<open>Backing off\<close>

lemma next_backoff_power:
  "next_backoff (Millis (min (1000 * 2 ^ n) 30000)) = Millis (min (1000 * 2 ^ Suc n) 30000)"
  by (simp add: next_backoff_def MAX_RECONNECT_WAIT_def min_def less_eq_duration_def)

text \<open>The pauses before the first connection: one second, doubled each time, thirty at most.\<close>

lemma backoff_schedule:
  "run_loop fuel env ex (replicate n (Refused False)) (Millis (min (1000 * 2 ^ k) 30000)) rt
     = Some (False, map (\<lambda>i. Millis (min (1000 * 2 ^ (k + i)) 30000)) [0..<n], [], rt)"
proof (induction n arbitrary: k)
  case (Suc n)
  have "map (\<lambda>i. Millis (min (1000 * 2 ^ (k + i)) 30000)) [0..<Suc n]
      = Millis (min (1000 * 2 ^ k) 30000) # map (\<lambda>i. Millis (min (1000 * 2 ^ (Suc k + i)) 30000)) [0..<n]"
    by (simp add: upt_conv_Cons map_Suc_upt [symmetric] comp_def del: upt_Suc)
  with Suc.IH [of "Suc k"] next_backoff_power [of k] show ?case by simp
qed simp

text \<open>No pause is ever shorter than the first or longer than the limit.\<close>

lemma backoff_bounds:
  assumes "run_loop fuel env ex ds wait rt = Some (stopped, waits, lns, rt')"
    "INITIAL_RECONNECT_WAIT \<le> wait" "wait \<le> MAX_RECONNECT_WAIT" "w \<in> set waits"
  shows "INITIAL_RECONNECT_WAIT \<le> w \<and> w \<le> MAX_RECONNECT_WAIT"
  using assms
proof (induction fuel env ex ds wait rt arbitrary: stopped waits lns rt' rule: run_loop.induct)
  case (3 fuel env ex cancelled ds wait rt)
  have "INITIAL_RECONNECT_WAIT \<le> next_backoff wait" "next_backoff wait \<le> MAX_RECONNECT_WAIT"
    using 3(3,4) by (auto simp: next_backoff_def less_eq_duration_def INITIAL_RECONNECT_WAIT_def MAX_RECONNECT_WAIT_def)
  with 3 show ?case by (auto split: if_splits)
next
  case (4 fuel env ex now ws cancelled ds wait rt)
  have "INITIAL_RECONNECT_WAIT \<le> MAX_RECONNECT_WAIT"
    by (simp add: less_eq_duration_def INITIAL_RECONNECT_WAIT_def MAX_RECONNECT_WAIT_def)
  with 4 show ?case by (auto split: option.splits if_splits)
qed auto

lemma ws_url_single_slash:
  "build_ws_url ''wss://api.dbos.dev'' ''app'' ''key'' = ''wss://api.dbos.dev/websocket/app/key''"
  "build_ws_url ''wss://api.dbos.dev/'' ''app'' ''key'' = ''wss://api.dbos.dev/websocket/app/key''"
  by code_simp+

end
