(* ===== verification/Admin_Server.thy ===== *)
theory Admin_Server
  imports Admin_Laws Strings
begin

text \<open>
  The admin server as a whole, \<open>crates/dbos-server/src/lib.rs\<close>: the route table, and what a request does
  from its path to its response.  \<open>axum\<close> is a parameter: how it decodes a path argument, what it reads
  from a body, and the responses it gives itself.
\<close>

subsection \<open>Routes\<close>

datatype http_method = GET | HEAD | POST | Method string

datatype endpoint =
    Healthz | Workflow_recovery | Queues_metadata | Deactivate_ep | Garbage_collect | Global_timeout
  | List_workflows | Get_workflow | Get_workflow_steps | Cancel_workflow | Resume_workflow | Fork_workflow

datatype segment = Lit string | Arg

definition admin_router :: "(segment list \<times> http_method \<times> endpoint) list" where
  "admin_router =
     [([Lit ''dbos-healthz''], GET, Healthz),
      ([Lit ''dbos-workflow-recovery''], POST, Workflow_recovery),
      ([Lit ''dbos-workflow-queues-metadata''], GET, Queues_metadata),
      ([Lit ''deactivate''], GET, Deactivate_ep),
      ([Lit ''dbos-garbage-collect''], POST, Garbage_collect),
      ([Lit ''dbos-global-timeout''], POST, Global_timeout),
      ([Lit ''workflows''], POST, List_workflows),
      ([Lit ''workflows'', Arg], GET, Get_workflow),
      ([Lit ''workflows'', Arg, Lit ''steps''], GET, Get_workflow_steps),
      ([Lit ''workflows'', Arg, Lit ''cancel''], POST, Cancel_workflow),
      ([Lit ''workflows'', Arg, Lit ''resume''], POST, Resume_workflow),
      ([Lit ''workflows'', Arg, Lit ''fork''], POST, Fork_workflow)]"

text \<open>A path against a pattern; an argument is a segment that is not empty.\<close>

fun captures :: "segment list \<Rightarrow> string list \<Rightarrow> string list option" where
  "captures [] [] = Some []"
| "captures (Lit l # ps) (s # ss) = (if l = s then captures ps ss else None)"
| "captures (Arg # ps) (s # ss) = (if s = [] then None else map_option ((#) s) (captures ps ss))"
| "captures _ _ = None"

definition path_segments :: "string \<Rightarrow> string list" where
  "path_segments path = tl (split_on (CHR ''/'') path)"

fun find_route ::
  "(segment list \<times> http_method \<times> endpoint) list \<Rightarrow> string list \<Rightarrow> (http_method \<times> endpoint \<times> string list) option" where
  "find_route [] ss = None"
| "find_route ((ps, m, ep) # rs) ss =
     (case captures ps ss of Some args \<Rightarrow> Some (m, ep, args) | None \<Rightarrow> find_route rs ss)"

definition routed :: "string \<Rightarrow> (http_method \<times> endpoint \<times> string list) option" where
  "routed path = find_route admin_router (path_segments path)"

subsection \<open>Requests\<close>

record 'b http_request =
  rq_method :: http_method
  rq_path :: string
  rq_body :: 'b

text \<open>What \<open>axum\<close> makes of a path argument and of a body: no content type at all, a body that is no JSON
  (or not declared as such), or a value; and its own responses.\<close>

record 'b axum =
  ax_argument :: "string \<Rightarrow> http_response + string"
  ax_content :: "'b \<Rightarrow> (http_response + json) option"
  ax_untyped :: http_response
  ax_mismatch :: http_response
  ax_not_found :: http_response
  ax_not_allowed :: http_response

definition with_id ::
  "'b axum \<Rightarrow> string list \<Rightarrow> (string \<Rightarrow> 'w rt \<Rightarrow> http_response \<times> 'w rt) \<Rightarrow> 'w rt \<Rightarrow> http_response \<times> 'w rt" where
  "with_id ax args f rt =
     (case args of
        [arg] \<Rightarrow> (case ax_argument ax arg of Inl r \<Rightarrow> (r, rt) | Inr i \<Rightarrow> f i rt)
      | _ \<Rightarrow> (ax_not_found ax, rt))"

text \<open>\<open>Json<T>\<close> and \<open>Option<Json<T>>\<close> as the last argument of a handler.\<close>

definition with_json ::
  "'b axum \<Rightarrow> 'a reader \<Rightarrow> 'b \<Rightarrow> ('a \<Rightarrow> 'w rt \<Rightarrow> http_response \<times> 'w rt) \<Rightarrow> 'w rt \<Rightarrow> http_response \<times> 'w rt" where
  "with_json ax read body f rt =
     (case ax_content ax body of
        None \<Rightarrow> (ax_untyped ax, rt)
      | Some (Inl r) \<Rightarrow> (r, rt)
      | Some (Inr v) \<Rightarrow> (case read v of None \<Rightarrow> (ax_mismatch ax, rt) | Some x \<Rightarrow> f x rt))"

definition with_opt_json ::
  "'b axum \<Rightarrow> 'a reader \<Rightarrow> 'b \<Rightarrow> ('a option \<Rightarrow> 'w rt \<Rightarrow> http_response \<times> 'w rt) \<Rightarrow> 'w rt \<Rightarrow> http_response \<times> 'w rt" where
  "with_opt_json ax read body f rt =
     (if ax_content ax body = None then f None rt else with_json ax read body (\<lambda>x. f (Some x)) rt)"

definition run_endpoint ::
  "'b axum \<Rightarrow> 'w executor \<Rightarrow> endpoint \<Rightarrow> string list \<Rightarrow> 'b \<Rightarrow> 'w rt \<Rightarrow> http_response \<times> 'w rt" where
  "run_endpoint ax ex ep args body rt =
     (let cd = cx_codec (ex_ctx ex) in
      case ep of
        Healthz \<Rightarrow> (healthz, rt)
      | Workflow_recovery \<Rightarrow> with_json ax (read_list read_string) body (http_recovery ex) rt
      | Queues_metadata \<Rightarrow> (workflow_queues_metadata, rt)
      | Deactivate_ep \<Rightarrow> (deactivate_endpoint, rt)
      | Garbage_collect \<Rightarrow> with_opt_json ax read_gc_request body http_garbage_collect rt
      | Global_timeout \<Rightarrow> with_json ax read_timeout_request body http_global_timeout rt
      | List_workflows \<Rightarrow>
          with_opt_json ax read_list_request body (\<lambda>req rt. (http_list_workflows cd req (rt_db rt), rt)) rt
      | Get_workflow \<Rightarrow> with_id ax args (\<lambda>i rt. (http_get_workflow cd i (rt_db rt), rt)) rt
      | Get_workflow_steps \<Rightarrow> with_id ax args (\<lambda>i rt. (http_get_steps cd i (rt_db rt), rt)) rt
      | Cancel_workflow \<Rightarrow> with_id ax args http_cancel rt
      | Resume_workflow \<Rightarrow> with_id ax args http_resume rt
      | Fork_workflow \<Rightarrow>
          with_id ax args (\<lambda>i. with_opt_json ax read_fork_http_request body (http_fork i)) rt)"

text \<open>A route for \<open>GET\<close> also answers \<open>HEAD\<close>, without the body.\<close>

definition answer_request ::
  "'b axum \<Rightarrow> 'w executor \<Rightarrow> 'b http_request \<Rightarrow> 'w rt \<Rightarrow> http_response \<times> 'w rt" where
  "answer_request ax ex rq rt =
     (case routed (rq_path rq) of
        None \<Rightarrow> (ax_not_found ax, rt)
      | Some (m, ep, args) \<Rightarrow>
          if rq_method rq = m then run_endpoint ax ex ep args (rq_body rq) rt
          else if m = GET \<and> rq_method rq = HEAD
          then map_prod (hr_body_update (\<lambda>_. Empty)) id (run_endpoint ax ex ep args (rq_body rq) rt)
          else (ax_not_allowed ax, rt))"

text \<open>Binding the port gives a listener or an error; a listener has an address, or an error.\<close>

definition start_admin_server :: "(nat \<Rightarrow> string + (string + nat)) \<Rightarrow> nat \<Rightarrow> nat res" where
  "start_admin_server bind_port port =
     (case bind_port port of
        Inl e \<Rightarrow> Inl (with_source (initialization (''failed to bind admin server on port ''
                   @ show_nat port @ '': '' @ e)) (SrcOther e None))
      | Inr (Inl e) \<Rightarrow> Inl (initialization (''failed to read bound address: '' @ e))
      | Inr (Inr addr) \<Rightarrow> Inr addr)"

subsection \<open>Routing\<close>

lemma find_route_table:
  "find_route rs ss = Some (m, ep, args) \<Longrightarrow> \<exists>ps. (ps, m, ep) \<in> set rs \<and> captures ps ss = Some args"
  by (induction rs) (auto split: option.splits)

text \<open>No path fits two routes.\<close>

lemma captures_shapes:
  "captures [Lit l] ss = (if ss = [l] then Some [] else None)"
  "captures [Lit l, Arg] ss = (case ss of [a, b] \<Rightarrow> if a = l \<and> b \<noteq> [] then Some [b] else None | _ \<Rightarrow> None)"
  "captures [Lit l, Arg, Lit k] ss =
     (case ss of [a, b, c] \<Rightarrow> if a = l \<and> b \<noteq> [] \<and> c = k then Some [b] else None | _ \<Rightarrow> None)"
  by (cases ss; cases "tl ss"; cases "tl (tl ss)"; cases "tl (tl (tl ss))"; simp)+

lemma routes_disjoint: "length (filter (\<lambda>(ps, _). captures ps ss \<noteq> None) admin_router) \<le> 1"
proof -
  consider a where "ss = [a]" | a b where "ss = [a, b]" | a b c where "ss = [a, b, c]"
    | "ss = []" | a b c d e where "ss = a # b # c # d # e"
    by (cases ss; cases "tl ss"; cases "tl (tl ss)"; cases "tl (tl (tl ss))") auto
  then show ?thesis by cases (auto simp: admin_router_def captures_shapes)
qed

lemma routed_method:
  "routed path = Some (m, ep, args) \<Longrightarrow>
   m = (if ep \<in> {Healthz, Queues_metadata, Deactivate_ep, Get_workflow, Get_workflow_steps} then GET else POST)"
  unfolding routed_def by (drule find_route_table) (auto simp: admin_router_def)

lemma routed_examples:
  "routed ''/workflows/w1/steps'' = Some (GET, Get_workflow_steps, [''w1''])"
  "routed ''/workflows/w1/fork'' = Some (POST, Fork_workflow, [''w1''])"
  "routed ''/workflows'' = Some (POST, List_workflows, [])"
  "routed ''/workflows/'' = None" "routed ''/'' = None"
  by code_simp+

subsection \<open>What a request can do\<close>

text \<open>An action on the run-time state that goes through the database's operations.\<close>

definition acts_safely :: "('w rt \<Rightarrow> http_response \<times> 'w rt) \<Rightarrow> bool" where
  "acts_safely f \<longleftrightarrow> (\<forall>rt. db_steps (rt_db rt) (rt_db (snd (f rt))))"

lemma acts_safelyI: "(\<And>rt. db_steps (rt_db rt) (rt_db (snd (f rt)))) \<Longrightarrow> acts_safely f"
  by (simp add: acts_safely_def)

lemma acts_safelyD: "acts_safely f \<Longrightarrow> db_steps (rt_db rt) (rt_db (snd (f rt)))"
  by (simp add: acts_safely_def)

lemma acts_safely_extract:
  "(\<And>i. acts_safely (f i)) \<Longrightarrow> acts_safely (with_id ax args f)"
  "(\<And>x. acts_safely (g x)) \<Longrightarrow> acts_safely (with_json ax read body g)"
  "(\<And>x. acts_safely (h x)) \<Longrightarrow> acts_safely (with_opt_json ax read body h)"
  by (auto simp: acts_safely_def with_id_def with_opt_json_def with_json_def split: list.split sum.split option.split)

lemma endpoint_acts:
  "acts_safely (http_recovery ex ids)" "acts_safely (http_garbage_collect gc)"
  "acts_safely (http_global_timeout cutoff)" "acts_safely (http_cancel i)"
  "acts_safely (http_resume i)" "acts_safely (http_fork i req)" "acts_safely (\<lambda>rt. (f rt, rt))"
proof -
  show "acts_safely (http_recovery ex ids)"
    by (rule acts_safelyI) (simp add: http_recovery_def recover_pending_workflows_def split_beta steps split: sum.split)
  show "acts_safely (http_garbage_collect gc)"
    by (rule acts_safelyI)
      (auto simp: http_garbage_collect_def split_beta lift_db_db intro: r_into_rtranclp db_step.gc)
  show "acts_safely (http_global_timeout cutoff)"
    by (rule acts_safelyI)
      (simp add: http_global_timeout_def split_beta each_id_steps steps split: sum.split)
  show "acts_safely (http_cancel i)" "acts_safely (http_resume i)" "acts_safely (http_fork i req)"
    by (rule acts_safelyI, simp add: http_cancel_def http_resume_def http_fork_def Let_def split_beta steps split: sum.split)+
qed (simp add: acts_safely_def)

lemmas extract_steps = acts_safely_extract [THEN acts_safelyD] endpoint_acts [THEN acts_safelyD]

lemma run_endpoint_steps: "db_steps (rt_db rt) (rt_db (snd (run_endpoint ax ex ep args body rt)))"
  by (cases ep) (simp_all add: run_endpoint_def Let_def extract_steps acts_safely_extract endpoint_acts)

lemma reading_endpoints:
  "ep \<notin> {Workflow_recovery, Garbage_collect, Global_timeout, Cancel_workflow, Resume_workflow, Fork_workflow} \<Longrightarrow>
   snd (run_endpoint ax ex ep args body rt) = rt"
  by (cases ep)
    (simp_all add: run_endpoint_def Let_def with_id_def with_opt_json_def with_json_def
      split: list.split sum.split option.split)

lemma rejected_body:
  "ax_content ax body = Some (Inl r) \<Longrightarrow> ep \<notin> {Cancel_workflow, Resume_workflow} \<Longrightarrow>
   snd (run_endpoint ax ex ep args body rt) = rt"
  by (cases ep)
    (simp_all add: run_endpoint_def Let_def with_id_def with_opt_json_def with_json_def
      split: list.split sum.split option.split)

lemma answer_changes:
  assumes "rt' \<noteq> rt" "answer_request ax ex rq rt = (resp, rt')"
  obtains m ep args where "routed (rq_path rq) = Some (m, ep, args)"
    "rt' = snd (run_endpoint ax ex ep args (rq_body rq) rt)" "rq_method rq = m \<or> m = GET"
proof (cases "routed (rq_path rq)")
  case None
  with assms show thesis by (simp add: answer_request_def)
next
  case (Some t)
  then obtain m ep args where t: "routed (rq_path rq) = Some (m, ep, args)" by (cases t) auto
  obtain r rt1 where run: "run_endpoint ax ex ep args (rq_body rq) rt = (r, rt1)" by fastforce
  from assms t run that [OF t] show thesis by (auto simp: answer_request_def split: if_splits)
qed


definition sample_axum :: "json axum" where
  "sample_axum =
     \<lparr>ax_argument = Inr, ax_content = (\<lambda>v. Some (Inr v)), ax_untyped = \<lparr>hr_status = 415, hr_body = Empty\<rparr>,
      ax_mismatch = \<lparr>hr_status = 422, hr_body = Empty\<rparr>, ax_not_found = \<lparr>hr_status = 404, hr_body = Empty\<rparr>,
      ax_not_allowed = \<lparr>hr_status = 405, hr_body = Empty\<rparr>\<rparr>"


text \<open>A fork whose body comes without a content type: the body is passed over, and the workflow is forked
  from its first step under a generated id.\<close>

lemma untyped_fork_body_ignored:
  assumes "ax_content ax body = None" "ax_argument ax i = Inr i"
  shows "run_endpoint ax ex Fork_workflow [i] body rt = http_fork i None rt"
  using assms by (simp add: run_endpoint_def with_id_def with_opt_json_def)

end
