(* ===== verification/Config.thy ===== *)
theory Config
  imports Strings Executor
begin

text \<open>
  Setting up: \<open>config.rs\<close>, and how a context gets its database (\<open>context/lifecycle.rs\<close>,
  the \<open>connect\<close> functions of \<open>db/sqlite.rs\<close> and \<open>db/postgres.rs\<close>, \<open>Client::new\<close>).  Parameters are the
  environment variables, the hash and the facts about the executable that the default version is
  made of, and the drivers that open a connection pool (\<open>'p\<close>).
\<close>

subsection \<open>Configuration\<close>

definition DEFAULT_EXECUTOR_ID :: string where "DEFAULT_EXECUTOR_ID = ''local''"
definition DEFAULT_DATABASE_SCHEMA :: string where "DEFAULT_DATABASE_SCHEMA = ''dbos''"

record 'p config =
  co_app_name :: string
  co_database_url :: "string option"
  co_sqlite_pool :: "'p option"
  co_database_schema :: "string option"
  co_application_version :: "string option"
  co_executor_id :: "string option"
  co_application_id :: "string option"
  co_serializer :: "serializer option"
  co_admin_server :: bool
  co_admin_server_port :: "nat option"
  co_enable_patching :: bool
  co_scheduler_polling_interval :: "int option"

definition config_default :: "'p config" where
  "config_default =
     \<lparr>co_app_name = [], co_database_url = None, co_sqlite_pool = None, co_database_schema = None,
      co_application_version = None, co_executor_id = None, co_application_id = None,
      co_serializer = None, co_admin_server = False, co_admin_server_port = None,
      co_enable_patching = False, co_scheduler_polling_interval = None\<rparr>"

record 'p processed_config =
  pc_app_name :: string
  pc_database_url :: "string option"
  pc_sqlite_pool :: "'p option"
  pc_database_schema :: string
  pc_application_version :: string
  pc_executor_id :: string
  pc_application_id :: string
  pc_serializer :: "serializer option"
  pc_admin_server :: bool
  pc_admin_server_port :: nat
  pc_enable_patching :: bool
  pc_scheduler_polling_interval :: int

definition env_override :: "(string \<Rightarrow> string option) \<Rightarrow> string \<Rightarrow> string option" where
  "env_override env key = non_empty_opt (env key)"

definition opt_or :: "'a option \<Rightarrow> 'a option \<Rightarrow> 'a option" where
  "opt_or a b = (case a of None \<Rightarrow> b | Some _ \<Rightarrow> a)"

text \<open>The path of the executable, its length, its modification time in seconds, as far as they can be
  had; the hash of what there is, written with sixteen hexadecimal digits.\<close>

type_synonym exe_facts = "(string \<times> (int \<times> int option) option) option"

definition hex_digit :: "nat \<Rightarrow> char" where
  "hex_digit d = (if d < 10 then char_of (48 + d) else char_of (87 + d))"

definition hex16 :: "nat \<Rightarrow> string" where
  "hex16 n = map (\<lambda>i. hex_digit (n div 16 ^ (15 - i) mod 16)) [0..<16]"

definition computed_app_version :: "(exe_facts \<Rightarrow> nat) \<Rightarrow> exe_facts \<Rightarrow> string" where
  "computed_app_version hash exe = hex16 (hash exe)"

text \<open>What a process finds around it.\<close>

record surroundings =
  su_env :: "string \<Rightarrow> string option"
  su_hash :: "exe_facts \<Rightarrow> nat"
  su_exe :: exe_facts

definition process_config :: "surroundings \<Rightarrow> 'p config \<Rightarrow> 'p processed_config res" where
  "process_config su cfg =
     (let has_url = (case co_database_url cfg of None \<Rightarrow> False | Some u \<Rightarrow> u \<noteq> []);
          has_pool = co_sqlite_pool cfg \<noteq> None
      in if trim (co_app_name cfg) = [] then Inl (initialization ''app name is required'')
         else if \<not> has_url \<and> \<not> has_pool
         then Inl (initialization
           ''a database connection is required (set database_url or sqlite_pool)'')
         else if has_url \<and> has_pool
         then Inl (initialization ''provide exactly one of database_url or sqlite_pool, not both'')
         else Inr
           \<lparr>pc_app_name = co_app_name cfg, pc_database_url = co_database_url cfg,
            pc_sqlite_pool = co_sqlite_pool cfg,
            pc_database_schema = unwrap_or (non_empty_opt (co_database_schema cfg)) DEFAULT_DATABASE_SCHEMA,
            pc_application_version =
              unwrap_or (opt_or (env_override (su_env su) ''DBOS__APPVERSION'')
                (non_empty_opt (co_application_version cfg))) (computed_app_version (su_hash su) (su_exe su)),
            pc_executor_id =
              unwrap_or (opt_or (env_override (su_env su) ''DBOS__VMID'')
                (non_empty_opt (co_executor_id cfg))) DEFAULT_EXECUTOR_ID,
            pc_application_id =
              unwrap_or_default (opt_or (env_override (su_env su) ''DBOS__APPID'') (co_application_id cfg)),
            pc_serializer = co_serializer cfg, pc_admin_server = co_admin_server cfg,
            pc_admin_server_port = unwrap_or (co_admin_server_port cfg) 3001,
            pc_enable_patching = co_enable_patching cfg,
            pc_scheduler_polling_interval = unwrap_or (co_scheduler_polling_interval cfg) 30000\<rparr>)"

subsection \<open>Connecting\<close>

text \<open>The drivers, and Rust's quoted form of a string.  An error is given by its text.\<close>

record 'p drivers =
  dr_sqlite_options :: "string \<Rightarrow> string + unit"
  dr_sqlite_connect :: "string \<Rightarrow> nat \<Rightarrow> string + 'p"
  dr_pg_connect :: "string \<Rightarrow> nat \<Rightarrow> string + 'p"
  dr_pg_schema :: "'p \<Rightarrow> string \<Rightarrow> string + unit"
  dr_debug :: "string \<Rightarrow> string"

datatype 'p database = SqliteDb 'p | PostgresDb 'p | RetryingDb "'p database"

definition sqlite_connect_options :: "'p drivers \<Rightarrow> string \<Rightarrow> string res" where
  "sqlite_connect_options drv url =
     (let normalized =
            (if prefix ''sqlite:'' url \<or> prefix ''sqlite3:'' url \<or> prefix ''file:'' url
             then replace_first ''sqlite3:'' ''sqlite:'' url else ''sqlite://'' @ url)
      in case dr_sqlite_options drv normalized of
           Inl e \<Rightarrow> Inl (initialization (''invalid sqlite url '' @ dr_debug drv url @ '': '' @ e))
         | Inr _ \<Rightarrow> Inr normalized)"

definition sqlite_max_connections :: "string \<Rightarrow> nat" where
  "sqlite_max_connections url = (if contains '':memory:'' url \<or> contains ''mode=memory'' url then 1 else 5)"

definition sqlite_connect :: "'p drivers \<Rightarrow> string \<Rightarrow> 'p database res" where
  "sqlite_connect drv url =
     bind_res (sqlite_connect_options drv url) (\<lambda>opts.
       case dr_sqlite_connect drv opts (sqlite_max_connections url) of
         Inl e \<Rightarrow> Inl (initialization (''failed to open sqlite database: '' @ e))
       | Inr pool \<Rightarrow> Inr (SqliteDb pool))"

definition postgres_connect :: "'p drivers \<Rightarrow> string \<Rightarrow> 'p database res" where
  "postgres_connect drv url =
     (case dr_pg_connect drv url 20 of
        Inl e \<Rightarrow> Inl (initialization (''failed to open postgres database: '' @ e))
      | Inr pool \<Rightarrow>
          (case dr_pg_schema drv pool ''dbos'' of
             Inl e \<Rightarrow> Inl (initialization (''failed to create dbos schema: '' @ e))
           | Inr _ \<Rightarrow> Inr (PostgresDb pool)))"

definition connect_database :: "'p drivers \<Rightarrow> string \<Rightarrow> 'p database res" where
  "connect_database drv url =
     (let lower = to_ascii_lowercase url
      in if prefix ''postgres://'' lower \<or> prefix ''postgresql://'' lower
         then map_ok RetryingDb (postgres_connect drv url)
         else sqlite_connect drv url)"

subsection \<open>Contexts and clients\<close>

text \<open>A new context: the database, and an executor whose registries are empty.\<close>

definition new_context ::
  "surroundings \<Rightarrow> 'p drivers \<Rightarrow> codec \<Rightarrow> (int \<Rightarrow> string) \<Rightarrow> 'p config \<Rightarrow> ('p database \<times> 'w executor) res" where
  "new_context su drv cd durations cfg =
     bind_res (process_config su cfg) (\<lambda>pc.
       bind_res
         (case pc_sqlite_pool pc of
            Some pool \<Rightarrow> Inr (SqliteDb pool)
          | None \<Rightarrow>
              (case pc_database_url pc of
                 None \<Rightarrow> Inl (initialization ''missing database url'')
               | Some url \<Rightarrow> connect_database drv url))
         (\<lambda>db. Inr (db,
            \<lparr>ex_ctx = \<lparr>cx_codec = cd, cx_serializer = pc_serializer pc, cx_duration = durations\<rparr>,
             ex_registry = [], ex_queues = [], ex_launched = False,
             ex_version = pc_application_version pc, ex_executor_id = pc_executor_id pc,
             ex_application_id = pc_application_id pc\<rparr>)))"

record client_config =
  cc_app_name :: string
  cc_database_url :: string
  cc_application_version :: "string option"
  cc_executor_id :: "string option"

text \<open>A client runs the migrations of its database and launches nothing.\<close>

definition client_new ::
  "surroundings \<Rightarrow> 'p drivers \<Rightarrow> codec \<Rightarrow> (int \<Rightarrow> string) \<Rightarrow> ('p database \<Rightarrow> unit res) \<Rightarrow> client_config
   \<Rightarrow> ('p database \<times> 'w executor) res" where
  "client_new su drv cd durations migrate cc =
     bind_res (new_context su drv cd durations
       (config_default\<lparr>co_app_name := cc_app_name cc, co_database_url := Some (cc_database_url cc),
          co_application_version := cc_application_version cc, co_executor_id := cc_executor_id cc\<rparr>))
       (\<lambda>(db, ex). map_ok (\<lambda>_. (db, ex)) (migrate db))"

subsection \<open>What a configuration resolves to\<close>

lemma process_config_sources:
  assumes "process_config su cfg = Inr pc"
  shows "(pc_sqlite_pool pc \<noteq> None) \<longleftrightarrow> \<not> (\<exists>u. pc_database_url pc = Some u \<and> u \<noteq> [])"
    and "pc_app_name pc \<noteq> []"
  using assms by (auto simp: process_config_def Let_def split: if_splits option.splits)

lemma process_config_fields:
  assumes "process_config su cfg = Inr pc"
  shows "pc_executor_id pc = unwrap_or (opt_or (env_override (su_env su) ''DBOS__VMID'')
      (non_empty_opt (co_executor_id cfg))) DEFAULT_EXECUTOR_ID"
    and "pc_application_version pc = unwrap_or (opt_or (env_override (su_env su) ''DBOS__APPVERSION'')
      (non_empty_opt (co_application_version cfg))) (computed_app_version (su_hash su) (su_exe su))"
    and "pc_database_schema pc = unwrap_or (non_empty_opt (co_database_schema cfg)) DEFAULT_DATABASE_SCHEMA"
  using assms by (simp_all add: process_config_def Let_def split: if_splits) auto

lemma resolved_nonempty:
  "d \<noteq> [] \<Longrightarrow> unwrap_or (non_empty_opt a) d \<noteq> []"
  "d \<noteq> [] \<Longrightarrow> unwrap_or (opt_or (env_override env k) (non_empty_opt a)) d \<noteq> []"
  "env k = Some v \<Longrightarrow> v \<noteq> [] \<Longrightarrow> unwrap_or (opt_or (env_override env k) b) d = v"
  by (auto simp: unwrap_or_def opt_or_def env_override_def non_empty_opt_def opt_str_def split: option.splits)

text \<open>No identity of the process is empty, whatever the environment and the configuration hold, and an
  environment variable that is set and not empty wins.\<close>

lemma process_config_identity:
  assumes "process_config su cfg = Inr pc"
  shows "pc_executor_id pc \<noteq> []" "pc_application_version pc \<noteq> []" "pc_database_schema pc \<noteq> []"
    and "su_env su ''DBOS__VMID'' = Some v \<Longrightarrow> v \<noteq> [] \<Longrightarrow> pc_executor_id pc = v"
    and "su_env su ''DBOS__APPVERSION'' = Some v \<Longrightarrow> v \<noteq> [] \<Longrightarrow> pc_application_version pc = v"
proof -
  have d: "DEFAULT_EXECUTOR_ID \<noteq> []" "DEFAULT_DATABASE_SCHEMA \<noteq> []"
    "computed_app_version (su_hash su) (su_exe su) \<noteq> []"
    by (simp_all add: DEFAULT_EXECUTOR_ID_def DEFAULT_DATABASE_SCHEMA_def computed_app_version_def hex16_def)
  note f = process_config_fields [OF assms]
  show "pc_executor_id pc \<noteq> []" "pc_application_version pc \<noteq> []" "pc_database_schema pc \<noteq> []"
    unfolding f by (rule resolved_nonempty, rule d)+
  show "su_env su ''DBOS__VMID'' = Some v \<Longrightarrow> v \<noteq> [] \<Longrightarrow> pc_executor_id pc = v"
    "su_env su ''DBOS__APPVERSION'' = Some v \<Longrightarrow> v \<noteq> [] \<Longrightarrow> pc_application_version pc = v"
    unfolding f by (rule resolved_nonempty(3), assumption+)+
qed

lemma new_context_registries:
  "new_context su drv cd durations cfg = Inr (db, ex) \<Longrightarrow> registries_ok ex \<and> \<not> ex_launched ex"
  by (auto simp: new_context_def bind_res_def registries_ok_def split: sum.splits)

text \<open>A \<open>file:\<close> URL whose path holds \<open>sqlite3:\<close> names another file after the normalisation.\<close>

lemma file_url_rewritten:
  assumes "dr_sqlite_options drv ''file:/data/sqlite:db'' = Inr ()"
  shows "sqlite_connect_options drv ''file:/data/sqlite3:db'' = Inr ''file:/data/sqlite:db''"
proof -
  have "replace_first ''sqlite3:'' ''sqlite:'' ''file:/data/sqlite3:db'' = ''file:/data/sqlite:db''" by code_simp
  with assms show ?thesis by (simp add: sqlite_connect_options_def)
qed

text \<open>The configured schema and the switches for the admin server and for patching are resolved, and
  then nothing depends on them: the Postgres back end always uses the schema \<open>dbos\<close>.\<close>

lemma process_config_settings:
  "process_config su (cfg\<lparr>co_database_schema := s, co_admin_server := b, co_admin_server_port := p,
     co_enable_patching := q\<rparr>)
   = map_ok (\<lambda>pc. pc\<lparr>pc_database_schema := unwrap_or (non_empty_opt s) DEFAULT_DATABASE_SCHEMA,
       pc_admin_server := b, pc_admin_server_port := unwrap_or p 3001, pc_enable_patching := q\<rparr>)
       (process_config su cfg)"
  by (simp add: process_config_def Let_def)

lemma unused_settings:
  "new_context su drv cd durations (cfg\<lparr>co_database_schema := s, co_admin_server := b,
     co_admin_server_port := p, co_enable_patching := q\<rparr>) = new_context su drv cd durations cfg"
  unfolding new_context_def process_config_settings
  by (cases "process_config su cfg") (simp_all split: option.split)

end
