(* ===== verification/Client_Laws.thy ===== *)
theory Client_Laws
  imports Manage Config Lifecycle
begin

text \<open>
  Which executors can run what a client enqueues (\<open>client.rs\<close> against the queue runner's dequeue): the
  client stamps a version on every workflow, and an executor claims the workflows of its own version.
\<close>

subsection \<open>A claim needs the version\<close>

text \<open>An iteration of some executor's queue runner.\<close>

definition after_dequeues :: "(dequeue_input \<times> (nat \<Rightarrow> int)) list \<Rightarrow> sysdb \<Rightarrow> sysdb" where
  "after_dequeues ds db = fold (\<lambda>(input, clk) db. snd (dequeue_workflows input clk db)) ds db"

lemma other_version_unclaimed:
  assumes "schema_ok db" "wf_row db i = Some r" "ws_application_version r = Some v"
    "dq_application_version input \<noteq> v"
  shows "i \<notin> set (map dw_id (fst (dequeue_workflows input clk db)))
    \<and> wf_row (snd (dequeue_workflows input clk db)) i = Some r"
proof -
  obtain out db' where d: "dequeue_workflows input clk db = (out, db')" by fastforce
  from d assms(1) have "i \<notin> set (map dw_id out) \<and> wf_row db' i = Some r"
  proof (cases rule: dequeue_cases)
    case (some rows')
    have dist: "distinct (map ws_uuid (workflow_status db))" using assms(1) by (simp add: schema_defs)
    have "i \<notin> set (map ws_uuid (candidates input (workflow_status db)))"
    proof
      assume "i \<in> set (map ws_uuid (candidates input (workflow_status db)))"
      then obtain c where c: "c \<in> set (candidates input (workflow_status db))" "ws_uuid c = i" by auto
      from candidates_props(3) [OF dist c(1)] c(2) assms(2) have "c = r" by simp
      with c(1) candidates_props(2) [OF dist] have "eligible input r" by auto
      with assms(3,4) show False by (auto simp: eligible_def)
    qed
    with some(4) have "i \<notin> set (map dw_id out)" by (metis in_set_takeD)
    with some(1,5) assms(2) show ?thesis by (auto simp: claimed_rows_def)
  qed (use assms(2) in simp)
  with d show ?thesis by simp
qed

lemma dequeue_schema: "schema_ok db \<Longrightarrow> schema_ok (snd (dequeue_workflows input clk db))"
  using db_step.dequeue db_step_contract by blast

lemma other_versions_unclaimed:
  assumes "schema_ok db" "wf_row db i = Some r" "ws_application_version r = Some v"
    "\<forall>(input, clk)\<in>set ds. dq_application_version input \<noteq> v"
  shows "wf_row (after_dequeues ds db) i = Some r"
  using assms
proof (induction ds arbitrary: db)
  case (Cons d ds)
  obtain input clk where d: "d = (input, clk)" by fastforce
  with Cons.prems(4) have v: "dq_application_version input \<noteq> v" "\<forall>(input, clk)\<in>set ds. dq_application_version input \<noteq> v"
    by simp_all
  let ?db = "snd (dequeue_workflows input clk db)"
  have "wf_row (after_dequeues ds ?db) i = Some r"
    by (rule Cons.IH [OF dequeue_schema [OF Cons.prems(1)] _ Cons.prems(3) v(2)])
      (use other_version_unclaimed [OF Cons.prems(1-3) v(1)] in simp)
  with d show ?case by (simp add: after_dequeues_def)
qed (simp add: after_dequeues_def)

text \<open>The only eligible workflow of a queue without a rate limit is claimed when there is room.\<close>

lemma sole_candidate_claimed:
  assumes "schema_ok db" "wf_row db i = Some r" "\<forall>x\<in>set (workflow_status db). eligible input x \<longleftrightarrow> x = r"
    "dq_rate_limit input = None" "0 < task_budget input (workflow_status db)"
  shows "map dw_id (fst (dequeue_workflows input clk db)) = [i]"
proof -
  let ?rows = "workflow_status db"
  have dist: "distinct (map ws_uuid ?rows)" using assms(1) by (simp add: schema_defs)
  have r: "r \<in> set ?rows" "ws_uuid r = i" using fetch_SomeD [OF assms(2)] by auto
  have "set (candidates input ?rows) = {r}"
    using assms(3) r(1) by (auto simp: candidates_props(2) [OF dist])
  then have uuids: "\<forall>x\<in>set (candidates input ?rows). x = r" and "candidates input ?rows \<noteq> []" by auto
  then obtain cs where c: "candidates input ?rows = r # cs" by (cases "candidates input ?rows") auto
  have "cs = []"
  proof (cases cs)
    case (Cons x xs)
    with uuids c have "candidates input ?rows = r # r # xs" by simp
    with candidates_props(1) [OF dist, of input] show ?thesis by simp
  qed
  with c have cand: "candidates input ?rows = [r]" by simp
  have "eligible input r" using assms(3) r(1) by blast
  then have "ws_status r = Enqueued" by (simp add: eligible_def)
  from fetch_enqueued [OF assms(2) this dist]
  have row: "fetch (\<lambda>r. (ws_uuid r, ws_status r)) (i, Enqueued) ?rows = Some r" .
  have pos: "nat (task_budget input ?rows) = Suc (nat (task_budget input ?rows) - 1)" using assms(5) by simp
  have "take (nat (task_budget input ?rows)) [r] = [r]" by (subst pos) simp
  with row r(2) assms(4,5) cand show ?thesis
    by (simp add: dequeue_unfold Let_def rate_reached_def dequeued_of_def split_beta)
qed

subsection \<open>Enqueued work\<close>

lemma client_enqueue_schema:
  assumes "schema_ok (en_db e)" "eo_workflow_id opts = Some i"
    and "encode (resolve_encoder (cx_codec (ex_ctx ex)) False (cx_serializer (ex_ctx ex))) v = Inr enc"
  shows "schema_ok (en_db (snd (client_enqueue ex queue name v opts e)))"
proof (rule client_enqueue_insert [OF assms(2,3), of queue name e])
  fix created delay owner now e1
  let ?in = "\<lparr>in_status = enqueued_status ex queue name enc
       (sz_name (resolve_encoder (cx_codec (ex_ctx ex)) False (cx_serializer (ex_ctx ex)))) opts i created delay,
     in_max_retries = DEFAULT_MAX_RECOVERY_ATTEMPTS, in_owner_xid = owner,
     in_increment_attempts = False, in_record_child = None\<rparr>"
  assume run: "client_enqueue ex queue name v opts e =
      (let (r, db) = insert_workflow_status ?in now (en_db e) in (map_ok (\<lambda>_. Polling i) r, e1\<lparr>en_db := db\<rparr>))"
  have "schema_ok (snd (insert_workflow_status ?in now (en_db e)))"
    using db_step_contract [OF db_step.insert] assms(1) by blast
  then show ?thesis by (simp add: run split_beta)
qed

text \<open>C38. Work enqueued by a client is bound to one application version, the one named in the options or
  else the client's own: executors of other versions never claim it, however often they dequeue, and an
  executor of that version claims it when nothing else waits and the queue's limits leave room.\<close>

theorem client_work_bound_to_version:
  assumes "schema_ok (en_db e)" "wf_row (en_db e) i = None"
    and "eo_workflow_id opts = Some i" "eo_dedup_id opts = None" "eo_delay opts = None"
    and "encode (resolve_encoder (cx_codec (ex_ctx ex)) False (cx_serializer (ex_ctx ex))) v = Inr enc"
    and "version = unwrap_or (eo_version opts) (ex_version ex)" "version \<noteq> []" "queue \<noteq> []"
  shows "\<exists>r e'. client_enqueue ex queue name v opts e = (Inr (Polling i), e')
     \<and> wf_row (en_db e') i = Some r \<and> ws_status r = Enqueued \<and> ws_application_version r = Some version
     \<and> (\<forall>ds. (\<forall>(input, clk)\<in>set ds. dq_application_version input \<noteq> version) \<longrightarrow>
          wf_row (after_dequeues ds (en_db e')) i = Some r)
     \<and> (\<forall>input clk. dq_application_version input = version \<and> dq_queue_name input = queue
          \<and> dq_rate_limit input = None \<and> 0 < task_budget input (workflow_status (en_db e'))
          \<and> (\<forall>x\<in>set (workflow_status (en_db e)). \<not> eligible input x) \<longrightarrow>
          map dw_id (fst (dequeue_workflows input clk (en_db e'))) = [i])"
proof -
  from client_enqueue_fresh [OF assms(3,2,4,6), of queue name] obtain r e' where
    run: "client_enqueue ex queue name v opts e = (Inr (Polling i), e')"
    and db: "en_db e' = (en_db e)\<lparr>workflow_status := workflow_status (en_db e) @ [r]\<rparr>"
    and r: "ws_uuid r = i" "ws_queue_name r = opt_str queue" "ws_status r = Enqueued"
      "ws_application_version r = opt_str version"
    using assms(5,7) by auto
  from r assms(8,9) have q: "ws_queue_name r = Some queue" "ws_application_version r = Some version"
    by (simp_all add: opt_str_def)
  have ok: "schema_ok (en_db e')" using client_enqueue_schema [OF assms(1,3,6), of queue name] by (simp add: run)
  have row: "wf_row (en_db e') i = Some r" using assms(2) r(1) by (simp add: db fetch_append fetch_Cons)
  have "map dw_id (fst (dequeue_workflows input clk (en_db e'))) = [i]"
    if "dq_application_version input = version" "dq_queue_name input = queue" "dq_rate_limit input = None"
      "0 < task_budget input (workflow_status (en_db e'))" "\<forall>x\<in>set (workflow_status (en_db e)). \<not> eligible input x"
    for input clk
  proof (rule sole_candidate_claimed [OF ok row _ that(3,4)])
    have "eligible input r" using that(1,2) q r(3) by (simp add: eligible_def)
    with that(5) show "\<forall>x\<in>set (workflow_status (en_db e')). eligible input x \<longleftrightarrow> x = r" by (auto simp: db)
  qed
  moreover have "wf_row (after_dequeues ds (en_db e')) i = Some r"
    if "\<forall>(input, clk)\<in>set ds. dq_application_version input \<noteq> version" for ds
    by (rule other_versions_unclaimed [OF ok row q(2) that])
  ultimately show ?thesis using run row r(3) q(2) by blast
qed

lemma client_work_bound_to_version_witness:
  "\<exists>r e'. client_enqueue sample_ex ''q'' ''charge'' (JInt 1)
       \<lparr>eo_workflow_id = Some ''c1'', eo_version = None, eo_dedup_id = None, eo_priority = 0, eo_delay = None\<rparr>
       (sample_eng\<lparr>en_db := empty_db\<rparr>) = (Inr (Polling ''c1''), e')
     \<and> wf_row (after_dequeues [(sample_dequeue\<lparr>dq_application_version := ''v2''\<rparr>, int)] (en_db e')) ''c1'' = Some r
     \<and> map dw_id (fst (dequeue_workflows
         (sample_dequeue\<lparr>dq_global_concurrency := None, dq_rate_limit := None\<rparr>) int (en_db e'))) = [''c1'']"
proof -
  let ?e = "sample_eng\<lparr>en_db := empty_db\<rparr>" and ?cd = "cx_codec (ex_ctx sample_ex)"
  let ?opts = "\<lparr>eo_workflow_id = Some ''c1'', eo_version = None, eo_dedup_id = None, eo_priority = 0, eo_delay = None\<rparr>"
  let ?in = "sample_dequeue\<lparr>dq_global_concurrency := None, dq_rate_limit := None\<rparr>"
  obtain enc where enc: "encode (resolve_encoder ?cd False (cx_serializer (ex_ctx sample_ex))) (JInt 1) = Inr enc"
    by (cases "is_null (JInt 1)") (simp_all add: resolve_encoder_def sample_ex_def sample_ctx_def encode_def json_serializer_def)
  have "schema_ok (en_db ?e)" "wf_row (en_db ?e) ''c1'' = None" "workflow_status (en_db ?e) = []"
    by (simp_all add: schema_ok_empty) (simp_all add: empty_db_def)
  from client_work_bound_to_version [OF this(1,2) _ _ _ enc, of ?opts "''v1''" "''q''" "''charge''"] this(3)
  obtain r e' where run: "client_enqueue sample_ex ''q'' ''charge'' (JInt 1) ?opts ?e = (Inr (Polling ''c1''), e')"
    and other: "\<And>ds. \<forall>(input, clk)\<in>set ds. dq_application_version input \<noteq> ''v1'' \<Longrightarrow>
        wf_row (after_dequeues ds (en_db e')) ''c1'' = Some r"
    and same: "\<And>input clk. dq_application_version input = ''v1'' \<and> dq_queue_name input = ''q''
        \<and> dq_rate_limit input = None \<and> 0 < task_budget input (workflow_status (en_db e')) \<Longrightarrow>
        map dw_id (fst (dequeue_workflows input clk (en_db e'))) = [''c1'']"
    by (auto simp: sample_ex_def unwrap_or_def)
  have "0 < task_budget ?in (workflow_status (en_db e'))" by (simp add: task_budget_def sample_dequeue_def)
  then have "map dw_id (fst (dequeue_workflows ?in int (en_db e'))) = [''c1'']"
    by (intro same) (simp add: sample_dequeue_def)
  moreover have "wf_row (after_dequeues [(sample_dequeue\<lparr>dq_application_version := ''v2''\<rparr>, int)] (en_db e')) ''c1'' = Some r"
    by (rule other) simp
  ultimately show ?thesis by (intro exI conjI) (rule run)
qed

text \<open>What a client is without settings of its own: its version is that of its executable, so the servers
  of another executable never run what it enqueues.\<close>

lemma client_version_computed:
  fixes drv :: "'p drivers"
  assumes "client_new su drv cd durations migrate
      \<lparr>cc_app_name = app, cc_database_url = url, cc_application_version = None, cc_executor_id = x\<rparr> = Inr (db, ex)"
    and "su_env su ''DBOS__APPVERSION'' = None"
  shows "ex_version ex = computed_app_version (su_hash su) (su_exe su)"
proof -
  let ?cfg = "config_default\<lparr>co_app_name := app, co_database_url := Some url,
      co_application_version := None, co_executor_id := x\<rparr> :: 'p config"
  from assms(1) have "new_context su drv cd durations ?cfg = Inr (db, ex)"
    by (auto simp: client_new_def bind_res_def map_ok_def split: sum.splits prod.splits)
  then have "\<exists>pc. process_config su ?cfg = Inr pc \<and> ex_version ex = pc_application_version pc"
    by (auto simp: new_context_def bind_res_def split: sum.splits)
  then obtain pc where pc: "process_config su ?cfg = Inr pc" "ex_version ex = pc_application_version pc" by blast
  from process_config_fields(2) [OF pc(1)] pc(2) assms(2) show ?thesis
    by (simp add: config_default_def env_override_def non_empty_opt_def opt_or_def unwrap_or_def)
qed

end
