(* ===== verification/Cli.thy ===== *)
theory Cli
  imports Admin_Server Client_Laws
begin

text \<open>
  The command line, \<open>crates/dbos-cli/src/main.rs\<close>: the commands, what they ask of the client, what they
  print, and the server it runs.  \<open>clap\<close>'s reading of the arguments is not modelled: a command is its
  parsed form.  Lines are strings without their line feed.
\<close>

subsection \<open>Commands\<close>

record global_args =
  ga_database_url :: "string option"
  ga_app_name :: string

datatype workflow_command =
    List_cmd "string option" "string option" "int option"
  | Get_cmd string
  | Steps_cmd string
  | Cancel_cmd string
  | Resume_cmd string

datatype cli_command = Workflow_cmd workflow_command | Serve_cmd nat

text \<open>\<open>anyhow\<close>'s errors: an error of the library in its context, or a message.\<close>

datatype cli_error = In_context string dbos_error | Message string

definition with_context :: "string \<Rightarrow> 'a res \<Rightarrow> cli_error + 'a" where
  "with_context c r = (case r of Inl e \<Rightarrow> Inl (In_context c e) | Inr x \<Rightarrow> Inr x)"

definition database_url :: "global_args \<Rightarrow> cli_error + string" where
  "database_url ga =
     (case ga_database_url ga of
        None \<Rightarrow> Inl (Message ''a database URL is required (--database-url or DBOS_DATABASE_URL)'')
      | Some url \<Rightarrow> Inr url)"

definition connect_client ::
  "surroundings \<Rightarrow> 'p drivers \<Rightarrow> codec \<Rightarrow> (int \<Rightarrow> string) \<Rightarrow> ('p database \<Rightarrow> unit res) \<Rightarrow> global_args
   \<Rightarrow> cli_error + ('p database \<times> 'w executor)" where
  "connect_client su drv cd durations migrate ga =
     (case database_url ga of
        Inl e \<Rightarrow> Inl e
      | Inr url \<Rightarrow>
          with_context ''failed to connect to the DBOS system database''
            (client_new su drv cd durations migrate
               \<lparr>cc_app_name = ga_app_name ga, cc_database_url = url,
                cc_application_version = None, cc_executor_id = None\<rparr>))"

subsection \<open>Printing\<close>

text \<open>\<open>{:<n}\<close> counts characters; a byte that continues a character is not counted.\<close>

definition char_count :: "string \<Rightarrow> nat" where
  "char_count s = length (filter (\<lambda>c. \<not> (128 \<le> (of_char c :: nat) \<and> (of_char c :: nat) < 192)) s)"

definition pad :: "nat \<Rightarrow> string \<Rightarrow> string" where
  "pad n s = s @ replicate (n - char_count s) (CHR '' '')"

definition columns :: "(nat \<times> string) list \<Rightarrow> string" where
  "columns cells = join_with '' '' (map (\<lambda>(n, s). pad n s) cells)"

definition print_workflow_table :: "workflow_status_view list \<Rightarrow> string list" where
  "print_workflow_table workflows =
     columns [(38, ''ID''), (30, ''NAME''), (12, ''STATUS''), (20, ''QUEUE'')]
     # map (\<lambda>w. columns [(38, wv_id w), (30, wv_name w), (12, as_str (wv_status w)), (20, wv_queue_name w)]) workflows"

definition print_workflow_detail :: "workflow_status_view \<Rightarrow> string list" where
  "print_workflow_detail w =
     [''ID:                '' @ wv_id w,
      ''Name:              '' @ wv_name w,
      ''Status:            '' @ as_str (wv_status w),
      ''Queue:             '' @ wv_queue_name w,
      ''Executor:          '' @ wv_executor_id w,
      ''ApplicationVersion:'' @ wv_application_version w,
      ''Attempts:          '' @ show_int (wv_attempts w),
      ''CreatedAt(ms):     '' @ show_int (wv_created_at_ms w),
      ''UpdatedAt(ms):     '' @ show_int (wv_updated_at_ms w)]
     @ (case wv_input w of Some x \<Rightarrow> [''Input:             '' @ x] | None \<Rightarrow> [])
     @ (case wv_output w of Some x \<Rightarrow> [''Output:            '' @ x] | None \<Rightarrow> [])
     @ (case wv_error w of Some x \<Rightarrow> [''Error:             '' @ x] | None \<Rightarrow> [])"

definition print_steps :: "step_info list \<Rightarrow> string list" where
  "print_steps ss =
     columns [(10, ''STEP''), (30, ''NAME''), (20, ''CHILD_WORKFLOW'')]
     # map (\<lambda>s. columns [(10, show_int (si_step_id s)), (30, si_step_name s), (20, unwrap_or_default (si_child s))]) ss"

subsection \<open>Workflow commands\<close>

definition list_command_input :: "string option \<Rightarrow> string option \<Rightarrow> int option \<Rightarrow> list_input" where
  "list_command_input status name limit =
     li_default\<lparr>li_status := listed (Option.bind status parse_status),
       li_workflow_name := listed name, li_limit := limit, li_sort_desc := True\<rparr>"

text \<open>The lines a command prints, or the error it ends with; reading the database does not fail.\<close>

definition run_command :: "workflow_command \<Rightarrow> 'w rt \<Rightarrow> (cli_error + string list) \<times> 'w rt" where
  "run_command cmd rt =
     (case cmd of
        List_cmd status name limit \<Rightarrow>
          (Inr (print_workflow_table (list_workflows (list_command_input status name limit) (rt_db rt))), rt)
      | Get_cmd i \<Rightarrow>
          (case list_workflows
                  (li_default\<lparr>li_workflow_ids := [i], li_load_input := True, li_load_output := True\<rparr>) (rt_db rt) of
             w # _ \<Rightarrow> (Inr (print_workflow_detail w), rt)
           | [] \<Rightarrow> (Inl (Message (''workflow '' @ i @ '' not found'')), rt))
      | Steps_cmd i \<Rightarrow> (Inr (print_steps (get_workflow_steps i (rt_db rt))), rt)
      | Cancel_cmd i \<Rightarrow>
          (let (r, rt) = manage_cancel i rt
           in (map_sum id (\<lambda>_. [''cancelled '' @ i]) (with_context ''failed to cancel workflow'' r), rt))
      | Resume_cmd i \<Rightarrow>
          (let (r, rt) = manage_resume i rt
           in (map_sum id (\<lambda>h. [''resumed '' @ handle_id h]) (with_context ''failed to resume workflow'' r), rt)))"

definition run_workflow_cmd ::
  "surroundings \<Rightarrow> 'p drivers \<Rightarrow> codec \<Rightarrow> (int \<Rightarrow> string) \<Rightarrow> ('p database \<Rightarrow> unit res) \<Rightarrow> global_args
   \<Rightarrow> workflow_command \<Rightarrow> 'w rt \<Rightarrow> (cli_error + string list) \<times> 'w rt" where
  "run_workflow_cmd su drv cd durations migrate ga cmd rt =
     (case connect_client su drv cd durations migrate ga :: cli_error + ('p database \<times> 'w executor) of
        Inl e \<Rightarrow> (Inl e, rt)
      | Inr _ \<Rightarrow> run_command cmd rt)"

subsection \<open>Serving\<close>

text \<open>What happens until Ctrl-C: admin requests, iterations of the queue runner, and whatever other
  processes and tasks do.\<close>

datatype ('b, 'w) serve_event =
  Request "'b http_request" | Runner_turn | Elsewhere "'w rt \<Rightarrow> 'w rt"

fun serve_events ::
  "'b axum \<Rightarrow> 'w executor \<Rightarrow> ('b, 'w) serve_event list \<Rightarrow> 'w rt \<Rightarrow> http_response list \<times> 'w rt" where
  "serve_events ax ex [] rt = ([], rt)"
| "serve_events ax ex (Request rq # es) rt =
     (let (r, rt) = answer_request ax ex rq rt; (rs, rt) = serve_events ax ex es rt in (r # rs, rt))"
| "serve_events ax ex (Runner_turn # es) rt = serve_events ax ex es (runner_tick ex rt)"
| "serve_events ax ex (Elsewhere f # es) rt = serve_events ax ex es (f rt)"

definition start_serving ::
  "surroundings \<Rightarrow> 'p drivers \<Rightarrow> codec \<Rightarrow> (int \<Rightarrow> string) \<Rightarrow> ('p database \<Rightarrow> unit res) \<Rightarrow> (nat \<Rightarrow> string + (string + nat))
   \<Rightarrow> global_args \<Rightarrow> nat \<Rightarrow> 'w rt \<Rightarrow> (cli_error + 'w executor) \<times> 'w rt" where
  "start_serving su drv cd durations migrate bind_port ga port rt =
     (case database_url ga of
        Inl e \<Rightarrow> (Inl e, rt)
      | Inr url \<Rightarrow>
          (case new_context su drv cd durations
                  (config_default\<lparr>co_app_name := ga_app_name ga, co_database_url := Some url\<rparr>) of
             Inl e \<Rightarrow> (Inl (In_context ''failed to build DBOS context'' e), rt)
           | Inr (db, ex) \<Rightarrow>
               (case migrate db of
                  Inl e \<Rightarrow> (Inl (In_context ''failed to launch DBOS'' e), rt)
                | Inr _ \<Rightarrow>
                    (case launch ex rt of
                       (Inl e, _, rt) \<Rightarrow> (Inl (In_context ''failed to launch DBOS'' e), rt)
                     | (Inr _, ex, rt) \<Rightarrow>
                         (case start_admin_server bind_port port of
                            Inl e \<Rightarrow> (Inl (In_context ''failed to start admin server'' e), rt)
                          | Inr _ \<Rightarrow> (Inr ex, rt))))))"

definition run_serve ::
  "surroundings \<Rightarrow> 'p drivers \<Rightarrow> codec \<Rightarrow> (int \<Rightarrow> string) \<Rightarrow> ('p database \<Rightarrow> unit res) \<Rightarrow> (nat \<Rightarrow> string + (string + nat))
   \<Rightarrow> 'b axum \<Rightarrow> global_args \<Rightarrow> nat \<Rightarrow> ('b, 'w) serve_event list \<Rightarrow> 'w rt
   \<Rightarrow> (cli_error + http_response list) \<times> 'w rt" where
  "run_serve su drv cd durations migrate bind_port ax ga port events rt =
     (case start_serving su drv cd durations migrate bind_port ga port rt of
        (Inl e, rt) \<Rightarrow> (Inl e, rt)
      | (Inr ex, rt) \<Rightarrow> map_prod Inr id (serve_events ax ex events rt))"

subsection \<open>The commands\<close>

lemma resume_existing:
  assumes "schema_ok (rt_db rt)" "wf_row (rt_db rt) i = Some r"
  shows "\<exists>rt' now. manage_resume i rt = (Inr (Polling i), rt') \<and> rt_db rt' = resume_workflow i now (rt_db rt)"
  using assms by (auto simp: manage_resume_def get_workflow_status_eq Let_def split_beta lift_db_db)

lemma resume_missing:
  assumes "schema_ok (rt_db rt)" "wf_row (rt_db rt) i = None"
  shows "manage_resume i rt = (Inl (non_existent_workflow i), rt)"
  using assms by (simp add: manage_resume_def get_workflow_status_eq)

lemma cancel_missing:
  assumes "wf_row (rt_db rt) i = None"
  shows "fst (manage_cancel i rt) = Inl (non_existent_workflow i)"
    "rt_db (snd (manage_cancel i rt)) = rt_db rt"
  using assms
  by (simp_all add: manage_cancel_def Let_def split_beta lift_db_def lift_eng_def now_ms_def cancel_workflow_def
      update_where_none fetch_None_iff)

lemma cancel_command:
  assumes "wf_row (rt_db rt) i = Some r"
  shows "\<exists>rt' now. manage_cancel i rt = (Inr (), rt')
     \<and> (\<forall>j. wf_row (rt_db rt') j = (if j = i then Some (if decided r then r else cancel_row now r) else wf_row (rt_db rt) j))"
proof -
  have "wf_exists (rt_db rt) i" using assms by simp
  from manage_cancel_existing [OF this] obtain rt' now where run: "manage_cancel i rt = (Inr (), rt')" and
    db: "rt_db rt' = (rt_db rt)\<lparr>workflow_status := update_where
           (\<lambda>r. ws_uuid r = i \<and> \<not> decided r) (cancel_row now) (workflow_status (rt_db rt))\<rparr>" by blast
  have "wf_row (rt_db rt') j = (if j = i then Some (if decided r then r else cancel_row now r) else wf_row (rt_db rt) j)" for j
    using cancelled_row [OF db, of j] assms by (cases "wf_row (rt_db rt) j") auto
  with run show ?thesis by blast
qed

lemma resume_command:
  assumes "schema_ok (rt_db rt)" "wf_row (rt_db rt) i = Some r"
  shows "\<exists>rt' now. manage_resume i rt = (Inr (Polling i), rt')
     \<and> (\<forall>j. wf_row (rt_db rt') j
          = (if j = i then Some (if ws_status r \<in> {Success, Error} then r else resume_row now r) else wf_row (rt_db rt) j))"
proof -
  from resume_existing [OF assms] obtain rt' now where run: "manage_resume i rt = (Inr (Polling i), rt')"
    "rt_db rt' = resume_workflow i now (rt_db rt)" by blast
  have "wf_row (rt_db rt') j
      = (if j = i then Some (if ws_status r \<in> {Success, Error} then r else resume_row now r) else wf_row (rt_db rt) j)" for j
    using assms(2) wf_row_uuid [where db = "rt_db rt" and i = j]
    by (cases "wf_row (rt_db rt) j") (auto simp: run(2) resume_workflow_def fetch_update_where resume_row_def)
  with run show ?thesis by blast
qed

lemma get_command_row:
  assumes "schema_ok (rt_db rt)"
  shows "run_command (Get_cmd i) rt =
    (case wf_row (rt_db rt) i of
       None \<Rightarrow> (Inl (Message (''workflow '' @ i @ '' not found'')), rt)
     | Some r \<Rightarrow> (Inr (print_workflow_detail (row_to_status r True True)), rt))"
  using get_workflow_status_eq [OF assms, of i]
  by (cases "wf_row (rt_db rt) i") (auto simp: run_command_def get_workflow_status_def split: list.splits)

lemma unpaged_list_command:
  "set (list_workflows (list_command_input status name None) db)
   = (\<lambda>r. row_to_status r False False)
       ` {r \<in> set (workflow_status db). list_matches (list_command_input status name None) r}"
  using list_workflows_unpaged [of "list_command_input status name None" db]
  by (simp add: list_command_input_def li_default_def)



text \<open>A status that is none of the known ones is dropped, and every workflow is listed.\<close>

lemma unknown_status_lists_all:
  "parse_status s = None \<Longrightarrow> list_command_input (Some s) name limit = list_command_input None name limit"
  by (simp add: list_command_input_def listed_def)

lemma lower_case_status_lists_all:
  "list_command_input (Some ''pending'') name limit = list_command_input None name limit"
  by (rule unknown_status_lists_all) code_simp

lemma char_count_append [simp]: "char_count (s @ t) = char_count s + char_count t"
  by (simp add: char_count_def)

text \<open>A cell is as wide as its column, or as its text where that is longer.\<close>

lemma pad_width: "char_count (pad n s) = max n (char_count s)"
proof -
  have "char_count (replicate k (CHR '' '')) = k" for k
    by (simp add: char_count_def filter_replicate)
  then show ?thesis by (simp add: pad_def max_def)
qed

subsection \<open>What serving does to an application\<close>

text \<open>The process that serves is an executor with a version of its own and without workflows.\<close>

lemma created_version_latest:
  assumes "fetch av_name v (application_versions db) = None" "\<forall>r\<in>set (application_versions db). av_timestamp r < now"
  shows "get_latest_application_version (create_application_version v u now db) = Some v"
proof -
  let ?new = "\<lparr>av_id = u, av_name = v, av_timestamp = now, av_created_at = now\<rparr>"
  let ?rows = "application_versions db @ [?new]"
  let ?s = "sort_key (\<lambda>r. - av_timestamp r) ?rows"
  have "?new \<in> set ?s" by simp
  then obtain x xs where s: "?s = x # xs" by (cases ?s) auto
  have "sorted (map (\<lambda>r. - av_timestamp r) (x # xs))" unfolding s [symmetric] by simp
  with \<open>?new \<in> set ?s\<close> have "now \<le> av_timestamp x" unfolding s by auto
  moreover have "x \<in> set ?rows" by (metis list.set_intros(1) s set_sort)
  ultimately have "x = ?new" using assms(2) by auto
  then show ?thesis using assms(1) s by (simp add: get_latest_application_version_def create_application_version_def)
qed

lemma empty_recovery_versions:
  "ex_registry ex = [] \<Longrightarrow> application_versions (rt_db (snd (recover_loop ex ws rt))) = application_versions (rt_db rt)"
proof (induction ws arbitrary: rt)
  case (Cons w ws)
  have "application_versions (rt_db (snd (lift_db (clear_queue_assignment i) rt))) = application_versions (rt_db rt)" for i
    by (simp add: lift_db_db clear_queue_assignment_def Let_def)
  with Cons show ?case by (simp add: split_beta Let_def)
qed simp

lemma launch_latest_version:
  assumes "ex_registry ex = []" "\<not> ex_launched ex"
    and "fetch av_name (ex_version ex) (application_versions (rt_db rt)) = None"
    and "\<forall>r\<in>set (application_versions (rt_db rt)). av_timestamp r < fst (now_ms (snd (new_uuid (rt_eng rt))))"
  shows "get_latest_application_version (rt_db (snd (snd (launch ex rt)))) = Some (ex_version ex)"
proof -
  have reg: "ex_registry (register_internal_queue ex) = []"
    using assms(1) by (simp add: register_internal_queue_def)
  have latest: "get_latest_application_version db = get_latest_application_version db'"
    if "application_versions db = application_versions db'" for db db'
    using that by (simp add: get_latest_application_version_def)
  obtain u e1 where u: "new_uuid (rt_eng rt) = (u, e1)" by fastforce
  obtain now e2 where n: "now_ms e1 = (now, e2)" by fastforce
  have "en_db e2 = rt_db rt" using u n by (auto simp: new_uuid_def now_ms_def)
  with created_version_latest [OF assms(3), of now u] assms(2,4) u n show ?thesis
    by (simp add: launch_def recover_pending_workflows_def Let_def split_beta
        latest [OF empty_recovery_versions [OF reg]])
qed

text \<open>An executor without workflows claims what it cannot run: the rows go to PENDING, and no task starts.\<close>

lemma unregistered_dispatch:
  "ex_registry ex = [] \<Longrightarrow> dispatch_all ex dqs rt = rt"
  by (induction dqs) (simp_all add: Background.dispatch_def run_workflow_erased_def)

lemma unregistered_claims_stranded:
  assumes "ex_registry ex = []" "schema_ok (rt_db rt)"
    and "i \<in> set (map dw_id (fst (dequeue_workflows (dequeue_input_of ex q rt)
          (\<lambda>n. en_ticks (rt_eng rt) (en_reads (rt_eng rt) + n)) (rt_db rt))))"
  shows "rt_tasks (dequeue_and_dispatch ex q rt) = rt_tasks rt
    \<and> (\<exists>r. wf_row (rt_db (dequeue_and_dispatch ex q rt)) i = Some r \<and> ws_status r = Pending
         \<and> ws_application_version r = Some (ex_version ex))"
proof -
  let ?in = "dequeue_input_of ex q rt" and ?clk = "\<lambda>n. en_ticks (rt_eng rt) (en_reads (rt_eng rt) + n)"
  obtain out db' where d: "dequeue_workflows ?in ?clk (rt_db rt) = (out, db')" by fastforce
  from dequeue_claimed [OF d assms(2)] assms(3) d obtain now r where
    "wf_row db' i = Some (claim ?in now r)" by (auto simp: claimed_rows_def)
  with d show ?thesis
    by (simp add: dequeue_and_dispatch_def unregistered_dispatch [OF assms(1)] Let_def split_beta claim_def
        dequeue_input_of_def)
qed

text \<open>\<open>dbos serve\<close> on the database of an application of another version: its version becomes the latest,
  which the application's executors stamp on the ticks of its schedules.\<close>

lemma start_serving_executor:
  assumes "start_serving su drv cd durations migrate bind_port ga port rt = (Inr ex, rt')"
  shows "\<exists>ex0. ex_registry ex0 = [] \<and> \<not> ex_launched ex0 \<and> ex_version ex0 = ex_version ex
    \<and> launch ex0 rt = (Inr (), ex, rt') \<and> ex_registry ex = [] \<and> ex_launched ex"
proof -
  from assms obtain url db ex0 where new: "new_context su drv cd durations
      (config_default\<lparr>co_app_name := ga_app_name ga, co_database_url := Some url\<rparr>) = Inr (db, ex0)"
    and l: "launch ex0 rt = (Inr (), ex, rt')"
    by (auto simp: start_serving_def split: sum.splits prod.splits)
  from new have "ex_registry ex0 = []" "\<not> ex_launched ex0"
    by (auto simp: new_context_def bind_res_def split: sum.splits)
  with l show ?thesis
    by (intro exI [of _ ex0]) (auto simp: launch_def Let_def register_internal_queue_def split: prod.splits if_splits)
qed

lemma serving_takes_latest_version:
  assumes "start_serving su drv cd durations migrate bind_port ga port rt = (Inr ex, rt')"
    and "fetch av_name (ex_version ex) (application_versions (rt_db rt)) = None"
    and "\<forall>r\<in>set (application_versions (rt_db rt)). av_timestamp r < fst (now_ms (snd (new_uuid (rt_eng rt))))"
  shows "get_latest_application_version (rt_db rt') = Some (ex_version ex)" "ex_registry ex = []"
proof -
  from start_serving_executor [OF assms(1)] obtain ex0 where
    "ex_registry ex0 = []" "\<not> ex_launched ex0" "ex_version ex0 = ex_version ex"
    "launch ex0 rt = (Inr (), ex, rt')" "ex_registry ex = []" by blast
  with launch_latest_version [of ex0 rt] assms(2,3)
  show "get_latest_application_version (rt_db rt') = Some (ex_version ex)" "ex_registry ex = []" by simp_all
qed

end
